theory Spec2Isabelle
  imports Main
begin

section \<open>Python strings\<close>

text \<open>
  A Python \<open>str\<close> is modelled as a \<open>string\<close>; the characters of a pipeline file are
  taken to be ASCII, so no character outside ASCII is given a special meaning here.
\<close>

definition code :: "char \<Rightarrow> nat" where
  "code c = of_char c"

text \<open>\<open>str.strip()\<close> removes what \<open>str.isspace\<close> accepts.\<close>

definition py_isspace :: "char \<Rightarrow> bool" where
  "py_isspace c = ((9 \<le> code c \<and> code c \<le> 13) \<or> (28 \<le> code c \<and> code c \<le> 32))"

text \<open>\<open>int()\<close> and \<open>float()\<close> skip blanks, tabs, line feeds, vertical tabs, form feeds
  and carriage returns around a literal.\<close>

definition c_isspace :: "char \<Rightarrow> bool" where
  "c_isspace c = ((9 \<le> code c \<and> code c \<le> 13) \<or> code c = 32)"

definition is_digit :: "char \<Rightarrow> bool" where
  "is_digit c = (48 \<le> code c \<and> code c \<le> 57)"

definition lower_char :: "char \<Rightarrow> char" where
  "lower_char c = (if 65 \<le> code c \<and> code c \<le> 90 then char_of (code c + 32) else c)"

definition lower :: "string \<Rightarrow> string" where
  "lower s = map lower_char s"

text \<open>\<open>s.strip(chars)\<close>, \<open>s.rstrip(chars)\<close> with the character set as a predicate.\<close>

definition rstrip :: "(char \<Rightarrow> bool) \<Rightarrow> string \<Rightarrow> string" where
  "rstrip P s = rev (dropWhile P (rev s))"

definition strip :: "(char \<Rightarrow> bool) \<Rightarrow> string \<Rightarrow> string" where
  "strip P s = rstrip P (dropWhile P s)"

text \<open>\<open>s.split(c)\<close> for a separator of one character: never the empty list.\<close>

fun split :: "char \<Rightarrow> string \<Rightarrow> string list" where
  "split c [] = [[]]"
| "split c (x # xs) =
     (if x = c then [] # split c xs
      else (case split c xs of [] \<Rightarrow> [[x]] | w # ws \<Rightarrow> (x # w) # ws))"

text \<open>\<open>sub in s\<close> on strings.\<close>

fun starts_with :: "string \<Rightarrow> string \<Rightarrow> bool" where
  "starts_with [] s = True"
| "starts_with (a # as) [] = False"
| "starts_with (a # as) (c # cs) = (a = c \<and> starts_with as cs)"

fun contains :: "string \<Rightarrow> string \<Rightarrow> bool" where
  "contains sub [] = (sub = [])"
| "contains sub (c # cs) = (starts_with sub (c # cs) \<or> contains sub cs)"

text \<open>\<open>s.replace(c, '')\<close> for a single character.\<close>

definition remove_char :: "char \<Rightarrow> string \<Rightarrow> string" where
  "remove_char c s = filter (\<lambda>x. x \<noteq> c) s"

section \<open>Python values and exceptions\<close>

text \<open>
  The values that configuration parameters take. A float is kept as the literal that
  \<open>float()\<close> accepted: which text is a float literal is decided here, its rounded binary
  value is not computed.
\<close>

datatype pyval =
    VNone
  | VBool bool
  | VInt int
  | VFloat string
  | VStr string
  | VList "pyval list"

datatype exc =
    IndexError
  | ValueError
  | KeyError string
  | AttributeError
  | TypeError

subsection \<open>\<open>int(s)\<close> and \<open>float(s)\<close> on a string\<close>

text \<open>
  The literals are read as ASCII text: the digits are \<open>0\<close> to \<open>9\<close> and the blanks that
  \<open>int\<close> and \<open>float\<close> strip are the ASCII ones. The digits and blanks of Unicode
  outside ASCII that Python also accepts, and the limit on the length of an integer
  literal of Python 3.11 and later, are not modelled.
\<close>

text \<open>A run of digits, single underscores allowed between two digits; the underscores
  are dropped.\<close>

fun digitpart :: "string \<Rightarrow> string option" where
  "digitpart [] = None"
| "digitpart [c] = (if is_digit c then Some [c] else None)"
| "digitpart (c # d # r) =
     (if is_digit c then
        (if d = CHR ''_'' then map_option (Cons c) (digitpart r)
         else map_option (Cons c) (digitpart (d # r)))
      else None)"

definition digits_value :: "string \<Rightarrow> int" where
  "digits_value ds = foldl (\<lambda>acc c. 10 * acc + int (code c - 48)) 0 ds"

definition unsign :: "string \<Rightarrow> bool \<times> string" where
  "unsign s = (case s of
       [] \<Rightarrow> (False, [])
     | c # r \<Rightarrow> if c = CHR ''-'' then (True, r) else if c = CHR ''+'' then (False, r) else (False, s))"

definition py_int :: "string \<Rightarrow> int option" where
  "py_int s =
     (let (neg, body) = unsign (strip c_isspace s) in
      case digitpart body of
        None \<Rightarrow> None
      | Some ds \<Rightarrow> Some (if neg then - digits_value ds else digits_value ds))"

text \<open>The exponent of a float literal: an optional sign and a digit part.\<close>

definition is_exponent :: "string \<Rightarrow> bool" where
  "is_exponent s = (digitpart (snd (unsign s)) \<noteq> None)"

text \<open>\<open>[digitpart] "." digitpart | digitpart ["."]\<close>\<close>

definition is_number :: "string \<Rightarrow> bool" where
  "is_number s =
     (let ip = takeWhile (\<lambda>c. c \<noteq> CHR ''.'') s; rest = dropWhile (\<lambda>c. c \<noteq> CHR ''.'') s in
      case rest of
        [] \<Rightarrow> digitpart ip \<noteq> None
      | _ # fp \<Rightarrow>
          (if fp = [] then digitpart ip \<noteq> None
           else (ip = [] \<or> digitpart ip \<noteq> None) \<and> digitpart fp \<noteq> None))"

definition is_floatnumber :: "string \<Rightarrow> bool" where
  "is_floatnumber s =
     (let isE = (\<lambda>c. c = CHR ''e'' \<or> c = CHR ''E'');
          m = takeWhile (\<lambda>c. \<not> isE c) s; rest = dropWhile (\<lambda>c. \<not> isE c) s in
      case rest of
        [] \<Rightarrow> is_number m
      | _ # ex \<Rightarrow> is_number m \<and> is_exponent ex)"

definition py_float :: "string \<Rightarrow> string option" where
  "py_float s =
     (let body = snd (unsign (strip c_isspace s)) in
      if lower body \<in> {''inf'', ''infinity'', ''nan''} \<or> is_floatnumber body
      then Some s else None)"

section \<open>Value coercion: \<open>parse\<close>\<close>

text \<open>
  The elements of a bracketed list: split at commas, strip the brackets \<open>[\<close> off the
  first element and the brackets \<open>]\<close> off the last.
\<close>

definition list_items :: "string \<Rightarrow> string list" where
  "list_items i =
     (let sp = split CHR '','' i;
          sp1 = sp[0 := strip (\<lambda>c. c = CHR ''['') (sp ! 0)];
          n = length sp1 - 1
      in sp1[n := strip (\<lambda>c. c = CHR '']'') (sp1 ! n)])"

text \<open>The loop over the elements stops at the first one that raises.\<close>

fun collect :: "(exc + 'a) list \<Rightarrow> exc + 'a list" where
  "collect [] = Inr []"
| "collect (Inl e # rs) = Inl e"
| "collect (Inr v # rs) = (case collect rs of Inl e \<Rightarrow> Inl e | Inr vs \<Rightarrow> Inr (v # vs))"

lemma length_dropWhile_less:
  "s \<noteq> [] \<Longrightarrow> P (hd s) \<Longrightarrow> length (dropWhile P s) < length s"
  by (cases s) (simp_all add: le_imp_less_Suc length_dropWhile_le)

lemma length_rstrip_le: "length (rstrip P s) \<le> length s"
  unfolding rstrip_def using length_dropWhile_le [of P "rev s"] by simp

lemma length_strip_le: "length (strip P s) \<le> length s"
  unfolding strip_def
  using length_rstrip_le [of P "dropWhile P s"] length_dropWhile_le [of P s] by linarith

lemma length_strip_less:
  "s \<noteq> [] \<Longrightarrow> P (hd s) \<Longrightarrow> length (strip P s) < length s"
  unfolding strip_def
  using length_rstrip_le [of P "dropWhile P s"] length_dropWhile_less [of s P] by linarith

lemma split_not_Nil: "split c s \<noteq> []"
  by (induction s) (auto split: list.splits)

lemma split_shorter:
  "x \<in> set (split c s) \<Longrightarrow> length x < length s \<or> split c s = [s]"
proof (induction s arbitrary: x)
  case Nil
  then show ?case by simp
next
  case (Cons a s)
  show ?case
  proof (cases "a = c")
    case True
    with Cons show ?thesis by fastforce
  next
    case False
    obtain w ws where sp: "split c s = w # ws"
      using split_not_Nil [of c s] by (cases "split c s") auto
    from Cons.prems False sp have "x = a # w \<or> x \<in> set ws" by simp
    then show ?thesis
    proof
      assume xa: "x = a # w"
      from Cons.IH [of w] sp have "length w < length s \<or> w # ws = [s]" by simp
      with xa False sp show ?thesis by auto
    next
      assume "x \<in> set ws"
      with Cons.IH [of x] sp have "length x < length s \<or> w # ws = [s]" by simp
      with \<open>x \<in> set ws\<close> show ?thesis by auto
    qed
  qed
qed

lemma list_items_shorter:
  assumes "i \<noteq> []" and "hd i = CHR ''[''" and "x \<in> set (list_items i)"
  shows "length x < length i"
proof -
  define sp where "sp = split CHR '','' i"
  define sp1 where "sp1 = sp[0 := strip (\<lambda>c. c = CHR ''['') (sp ! 0)]"
  define n where "n = length sp1 - 1"
  have items: "list_items i = sp1[n := strip (\<lambda>c. c = CHR '']'') (sp1 ! n)]"
    by (simp add: list_items_def sp_def sp1_def n_def Let_def)
  have ne: "sp \<noteq> []" by (simp add: sp_def split_not_Nil)
  show ?thesis
  proof (cases "sp = [i]")
    case True
    then have "list_items i = [strip (\<lambda>c. c = CHR '']'') (strip (\<lambda>c. c = CHR ''['') i)]"
      by (simp add: items sp1_def n_def)
    with assms(3) have "x = strip (\<lambda>c. c = CHR '']'') (strip (\<lambda>c. c = CHR ''['') i)" by simp
    moreover have "length (strip (\<lambda>c. c = CHR ''['') i) < length i"
      using assms(1,2) by (simp add: length_strip_less)
    ultimately show ?thesis
      using length_strip_le [of "\<lambda>c. c = CHR '']''" "strip (\<lambda>c. c = CHR ''['') i"] by simp
  next
    case False
    have short: "\<And>y. y \<in> set sp \<Longrightarrow> length y < length i"
      using split_shorter [of _ "CHR '',''" i] False by (auto simp: sp_def)
    have short1: "\<And>y. y \<in> set sp1 \<Longrightarrow> length y < length i"
    proof -
      fix y assume "y \<in> set sp1"
      then have "y = strip (\<lambda>c. c = CHR ''['') (sp ! 0) \<or> y \<in> set sp"
        unfolding sp1_def using set_update_subset_insert [of sp 0] by blast
      moreover have "length (sp ! 0) < length i" using ne short by simp
      ultimately show "length y < length i"
        using short length_strip_le [of "\<lambda>c. c = CHR ''[''" "sp ! 0"] by auto
    qed
    have ne1: "sp1 \<noteq> []" using ne by (simp add: sp1_def)
    from assms(3) have "x = strip (\<lambda>c. c = CHR '']'') (sp1 ! n) \<or> x \<in> set sp1"
      unfolding items using set_update_subset_insert [of sp1 n] by blast
    moreover have "length (sp1 ! n) < length i" using ne1 short1 by (simp add: n_def)
    ultimately show ?thesis
      using short1 length_strip_le [of "\<lambda>c. c = CHR '']''" "sp1 ! n"] by auto
  qed
qed

text \<open>
  \<open>parse(i)\<close>. The argument \<open>ev\<close> stands for Python's \<open>eval\<close>: \<open>None\<close> when the
  evaluation raises, the value otherwise. Every \<open>try\<close> of the source is a \<open>case\<close> here;
  the test \<open>i[0] == '['\<close> stands outside any \<open>try\<close>.
\<close>

function parse :: "(string \<Rightarrow> pyval option) \<Rightarrow> string \<Rightarrow> exc + pyval" where
  "parse ev i =
     (if i \<in> {''True'', ''true''} then Inr (VBool True)
      else if i \<in> {''False'', ''false''} then Inr (VBool False)
      else case py_int i of
        Some n \<Rightarrow> Inr (VInt n)
      | None \<Rightarrow>
         (case py_float i of
            Some f \<Rightarrow> Inr (VFloat f)
          | None \<Rightarrow>
             (if contains ''pi'' i then
                (case ev i of Some v \<Rightarrow> Inr v | None \<Rightarrow> Inr (VStr i))
              else if i = [] then Inl IndexError
              else if hd i \<noteq> CHR ''['' then Inr (VStr i)
              else (case collect (map (parse ev) (list_items i)) of
                      Inr vs \<Rightarrow> Inr (VList vs)
                    | Inl e \<Rightarrow> Inr (VStr i)))))"
  by pat_completeness auto
termination
  by (relation "measure (\<lambda>(ev, i). length i)") (auto simp: list_items_shorter)

declare parse.simps [simp del]

section \<open>The run-time environment\<close>

text \<open>
  What the orchestrator receives from outside: the command line (\<open>-c\<close>, \<open>-i\<close>,
  \<open>-v\<close>), Python's \<open>eval\<close>, and the collaborators. \<open>subprocess\<close> answers an
  invocation, given what was printed and invoked before it: \<open>None\<close> when
  \<open>subprocess.run\<close> or \<open>subprocess.check_output\<close> raises, otherwise the text of the
  returned output. The numeric value of a float literal is left to \<open>float_eq\<close> and
  \<open>float_gt\<close> (comparison with an integer), and the text of \<open>str(x)\<close> for a float or
  a list to \<open>str_other\<close>.
\<close>

datatype event =
    Print string
  | EPrint string
  | PrintParams
  | PrintTimer string
  | Call "string list"

record env =
  configFile :: string
  inputPath :: string
  verbose :: bool
  py_eval :: "string \<Rightarrow> pyval option"
  subprocess :: "event list \<Rightarrow> string list \<Rightarrow> string option"
  float_eq :: "string \<Rightarrow> int \<Rightarrow> bool"
  float_gt :: "string \<Rightarrow> int \<Rightarrow> bool"
  str_other :: "pyval \<Rightarrow> string"

function show_nat :: "nat \<Rightarrow> string" where
  "show_nat n =
     (if n < 10 then [char_of (48 + n)] else show_nat (n div 10) @ [char_of (48 + n mod 10)])"
  by pat_completeness auto
termination
  by (relation "measure id") auto

declare show_nat.simps [simp del]

definition show_int :: "int \<Rightarrow> string" where
  "show_int n = (if n < 0 then CHR ''-'' # show_nat (nat (- n)) else show_nat (nat n))"

text \<open>\<open>str(v)\<close>\<close>

definition py_str :: "env \<Rightarrow> pyval \<Rightarrow> string" where
  "py_str env v = (case v of
       VStr s \<Rightarrow> s
     | VInt n \<Rightarrow> show_int n
     | VBool b \<Rightarrow> (if b then ''True'' else ''False'')
     | VNone \<Rightarrow> ''None''
     | _ \<Rightarrow> str_other env v)"

text \<open>The truth value of \<open>v\<close> in \<open>if v:\<close>\<close>

definition py_truthy :: "env \<Rightarrow> pyval \<Rightarrow> bool" where
  "py_truthy env v = (case v of
       VNone \<Rightarrow> False
     | VBool b \<Rightarrow> b
     | VInt n \<Rightarrow> n \<noteq> 0
     | VFloat l \<Rightarrow> \<not> float_eq env l 0
     | VStr s \<Rightarrow> s \<noteq> []
     | VList vs \<Rightarrow> vs \<noteq> [])"

text \<open>\<open>v == True\<close> and \<open>v == False\<close>: a number equal to 1 or 0 compares equal.\<close>

definition eq_bool :: "env \<Rightarrow> pyval \<Rightarrow> bool \<Rightarrow> bool" where
  "eq_bool env v b = (case v of
       VBool c \<Rightarrow> c = b
     | VInt n \<Rightarrow> n = (if b then 1 else 0)
     | VFloat l \<Rightarrow> float_eq env l (if b then 1 else 0)
     | _ \<Rightarrow> False)"

text \<open>\<open>v > 1\<close>: a \<open>TypeError\<close> when \<open>v\<close> is not a number.\<close>

definition gt_one :: "env \<Rightarrow> pyval \<Rightarrow> exc + bool" where
  "gt_one env v = (case v of
       VBool c \<Rightarrow> Inr False
     | VInt n \<Rightarrow> Inr (n > 1)
     | VFloat l \<Rightarrow> Inr (float_gt env l 1)
     | _ \<Rightarrow> Inl TypeError)"

section \<open>The state of a run\<close>

text \<open>
  The variables of \<open>main\<close> that live across stages: \<open>global_params\<close>, \<open>params\<close>
  (rebuilt at each stage, read after it) and \<open>previous_outFolder\<close>; \<open>out\<close> collects
  what was printed and which collaborators were invoked, in order.
\<close>

record mstate =
  gparams :: "string \<rightharpoonup> pyval"
  params :: "string \<rightharpoonup> pyval"
  previous_outFolder :: pyval
  out :: "event list"

text \<open>How a run ends: normally, by \<open>sys.exit\<close> (with its code), or by an exception
  that nothing catches.\<close>

datatype status = Finished | SysExit nat | Uncaught exc

datatype res = Stop status mstate | Cont mstate

text \<open>Statements in sequence: the first one that stops the run ends the sequence.\<close>

fun seq :: "(mstate \<Rightarrow> res) list \<Rightarrow> mstate \<Rightarrow> res" where
  "seq [] s = Cont s"
| "seq (f # fs) s = (case f s of Stop st s' \<Rightarrow> Stop st s' | Cont s' \<Rightarrow> seq fs s')"

definition emit :: "event \<Rightarrow> mstate \<Rightarrow> mstate" where
  "emit e s = s\<lparr>out := out s @ [e]\<rparr>"

definition setp :: "string \<Rightarrow> pyval \<Rightarrow> mstate \<Rightarrow> mstate" where
  "setp k v s = s\<lparr>params := (params s)(k \<mapsto> v)\<rparr>"

definition setg :: "string \<Rightarrow> pyval \<Rightarrow> mstate \<Rightarrow> mstate" where
  "setg k v s = s\<lparr>gparams := (gparams s)(k \<mapsto> v)\<rparr>"

definition red :: "string \<Rightarrow> string" where
  "red m = CHR 0x1B # ''[31m'' @ m @ CHR 0x1B # ''[0m''"

definition bold :: "string \<Rightarrow> string" where
  "bold m = CHR 0x1B # ''[1m'' @ m @ CHR 0x1B # ''[0m''"

definition PREVIOUS :: string where
  "PREVIOUS = ''PREVIOUS_BLOCK_OUTPUT_FOLDER''"

definition no_input_msg :: string where
  "no_input_msg = ''ERROR! No input folder specified''"

definition no_output_msg :: string where
  "no_output_msg = ''ERROR! No out folder specified''"

definition dot_msg :: string where
  "dot_msg = red (''ERROR! If inputFolder is set to '' @ [CHR 0x27, CHR ''.'', CHR 0x27] @
     '' img2radiomics needs to be use with -i option to select the input path'')"

subsection \<open>The statements that resolve a stage's parameters\<close>

text \<open>\<open>if not k in params.keys(): params[k] = v\<close>\<close>

definition dflt :: "string \<Rightarrow> pyval \<Rightarrow> mstate \<Rightarrow> res" where
  "dflt k v s =
     Cont (s\<lparr>params := (params s)(k \<mapsto> (case params s k of None \<Rightarrow> v | Some w \<Rightarrow> w))\<rparr>)"

text \<open>\<open>print(msg); sys.exit(code)\<close>\<close>

definition fatal :: "string \<Rightarrow> nat \<Rightarrow> mstate \<Rightarrow> res" where
  "fatal msg c s = Stop (SysExit c) (emit (Print msg) s)"

definition assign :: "string \<Rightarrow> pyval \<Rightarrow> mstate \<Rightarrow> res" where
  "assign k v s = Cont (setp k v s)"

text \<open>\<open>if not k in params.keys(): print(msg); sys.exit(code)\<close>\<close>

definition require :: "string \<Rightarrow> string \<Rightarrow> nat \<Rightarrow> mstate \<Rightarrow> res" where
  "require k msg c s = (case params s k of None \<Rightarrow> fatal msg c s | Some w \<Rightarrow> Cont s)"

text \<open>
  \<open>if params['inputFolder'] == '.':\<close> take the path of the command line when there is
  one, print an error otherwise.
\<close>

definition dot :: "env \<Rightarrow> mstate \<Rightarrow> res" where
  "dot env s = (case params s ''inputFolder'' of
       None \<Rightarrow> Stop (Uncaught (KeyError ''inputFolder'')) s
     | Some v \<Rightarrow>
         if v = VStr ''.'' then
           (if inputPath env \<noteq> [] then Cont (setp ''inputFolder'' (VStr (inputPath env)) s)
            else Cont (emit (Print dot_msg) s))
         else Cont s)"

text \<open>\<open>if params[k] == 'PREVIOUS_BLOCK_OUTPUT_FOLDER': params[k] = previous_outFolder\<close>\<close>

definition prev :: "string \<Rightarrow> mstate \<Rightarrow> res" where
  "prev k s = (case params s k of
       None \<Rightarrow> Stop (Uncaught (KeyError k)) s
     | Some v \<Rightarrow> if v = VStr PREVIOUS then Cont (setp k (previous_outFolder s) s) else Cont s)"

text \<open>
  \<open>if not 'outputFolder' in params.keys():\<close> derive it from \<open>outputFolderSuffix\<close> when
  that is given, else do what the stage does (\<open>otherwise\<close>). \<open>rstrip\<close> exists on strings
  only.
\<close>

definition derive_out :: "env \<Rightarrow> (mstate \<Rightarrow> res) \<Rightarrow> mstate \<Rightarrow> res" where
  "derive_out env otherwise s = (case params s ''outputFolder'' of
       Some w \<Rightarrow> Cont s
     | None \<Rightarrow>
        (case params s ''outputFolderSuffix'' of
           None \<Rightarrow> otherwise s
         | Some suf \<Rightarrow>
            (case params s ''inputFolder'' of
               None \<Rightarrow> Stop (Uncaught (KeyError ''inputFolder'')) s
             | Some v \<Rightarrow>
                (case v of
                   VStr f \<Rightarrow> Cont (setp ''outputFolder''
                      (VStr (rstrip (\<lambda>c. c = CHR ''/'') f @ ''_'' @ py_str env suf)) s)
                 | _ \<Rightarrow> Stop (Uncaught AttributeError) s))))"

text \<open>The listing printed under \<open>-v\<close> before a stage is dispatched.\<close>

definition show_params :: "env \<Rightarrow> mstate \<Rightarrow> res" where
  "show_params env s =
     (if verbose env then
        (case params s ''function'' of
           None \<Rightarrow> Stop (Uncaught (KeyError ''function'')) s
         | Some f \<Rightarrow> Cont (emit PrintParams (emit (Print (bold (CHR 0x0A # py_str env f))) s)))
      else Cont s)"

subsection \<open>Building the flags of a collaborator\<close>

type_synonym flag = "env \<Rightarrow> (string \<rightharpoonup> pyval) \<Rightarrow> exc + string list"

text \<open>\<open>[f, str(params[k])]\<close>\<close>

definition opt :: "string \<Rightarrow> string \<Rightarrow> flag" where
  "opt f k env p = (case p k of None \<Rightarrow> Inl (KeyError k) | Some v \<Rightarrow> Inr [f, py_str env v])"

text \<open>\<open>if params[k]: flags.append(f)\<close>\<close>

definition sw :: "string \<Rightarrow> string \<Rightarrow> flag" where
  "sw f k env p = (case p k of
       None \<Rightarrow> Inl (KeyError k)
     | Some v \<Rightarrow> Inr (if py_truthy env v then [f] else []))"

text \<open>\<open>if not params[k]: flags.append(f)\<close>\<close>

definition sw_not :: "string \<Rightarrow> string \<Rightarrow> flag" where
  "sw_not f k env p = (case p k of
       None \<Rightarrow> Inl (KeyError k)
     | Some v \<Rightarrow> Inr (if py_truthy env v then [] else [f]))"

text \<open>\<open>if params[k1] and params[k2]: flags.append(f)\<close>\<close>

definition sw_and :: "string \<Rightarrow> string \<Rightarrow> string \<Rightarrow> flag" where
  "sw_and f k1 k2 env p = (case p k1 of
       None \<Rightarrow> Inl (KeyError k1)
     | Some v1 \<Rightarrow>
         if py_truthy env v1 then
           (case p k2 of
              None \<Rightarrow> Inl (KeyError k2)
            | Some v2 \<Rightarrow> Inr (if py_truthy env v2 then [f] else []))
         else Inr [])"

text \<open>\<open>if params[k] != '': flags.extend([f, str(params[k])])\<close>\<close>

definition opt_given :: "string \<Rightarrow> string \<Rightarrow> flag" where
  "opt_given f k env p = (case p k of
       None \<Rightarrow> Inl (KeyError k)
     | Some v \<Rightarrow> Inr (if v \<noteq> VStr [] then [f, py_str env v] else []))"

text \<open>\<open>if k in params.keys(): flags.extend(...)\<close>\<close>

definition if_key :: "string \<Rightarrow> flag list \<Rightarrow> flag" where
  "if_key k fs env p =
     (if k \<in> dom p then
        (case collect (map (\<lambda>f. f env p) fs) of Inl e \<Rightarrow> Inl e | Inr xs \<Rightarrow> Inr (concat xs))
      else Inr [])"

text \<open>The flag list, built from left to right.\<close>

definition flags :: "flag list \<Rightarrow> flag" where
  "flags fs env p =
     (case collect (map (\<lambda>f. f env p) fs) of Inl e \<Rightarrow> Inl e | Inr xs \<Rightarrow> Inr (concat xs))"


subsection \<open>Invoking a collaborator\<close>

text \<open>
  \<open>if params['timer']: ... print(f"{params['function']} - Timer: ...")\<close> after the
  collaborator has returned; \<open>None\<close> when the lookup of \<open>function\<close> raises.
\<close>

definition timed :: "env \<Rightarrow> pyval \<Rightarrow> mstate \<Rightarrow> mstate option" where
  "timed env t s =
     (if py_truthy env t then
        (case params s ''function'' of
           None \<Rightarrow> None
         | Some f \<Rightarrow> Some (emit (PrintTimer (py_str env f)) s))
      else Some s)"

text \<open>
  The \<open>try\<close> block around \<open>subprocess.run(prog)\<close>: whatever is raised inside it is caught
  by the bare \<open>except\<close>, which prints the error message; the run goes on.
\<close>

definition try_run :: "env \<Rightarrow> string \<Rightarrow> string list \<Rightarrow> mstate \<Rightarrow> mstate" where
  "try_run env errmsg prog s = (case params s ''timer'' of
       None \<Rightarrow> emit (Print errmsg) s
     | Some t \<Rightarrow>
        (case subprocess env (out s) prog of
           None \<Rightarrow> emit (Print errmsg) (emit (Call prog) s)
         | Some r \<Rightarrow>
            (case timed env t (emit (Call prog) s) of
               None \<Rightarrow> emit (Print errmsg) (emit (Call prog) s)
             | Some s' \<Rightarrow> s')))"

definition running_msg :: "string \<Rightarrow> string" where
  "running_msg script = red (''ERROR running the script '' @ script)"

text \<open>The flags are built before the \<open>try\<close>: a missing key there is not caught.\<close>

definition launch :: "env \<Rightarrow> string \<Rightarrow> flag \<Rightarrow> string \<Rightarrow> mstate \<Rightarrow> res" where
  "launch env script fl errmsg s = (case fl env (params s) of
       Inl e \<Rightarrow> Stop (Uncaught e) s
     | Inr a \<Rightarrow> Cont (try_run env errmsg (''python'' # script # a) s))"

section \<open>The stages\<close>

definition no_reference_msg :: string where
  "no_reference_msg = ''ERROR! I-HARMONIZE requires a reference image to perform harmonization''"

definition no_folder_msg :: string where
  "no_folder_msg = ''ERROR! No folder to delete''"

definition no_masks_msg :: string where
  "no_masks_msg =
     ''ERROR! To determine the masks to add and substract the options add and sub OR reg need to be used''"

definition no_configs_msg :: string where
  "no_configs_msg = ''ERROR! Neither '' @ [CHR 0x22] @ ''configs'' @ [CHR 0x22] @ '' nor '' @
     [CHR 0x22] @ ''pyradiomics_config'' @ [CHR 0x22] @ '' is specified.''"

definition save_warning :: string where
  "save_warning = CHR 0x1B # ''[33m'' @
     ''WARNING: With multiprocessing option, radiomics results cannot be saved at the end. Save at the end was set to False''
     @ CHR 0x1B # ''[0m''"

text \<open>\<open>sys.float_info.min\<close> and \<open>sys.float_info.max\<close>, as the literals that denote them.\<close>

definition float_info_min :: pyval where
  "float_info_min = VFloat ''2.2250738585072014e-308''"

definition float_info_max :: pyval where
  "float_info_max = VFloat ''1.7976931348623157e+308''"

text \<open>\<open>MERGE_MASKS\<close>: \<open>if not('reg' in params.keys()) ^ ('add' in params.keys()):\<close>, where
  \<open>^\<close> binds tighter than \<open>not\<close>.\<close>

definition reg_xor_add :: "mstate \<Rightarrow> res" where
  "reg_xor_add s =
     (if \<not> ((''reg'' \<in> dom (params s)) \<noteq> (''add'' \<in> dom (params s)))
      then fatal (red no_masks_msg) 0 s else Cont s)"

definition sub_for_add :: "mstate \<Rightarrow> res" where
  "sub_for_add s =
     (if ''add'' \<in> dom (params s) \<and> ''sub'' \<notin> dom (params s)
      then Cont (setp ''sub'' (VStr []) s) else Cont s)"

text \<open>\<open>RADIOMICS\<close>: one of \<open>configs\<close> and \<open>pyradiomics_config\<close> is required, the other
  defaults to the empty string.\<close>

definition configs_given :: "mstate \<Rightarrow> res" where
  "configs_given s =
     (if ''configs'' \<notin> dom (params s) \<and> ''pyradiomics_config'' \<notin> dom (params s)
      then fatal (red no_configs_msg) 0 s
      else seq [dflt ''configs'' (VStr []), dflt ''pyradiomics_config'' (VStr [])] s)"

text \<open>\<open>if params['save_at_the_end']==True and params['multiprocessing'] > 1:\<close>\<close>

definition save_at_the_end_check :: "env \<Rightarrow> mstate \<Rightarrow> res" where
  "save_at_the_end_check env s = (case params s ''save_at_the_end'' of
       None \<Rightarrow> Stop (Uncaught (KeyError ''save_at_the_end'')) s
     | Some sv \<Rightarrow>
         if eq_bool env sv True then
           (case params s ''multiprocessing'' of
              None \<Rightarrow> Stop (Uncaught (KeyError ''multiprocessing'')) s
            | Some m \<Rightarrow>
               (case gt_one env m of
                  Inl e \<Rightarrow> Stop (Uncaught e) s
                | Inr b \<Rightarrow>
                    if b then Cont (emit (Print save_warning) (setp ''save_at_the_end'' (VBool False) s))
                    else Cont s))
         else Cont s)"

text \<open>\<open>SEGMENTATION\<close>: the default of \<open>image_filename\<close> depends on \<open>image_type\<close>.\<close>

definition image_filename_for_type :: "mstate \<Rightarrow> res" where
  "image_filename_for_type s = (case params s ''image_filename'' of
       Some w \<Rightarrow> Cont s
     | None \<Rightarrow>
        (case params s ''image_type'' of
           None \<Rightarrow> Stop (Uncaught (KeyError ''image_type'')) s
         | Some ty \<Rightarrow>
             if ty \<in> {VStr ''NIFTI'', VStr ''Nifti'', VStr ''nifti''}
             then Cont (setp ''image_filename'' (VStr []) s)
             else Cont (setp ''image_filename'' (VStr ''DCM'') s)))"

subsection \<open>\<open>CHECK_FOLDER\<close>\<close>

definition resolve_CHECK_FOLDER :: "env \<Rightarrow> (mstate \<Rightarrow> res) list" where
  "resolve_CHECK_FOLDER env =
     [dflt ''timer'' (VBool False),
      dflt ''log'' (VStr []),
      dflt ''verbose'' (VBool False),
      dflt ''new_log_file'' (VBool False),
      dflt ''with-segmentation'' (VBool True),
      require ''inputFolder'' (red no_input_msg) 0,
      dot env]"

definition flags_CHECK_FOLDER :: flag where
  "flags_CHECK_FOLDER = flags
     [opt ''-i'' ''inputFolder'',
      opt ''--log'' ''log'',
      sw ''-v'' ''verbose'',
      sw ''--new_log'' ''new_log_file'',
      sw_not ''--no-segmentation'' ''with-segmentation'']"

definition structure_ready_marker :: string where
  "structure_ready_marker = ''Folder is correctly structured for the image processing pipeline''"

definition structure_reorganize_marker :: string where
  "structure_reorganize_marker =
     ''Folder is correctly structured to be restructed with reorganize.py''"

text \<open>\<open>if verbose: print("FOLDER STRUCTURE:", global_params['Structure'])\<close>\<close>

definition structure_shown :: "env \<Rightarrow> mstate \<Rightarrow> mstate" where
  "structure_shown env s =
     (if verbose env then
        (case gparams s ''Structure'' of
           None \<Rightarrow> s
         | Some v \<Rightarrow> emit (Print (bold ''FOLDER STRUCTURE:'' @ '' '' @ py_str env v)) s)
      else s)"

text \<open>
  The \<open>try\<close> block of \<open>CHECK_FOLDER\<close>. The output of the probe decides the \<open>Structure\<close>
  status; in the last branch \<open>sys.exit()\<close> raises \<open>SystemExit\<close> inside the \<open>try\<close>, and the
  bare \<open>except\<close> catches it like any other exception.
\<close>

definition check_folder_try :: "env \<Rightarrow> string list \<Rightarrow> mstate \<Rightarrow> mstate" where
  "check_folder_try env prog s =
     (let errmsg = running_msg ''StructFolderCheck.py'' in
      case params s ''timer'' of
        None \<Rightarrow> emit (Print errmsg) s
      | Some t \<Rightarrow>
         (case subprocess env (out s) prog of
            None \<Rightarrow> emit (Print errmsg) (emit (Call prog) s)
          | Some result \<Rightarrow>
             (case timed env t (emit (Call prog) s) of
                None \<Rightarrow> emit (Print errmsg) (emit (Call prog) s)
              | Some s1 \<Rightarrow>
                  if contains structure_ready_marker result
                  then structure_shown env (setg ''Structure'' (VStr ''Ready'') s1)
                  else if contains structure_reorganize_marker result
                  then structure_shown env (setg ''Structure'' (VStr ''Ready_to_reorganize'') s1)
                  else emit (Print errmsg) (setg ''Structure'' (VStr ''Invalid'') s1))))"

definition check_folder_launch :: "env \<Rightarrow> mstate \<Rightarrow> res" where
  "check_folder_launch env s = (case flags_CHECK_FOLDER env (params s) of
       Inl e \<Rightarrow> Stop (Uncaught e) s
     | Inr a \<Rightarrow> Cont (check_folder_try env (''python'' # ''src/StructFolderCheck.py'' # a) s))"

definition stage_CHECK_FOLDER :: "env \<Rightarrow> mstate \<Rightarrow> res" where
  "stage_CHECK_FOLDER env =
     seq (resolve_CHECK_FOLDER env @ [show_params env, check_folder_launch env])"

subsection \<open>\<open>REORGANIZE\<close>\<close>

definition resolve_REORGANIZE :: "env \<Rightarrow> (mstate \<Rightarrow> res) list" where
  "resolve_REORGANIZE env =
     [dflt ''timer'' (VBool False),
      dflt ''with-segmentation'' (VBool True),
      dflt ''all-data-with-segmentation'' (VBool True),
      dflt ''verbose'' (VBool False),
      dflt ''new_log_file'' (VBool False),
      require ''inputFolder'' (red no_input_msg) 0,
      dot env,
      derive_out env (assign ''outputFolder'' (VStr [])),
      prev ''inputFolder'',
      dflt ''inplace'' (VBool False),
      dflt ''log'' (VStr []),
      dflt ''skip'' (VStr []),
      dflt ''include'' (VStr []),
      dflt ''multiprocessing'' (VInt 1),
      dflt ''mv'' (VStr ''False'')]"

definition flags_REORGANIZE :: flag where
  "flags_REORGANIZE = flags
     [opt ''-i'' ''inputFolder'',
      opt ''-o'' ''outputFolder'',
      opt ''--log'' ''log'',
      sw ''-v'' ''verbose'',
      sw ''--new_log'' ''new_log_file'',
      sw_not ''--no-segmentation'' ''with-segmentation'',
      sw_and ''--all-segmentation'' ''all-data-with-segmentation'' ''with-segmentation'',
      sw ''--inplace'' ''inplace'',
      opt_given ''-S'' ''skip'',
      opt_given ''--include'' ''include'',
      opt ''-j'' ''multiprocessing'']"

definition flags_no_reorganize :: flag where
  "flags_no_reorganize = flags
     [opt ''-i'' ''inputFolder'',
      opt ''-o'' ''outputFolder'',
      opt ''--log'' ''log'',
      sw ''--mv'' ''mv'',
      sw ''-v'' ''verbose'',
      sw ''--new_log'' ''new_log_file'']"

definition structure_msg :: string where
  "structure_msg = ''global_params['' @ [CHR 0x27] @ ''Structure'' @ [CHR 0x27] @ '']:: ''"

text \<open>\<open>if not 'Structure' in global_params.keys(): global_params['Structure'] = "Unknow"\<close>\<close>

definition structure_default :: "mstate \<Rightarrow> mstate" where
  "structure_default s = (case gparams s ''Structure'' of
       None \<Rightarrow> setg ''Structure'' (VStr ''Unknow'') s
     | Some v \<Rightarrow> s)"

text \<open>
  The three-way branch on the \<open>Structure\<close> status: \<open>Invalid\<close> ends the run, \<open>Ready\<close>
  renames through \<open>no_reorganize.py\<close> unless \<open>inplace\<close>, anything else reorganizes.
\<close>

definition reorganize_branch :: "env \<Rightarrow> pyval \<Rightarrow> mstate \<Rightarrow> res" where
  "reorganize_branch env st s =
     (if st = VStr ''Invalid'' then fatal ''ERROR! Current folder cannot be reorganize'' 0 s
      else if st = VStr ''Ready'' then
        (let s1 = emit (Print ''Current folder is already ready for processing'') s in
         case params s1 ''inplace'' of
           None \<Rightarrow> Stop (Uncaught (KeyError ''inplace'')) s1
         | Some ip \<Rightarrow>
             if eq_bool env ip False
             then launch env ''src/no_reorganize.py'' flags_no_reorganize
                    (running_msg ''no_reorganize.py'') s1
             else Cont s1)
      else launch env ''src/reorganize_multiprocessing.py'' flags_REORGANIZE
             (running_msg ''reorganize.py'') s)"

definition reorganize_dispatch :: "env \<Rightarrow> mstate \<Rightarrow> res" where
  "reorganize_dispatch env s =
     (let s1 = structure_default s in
      case gparams s1 ''Structure'' of
        None \<Rightarrow> Stop (Uncaught (KeyError ''Structure'')) s1
      | Some st \<Rightarrow>
          reorganize_branch env st (emit (Print (structure_msg @ '' '' @ py_str env st)) s1))"

definition stage_REORGANIZE :: "env \<Rightarrow> mstate \<Rightarrow> res" where
  "stage_REORGANIZE env =
     seq (resolve_REORGANIZE env @ [show_params env, reorganize_dispatch env])"

subsection \<open>\<open>DCM2NII\<close>\<close>

definition resolve_DCM2NII :: "env \<Rightarrow> (mstate \<Rightarrow> res) list" where
  "resolve_DCM2NII env =
     [dflt ''timer'' (VBool False),
      dflt ''with-segmentation'' (VBool True),
      dflt ''all-data-with-segmentation'' (VBool True),
      dflt ''verbose'' (VBool False),
      dflt ''new_log_file'' (VBool False),
      require ''inputFolder'' (red no_input_msg) 0,
      dot env,
      prev ''inputFolder'',
      derive_out env (fatal (red no_output_msg) 0),
      dflt ''mask_regMatch'' (VStr ''.*''),
      dflt ''log'' (VStr []),
      dflt ''multiprocessing'' (VInt 1),
      dflt ''skip'' (VStr []),
      dflt ''include'' (VStr [])]"

definition flags_DCM2NII :: flag where
  "flags_DCM2NII = flags
     [opt ''-i'' ''inputFolder'',
      opt ''-o'' ''outputFolder'',
      opt ''--log'' ''log'',
      opt ''-j'' ''multiprocessing'',
      opt ''-m'' ''mask_regMatch'',
      sw ''-v'' ''verbose'',
      sw ''--new_log'' ''new_log_file'',
      sw_not ''--no-segmentation'' ''with-segmentation'',
      sw_and ''--all-segmentation'' ''all-data-with-segmentation'' ''with-segmentation'',
      opt_given ''-S'' ''skip'',
      opt_given ''--include'' ''include'']"

definition stage_DCM2NII :: "env \<Rightarrow> mstate \<Rightarrow> res" where
  "stage_DCM2NII env =
     seq (resolve_DCM2NII env @ [show_params env,
       launch env ''src/dcm2nii_multiprocessing.py'' flags_DCM2NII (running_msg ''dcm2nii_multiprocessing.py'')])"

subsection \<open>\<open>SPATIAL_RESAMPLING\<close>\<close>

definition resolve_SPATIAL_RESAMPLING :: "env \<Rightarrow> (mstate \<Rightarrow> res) list" where
  "resolve_SPATIAL_RESAMPLING env =
     [dflt ''timer'' (VBool False),
      dflt ''with-segmentation'' (VBool True),
      dflt ''all-data-with-segmentation'' (VBool True),
      dflt ''verbose'' (VBool False),
      dflt ''new_log_file'' (VBool False),
      dflt ''use_c3d'' (VBool False),
      require ''inputFolder'' (red no_input_msg) 0,
      dot env,
      prev ''inputFolder'',
      derive_out env (fatal (red no_output_msg) 0),
      dflt ''voxel_size'' (VInt 1),
      dflt ''image_interpolation'' (VStr ''Linear''),
      dflt ''mask_interpolation'' (VStr ''NearestNeighbor''),
      dflt ''suffix_name'' (VStr ''111''),
      dflt ''skip'' (VStr []),
      dflt ''include'' (VStr []),
      dflt ''multiprocessing'' (VInt 1),
      dflt ''log'' (VStr [])]"

definition flags_SPATIAL_RESAMPLING :: flag where
  "flags_SPATIAL_RESAMPLING = flags
     [opt ''-i'' ''inputFolder'',
      opt ''-o'' ''outputFolder'',
      opt ''--log'' ''log'',
      opt ''-j'' ''multiprocessing'',
      opt ''-I'' ''image_interpolation'',
      opt ''-M'' ''mask_interpolation'',
      opt ''-M'' ''mask_interpolation'',
      opt ''-s'' ''voxel_size'',
      opt ''-e'' ''suffix_name'',
      sw ''-v'' ''verbose'',
      sw ''--new_log'' ''new_log_file'',
      sw ''--use_c3d'' ''use_c3d'',
      sw_not ''--no-segmentation'' ''with-segmentation'',
      sw_and ''--all-segmentation'' ''all-data-with-segmentation'' ''with-segmentation'',
      opt_given ''-S'' ''skip'',
      opt_given ''--include'' ''include'']"

definition stage_SPATIAL_RESAMPLING :: "env \<Rightarrow> mstate \<Rightarrow> res" where
  "stage_SPATIAL_RESAMPLING env =
     seq (resolve_SPATIAL_RESAMPLING env @ [show_params env,
       launch env ''src/NiftiSpatialResampling_multiprocessing.py'' flags_SPATIAL_RESAMPLING (running_msg ''NiftiSpatialResampling_multiprocessing.py'')])"

subsection \<open>\<open>INTENSITY_RESAMPLING\<close>\<close>

definition resolve_INTENSITY_RESAMPLING :: "env \<Rightarrow> (mstate \<Rightarrow> res) list" where
  "resolve_INTENSITY_RESAMPLING env =
     [dflt ''timer'' (VBool False),
      dflt ''verbose'' (VBool False),
      dflt ''new_log_file'' (VBool False),
      require ''inputFolder'' (red no_input_msg) 0,
      dot env,
      prev ''inputFolder'',
      derive_out env (assign ''outputFolder'' (VStr [])),
      dflt ''image_filename'' (VStr ''img.nii.gz''),
      dflt ''mask_filename'' (VStr []),
      dflt ''resampled_image_filename'' (VStr ''img_r.nii.gz''),
      dflt ''suffix_name'' (VStr []),
      dflt ''method'' (VStr ''binning_number''),
      dflt ''n_bins'' (VInt 256),
      dflt ''bin_width'' (VInt 25),
      dflt ''min_scaling'' (VInt 0),
      dflt ''max_scaling'' (VInt 1),
      dflt ''lower_bound'' (VInt 2),
      dflt ''upper_bound'' (VInt 98),
      dflt ''suffix_name'' (VStr []),
      dflt ''skip'' (VStr []),
      dflt ''include'' (VStr []),
      dflt ''multiprocessing'' (VInt 1),
      dflt ''log'' (VStr [])]"

definition flags_INTENSITY_RESAMPLING :: flag where
  "flags_INTENSITY_RESAMPLING = flags
     [opt ''-i'' ''inputFolder'',
      opt ''-o'' ''outputFolder'',
      opt ''--log'' ''log'',
      opt ''-j'' ''multiprocessing'',
      opt ''--img_name'' ''image_filename'',
      opt ''--msk_name'' ''mask_filename'',
      opt ''--resampled_img_name'' ''resampled_image_filename'',
      opt ''-e'' ''suffix_name'',
      opt ''--method'' ''method'',
      opt ''--n_bins'' ''n_bins'',
      opt ''--bin_width'' ''bin_width'',
      opt ''--scale_min'' ''min_scaling'',
      opt ''--scale_max'' ''max_scaling'',
      opt ''--lower_bound'' ''lower_bound'',
      opt ''--upper_bound'' ''upper_bound'',
      sw ''-v'' ''verbose'',
      sw ''--new_log'' ''new_log_file'',
      opt_given ''-S'' ''skip'',
      opt_given ''--include'' ''include'']"

definition stage_INTENSITY_RESAMPLING :: "env \<Rightarrow> mstate \<Rightarrow> res" where
  "stage_INTENSITY_RESAMPLING env =
     seq (resolve_INTENSITY_RESAMPLING env @ [show_params env,
       launch env ''src/NiftiIntensityResampling_multiprocessing.py'' flags_INTENSITY_RESAMPLING (running_msg ''NiftiSpatialResampling_multiprocessing.py'')])"

subsection \<open>\<open>MERGE_MASKS\<close>\<close>

definition resolve_MERGE_MASKS :: "env \<Rightarrow> (mstate \<Rightarrow> res) list" where
  "resolve_MERGE_MASKS env =
     [dflt ''timer'' (VBool False),
      dflt ''verbose'' (VBool False),
      dflt ''new_log_file'' (VBool False),
      require ''inputFolder'' (red no_input_msg) 0,
      dot env,
      derive_out env (assign ''outputFolder'' (VStr [])),
      prev ''inputFolder'',
      dflt ''image_filename'' (VStr ''img.nii.gz''),
      dflt ''resampled_image_filename'' (VStr ''r_img.nii.gz''),
      dflt ''mask_filename'' (VStr []),
      dflt ''multiprocessing'' (VInt 1),
      dflt ''log'' (VStr []),
      reg_xor_add,
      sub_for_add,
      dflt ''skip'' (VStr []),
      dflt ''include'' (VStr [])]"

definition flags_MERGE_MASKS :: flag where
  "flags_MERGE_MASKS = flags
     [opt ''-i'' ''inputFolder'',
      opt ''-o'' ''outputFolder'',
      opt ''--log'' ''log'',
      opt ''-j'' ''multiprocessing'',
      opt ''-m'' ''mask_name'',
      if_key ''add'' [opt ''--add'' ''add'', opt ''--sub'' ''sub''],
      if_key ''reg'' [opt ''--reg'' ''reg''],
      sw ''-v'' ''verbose'',
      sw ''--new_log'' ''new_log_file'',
      opt_given ''-S'' ''skip'',
      opt_given ''--include'' ''include'']"

definition stage_MERGE_MASKS :: "env \<Rightarrow> mstate \<Rightarrow> res" where
  "stage_MERGE_MASKS env =
     seq (resolve_MERGE_MASKS env @ [show_params env,
       launch env ''src/NiftiMergeVolumes_multiprocessing.py'' flags_MERGE_MASKS (running_msg ''NiftiResampling_multiprocessing.py'')])"

subsection \<open>\<open>MASK_THRESHOLDING\<close>\<close>

definition resolve_MASK_THRESHOLDING :: "env \<Rightarrow> (mstate \<Rightarrow> res) list" where
  "resolve_MASK_THRESHOLDING env =
     [dflt ''timer'' (VBool False),
      dflt ''verbose'' (VBool False),
      dflt ''new_log_file'' (VBool False),
      require ''inputFolder'' no_input_msg 0,
      dot env,
      derive_out env (assign ''outputFolder'' (VStr [])),
      prev ''inputFolder'',
      dflt ''image_filename'' (VStr ''img.nii.gz''),
      dflt ''mask_filename'' (VStr ''msk.nii.gz''),
      dflt ''multiprocessing'' (VInt 1),
      dflt ''log'' (VStr []),
      dflt ''skip'' (VStr []),
      dflt ''include'' (VStr []),
      dflt ''suffix_name'' (VStr ''mask_thresholding''),
      dflt ''min_threshold'' (float_info_min),
      dflt ''max_threshold'' (float_info_max)]"

definition flags_MASK_THRESHOLDING :: flag where
  "flags_MASK_THRESHOLDING = flags
     [opt ''-i'' ''inputFolder'',
      opt ''-o'' ''outputFolder'',
      opt ''--log'' ''log'',
      opt ''-j'' ''multiprocessing'',
      opt ''-M'' ''mask_filename'',
      opt ''-I'' ''image_filename'',
      opt ''--min_thr'' ''min_threshold'',
      opt ''--max_thr'' ''max_threshold'',
      opt ''-e'' ''suffix_name'',
      sw ''-v'' ''verbose'',
      sw ''--new_log'' ''new_log_file'',
      opt_given ''-S'' ''skip'',
      opt_given ''--include'' ''include'']"

definition stage_MASK_THRESHOLDING :: "env \<Rightarrow> mstate \<Rightarrow> res" where
  "stage_MASK_THRESHOLDING env =
     seq (resolve_MASK_THRESHOLDING env @ [show_params env,
       launch env ''src/NiftiMaskThresholding_multiprocessing.py'' flags_MASK_THRESHOLDING (running_msg ''NiftiMaskThresholding_multiprocessing.py'')])"

subsection \<open>\<open>I-WINDOWING\<close>\<close>

definition resolve_I_WINDOWING :: "env \<Rightarrow> (mstate \<Rightarrow> res) list" where
  "resolve_I_WINDOWING env =
     [dflt ''timer'' (VBool False),
      dflt ''verbose'' (VBool False),
      dflt ''new_log_file'' (VBool False),
      require ''inputFolder'' (red no_input_msg) 0,
      dot env,
      derive_out env (assign ''outputFolder'' (VStr [])),
      prev ''inputFolder'',
      dflt ''image_filename'' (VStr ''img.nii.gz''),
      dflt ''windowed_image_filename'' (VStr ''img_w.nii.gz''),
      dflt ''window_name'' (VStr []),
      dflt ''suffix_name'' (VStr []),
      dflt ''window_level'' (VInt (- 5000)),
      dflt ''window_width'' (VInt (- 5000)),
      dflt ''multiprocessing'' (VInt 1),
      dflt ''log'' (VStr []),
      dflt ''skip'' (VStr []),
      dflt ''include'' (VStr [])]"

definition flags_I_WINDOWING :: flag where
  "flags_I_WINDOWING = flags
     [opt ''-i'' ''inputFolder'',
      opt ''-o'' ''outputFolder'',
      opt ''--log'' ''log'',
      opt ''-j'' ''multiprocessing'',
      opt ''--img_name'' ''image_filename'',
      opt ''--windowed_img_name'' ''windowed_image_filename'',
      opt ''--WL'' ''window_level'',
      opt ''--WW'' ''window_width'',
      opt ''--preset'' ''window_name'',
      opt ''-e'' ''suffix_name'',
      sw ''-v'' ''verbose'',
      sw ''--new_log'' ''new_log_file'',
      opt_given ''-S'' ''skip'',
      opt_given ''--include'' ''include'']"

definition stage_I_WINDOWING :: "env \<Rightarrow> mstate \<Rightarrow> res" where
  "stage_I_WINDOWING env =
     seq (resolve_I_WINDOWING env @ [show_params env,
       launch env ''src/NiftiWindowing_multiprocessing.py'' flags_I_WINDOWING (running_msg ''NiftiWindowing_multiprocessing.py'')])"

subsection \<open>\<open>I-HARMONIZE\<close>\<close>

definition resolve_I_HARMONIZE :: "env \<Rightarrow> (mstate \<Rightarrow> res) list" where
  "resolve_I_HARMONIZE env =
     [dflt ''timer'' (VBool False),
      dflt ''verbose'' (VBool False),
      dflt ''new_log_file'' (VBool False),
      require ''inputFolder'' (red no_input_msg) 0,
      dot env,
      derive_out env (assign ''outputFolder'' (VStr [])),
      prev ''inputFolder'',
      dflt ''image_filename'' (VStr ''img.nii.gz''),
      dflt ''mask_filename'' (VStr []),
      require ''reference_image'' (red no_reference_msg) 1,
      dflt ''reference_mask'' (VStr []),
      dflt ''harmonized_image_filename'' (VStr ''h_img.nii.gz''),
      dflt ''method'' (VStr ''histogram_matching''),
      dflt ''n_bins'' (VInt 256),
      dflt ''n_matchPoints'' (VInt 10),
      dflt ''suffix_name'' (VStr []),
      dflt ''multiprocessing'' (VInt 1),
      dflt ''log'' (VStr []),
      dflt ''skip'' (VStr []),
      dflt ''include'' (VStr [])]"

definition flags_I_HARMONIZE :: flag where
  "flags_I_HARMONIZE = flags
     [opt ''-i'' ''inputFolder'',
      opt ''-o'' ''outputFolder'',
      opt ''--log'' ''log'',
      opt ''-j'' ''multiprocessing'',
      opt ''--img_name'' ''image_filename'',
      opt ''--msk_name'' ''mask_filename'',
      opt ''--ref_img'' ''reference_image'',
      opt ''--ref_msk'' ''reference_mask'',
      opt ''--harmonized_img_name'' ''harmonized_image_filename'',
      opt ''--method'' ''method'',
      opt ''--n_bins'' ''n_bins'',
      opt ''--n_matchPoints'' ''n_matchPoints'',
      opt ''-e'' ''suffix_name'',
      sw ''-v'' ''verbose'',
      sw ''--new_log'' ''new_log_file'',
      opt_given ''-S'' ''skip'',
      opt_given ''--include'' ''include'']"

definition stage_I_HARMONIZE :: "env \<Rightarrow> mstate \<Rightarrow> res" where
  "stage_I_HARMONIZE env =
     seq (resolve_I_HARMONIZE env @ [show_params env,
       launch env ''src/NiftiImageHarmonization_multiprocessing.py'' flags_I_HARMONIZE (running_msg ''NiftiImageHarmonization_multiprocessing.py'')])"

subsection \<open>\<open>N4-BIAS-FIELD-CORRECTION\<close>\<close>

definition resolve_N4_BIAS_FIELD_CORRECTION :: "env \<Rightarrow> (mstate \<Rightarrow> res) list" where
  "resolve_N4_BIAS_FIELD_CORRECTION env =
     [dflt ''timer'' (VBool False),
      dflt ''verbose'' (VBool False),
      dflt ''new_log_file'' (VBool False),
      require ''inputFolder'' (red no_input_msg) 0,
      dot env,
      derive_out env (assign ''outputFolder'' (VStr [])),
      prev ''inputFolder'',
      dflt ''image_filename'' (VStr ''img.nii.gz''),
      dflt ''mask_filename'' (VStr []),
      dflt ''corrected_image_filename'' (VStr ''img_n4biasCorr.nii.gz''),
      dflt ''bias_field_image_filename'' (VStr []),
      dflt ''suffix_name'' (VStr []),
      dflt ''multiprocessing'' (VInt 1),
      dflt ''log'' (VStr []),
      dflt ''skip'' (VStr []),
      dflt ''include'' (VStr [])]"

definition flags_N4_BIAS_FIELD_CORRECTION :: flag where
  "flags_N4_BIAS_FIELD_CORRECTION = flags
     [opt ''-i'' ''inputFolder'',
      opt ''-o'' ''outputFolder'',
      opt ''--log'' ''log'',
      opt ''-j'' ''multiprocessing'',
      opt ''--img_name'' ''image_filename'',
      opt ''--msk_name'' ''mask_filename'',
      opt ''--corrected_img_name'' ''corrected_image_filename'',
      opt ''--bias_field_name'' ''bias_field_image_filename'',
      opt ''-e'' ''suffix_name'',
      sw ''-v'' ''verbose'',
      sw ''--new_log'' ''new_log_file'',
      opt_given ''-S'' ''skip'',
      opt_given ''--include'' ''include'']"

definition stage_N4_BIAS_FIELD_CORRECTION :: "env \<Rightarrow> mstate \<Rightarrow> res" where
  "stage_N4_BIAS_FIELD_CORRECTION env =
     seq (resolve_N4_BIAS_FIELD_CORRECTION env @ [show_params env,
       launch env ''src/NiftiN4BiasFieldCorrection_multiprocessing.py'' flags_N4_BIAS_FIELD_CORRECTION (running_msg ''NiftiN4BiasFieldCorrection_multiprocessing.py'')])"

subsection \<open>\<open>RADIOMICS\<close>\<close>

definition resolve_RADIOMICS :: "env \<Rightarrow> (mstate \<Rightarrow> res) list" where
  "resolve_RADIOMICS env =
     [dflt ''timer'' (VBool False),
      dflt ''verbose'' (VBool False),
      dflt ''new_log_file'' (VBool False),
      dflt ''save_at_the_end'' (VBool False),
      dflt ''stats_filename'' (VStr []),
      require ''inputFolder'' no_input_msg 0,
      dot env,
      prev ''inputFolder'',
      configs_given,
      derive_out env (assign ''outputFolder'' (VStr ''~/'')),
      dflt ''image_filename'' (VStr ''img.nii.gz''),
      dflt ''mask_filename'' (VStr ''msk.nii.gz''),
      dflt ''radiomics_filename'' (VStr ''radiomics.xlsx''),
      dflt ''multiprocessing'' (VInt 1),
      dflt ''log'' (VStr []),
      dflt ''skip'' (VStr []),
      dflt ''include'' (VStr []),
      save_at_the_end_check env]"

definition flags_RADIOMICS :: flag where
  "flags_RADIOMICS = flags
     [opt ''-i'' ''inputFolder'',
      opt ''-o'' ''outputFolder'',
      opt ''--log'' ''log'',
      opt ''-j'' ''multiprocessing'',
      opt ''-I'' ''image_filename'',
      opt ''-M'' ''mask_filename'',
      opt ''-R'' ''radiomics_filename'',
      opt ''-c'' ''configs'',
      opt ''-p'' ''pyradiomics_config'',
      opt ''--stats_filename'' ''stats_filename'',
      sw ''-v'' ''verbose'',
      sw ''--new_log'' ''new_log_file'',
      sw ''-x'' ''save_at_the_end'',
      opt_given ''-S'' ''skip'',
      opt_given ''--include'' ''include'']"

definition stage_RADIOMICS :: "env \<Rightarrow> mstate \<Rightarrow> res" where
  "stage_RADIOMICS env =
     seq (resolve_RADIOMICS env @ [show_params env,
       launch env ''src/radiomics_multiprocessing.py'' flags_RADIOMICS (running_msg ''radiomics_multiprocessing.py'')])"

subsection \<open>\<open>DELETE\<close>\<close>

definition resolve_DELETE :: "env \<Rightarrow> (mstate \<Rightarrow> res) list" where
  "resolve_DELETE env =
     [dflt ''timer'' (VBool False),
      dflt ''verbose'' (VBool False),
      dflt ''log'' (VStr []),
      require ''folder'' (red no_folder_msg) 0,
      prev ''folder'']"

definition flags_DELETE :: flag where
  "flags_DELETE = flags
     [opt ''-f'' ''folder'',
      opt ''--log'' ''log'',
      sw ''-v'' ''verbose'']"

definition stage_DELETE :: "env \<Rightarrow> mstate \<Rightarrow> res" where
  "stage_DELETE env =
     seq (resolve_DELETE env @ [show_params env,
       launch env ''src/delete_folder.py'' flags_DELETE (running_msg ''delete_folder.py'')])"

subsection \<open>\<open>SEGMENTATION\<close>\<close>

definition resolve_SEGMENTATION :: "env \<Rightarrow> (mstate \<Rightarrow> res) list" where
  "resolve_SEGMENTATION env =
     [dflt ''timer'' (VBool False),
      dflt ''verbose'' (VBool False),
      dflt ''new_log_file'' (VBool False),
      dflt ''skip-segmented-data'' (VBool False),
      dflt ''log'' (VStr []),
      require ''inputFolder'' (red no_input_msg) 0,
      dot env,
      prev ''inputFolder'',
      dflt ''skip'' (VStr []),
      dflt ''include'' (VStr []),
      dflt ''multiprocessing'' (VInt 1),
      dflt ''method'' (VStr ''TotalSegmentator''),
      dflt ''segmentation-list'' (VStr []),
      dflt ''image_type'' (VStr ''nifti''),
      image_filename_for_type,
      dflt ''job_scheduler'' (VStr ''SGE'')]"

definition flags_SEGMENTATION :: flag where
  "flags_SEGMENTATION = flags
     [opt ''-i'' ''inputFolder'',
      opt ''--log'' ''log'',
      opt ''-j'' ''multiprocessing'',
      sw ''-v'' ''verbose'',
      sw ''--new_log'' ''new_log_file'',
      sw ''--skip-segmented-data'' ''skip-segmented-data'',
      opt_given ''-S'' ''skip'',
      opt_given ''--include'' ''include'',
      opt ''-m'' ''method'',
      opt ''-f'' ''segmentation-list'',
      opt ''-I'' ''image_filename'',
      opt ''-t'' ''image_type'',
      opt ''--job_scheduler'' ''job_scheduler'']"

text \<open>
  The \<open>try\<close> block of \<open>SEGMENTATION\<close> sets \<open>global_params['with-segmentation']\<close> once the
  collaborator has returned.
\<close>

definition segmentation_try :: "env \<Rightarrow> string list \<Rightarrow> mstate \<Rightarrow> mstate" where
  "segmentation_try env prog s =
     (let errmsg = running_msg ''radiomics_multiprocessing.py'' in
      case params s ''timer'' of
        None \<Rightarrow> emit (Print errmsg) s
      | Some t \<Rightarrow>
         (case subprocess env (out s) prog of
            None \<Rightarrow> emit (Print errmsg) (emit (Call prog) s)
          | Some r \<Rightarrow>
             (let s1 = setg ''with-segmentation'' (VBool True) (emit (Call prog) s) in
              case timed env t s1 of
                None \<Rightarrow> emit (Print errmsg) s1
              | Some s' \<Rightarrow> s')))"

definition segmentation_launch :: "env \<Rightarrow> mstate \<Rightarrow> res" where
  "segmentation_launch env s = (case flags_SEGMENTATION env (params s) of
       Inl e \<Rightarrow> Stop (Uncaught e) s
     | Inr a \<Rightarrow>
         Cont (segmentation_try env (''python'' # ''src/segmentation_multiprocessing.py'' # a) s))"

definition stage_SEGMENTATION :: "env \<Rightarrow> mstate \<Rightarrow> res" where
  "stage_SEGMENTATION env =
     seq (resolve_SEGMENTATION env @ [show_params env, segmentation_launch env])"

subsection \<open>\<open>F-NORMALIZE\<close>\<close>

definition resolve_F_NORMALIZE :: "env \<Rightarrow> (mstate \<Rightarrow> res) list" where
  "resolve_F_NORMALIZE env =
     [dflt ''timer'' (VBool False),
      dflt ''verbose'' (VBool False),
      dflt ''new_log_file'' (VBool False),
      dflt ''log'' (VStr []),
      require ''inputFolder'' (red no_input_msg) 0,
      dot env,
      prev ''inputFolder'',
      dflt ''outputFolder'' (VStr []),
      dflt ''modelFolder'' (VStr []),
      dflt ''radiomics_filename'' (VStr ''radiomics.xlsx''),
      dflt ''normalized_radiomics_filename'' (VStr ''normalized_radiomics.xlsx''),
      dflt ''stats_filename'' (VStr []),
      dflt ''stratified'' (VStr ''True''),
      dflt ''method'' (VStr ''MinMax''),
      dflt ''mode'' (VStr ''Internal'')]"

definition flags_F_NORMALIZE :: flag where
  "flags_F_NORMALIZE = flags
     [opt ''-i'' ''inputFolder'',
      opt ''--log'' ''log'',
      opt ''-o'' ''outputFolder'',
      opt ''-m'' ''modelFolder'',
      opt ''-R'' ''radiomics_filename'',
      opt ''-N'' ''normalized_radiomics_filename'',
      opt ''-S'' ''stats_filename'',
      opt ''-M'' ''method'',
      opt ''--stratified'' ''stratified'',
      opt ''--norm_dataset'' ''mode'',
      sw ''-v'' ''verbose'',
      sw ''--new_log'' ''new_log_file'']"

definition stage_F_NORMALIZE :: "env \<Rightarrow> mstate \<Rightarrow> res" where
  "stage_F_NORMALIZE env =
     seq (resolve_F_NORMALIZE env @ [show_params env,
       launch env ''src/feature_normalization.py'' flags_F_NORMALIZE (running_msg ''feature_normalization.py'')])"

subsection \<open>\<open>F-HARMONIZE\<close>\<close>

definition resolve_F_HARMONIZE :: "env \<Rightarrow> (mstate \<Rightarrow> res) list" where
  "resolve_F_HARMONIZE env =
     [dflt ''timer'' (VBool False),
      dflt ''verbose'' (VBool False),
      dflt ''new_log_file'' (VBool False),
      dflt ''log'' (VStr []),
      require ''inputFolder'' no_input_msg 0,
      dot env,
      prev ''inputFolder'',
      dflt ''outputFolder'' (VStr []),
      dflt ''modelFolder'' (VStr []),
      dflt ''radiomics_filename'' (VStr ''radiomics.xlsx''),
      dflt ''batch_filename'' (VStr ''radiomics.xlsx''),
      dflt ''harmonized_radiomics_filename'' (VStr ''harmonized_radiomics.xlsx''),
      dflt ''radiomics_from_model_filename'' (VStr []),
      dflt ''batch_from_model_filename'' (VStr []),
      dflt ''estimates_filename'' (VStr []),
      dflt ''ref_batch'' (VNone),
      dflt ''mode'' (VStr ''internal''),
      dflt ''covars'' (VStr [])]"

definition flags_F_HARMONIZE :: flag where
  "flags_F_HARMONIZE = flags
     [opt ''-i'' ''inputFolder'',
      opt ''--log'' ''log'',
      opt ''-o'' ''outputFolder'',
      opt ''-m'' ''modelFolder'',
      opt ''-r'' ''radiomics_filename'',
      opt ''-b'' ''batch_filename'',
      opt ''-R'' ''harmonized_radiomics_filename'',
      opt ''-E'' ''estimates_filename'',
      opt ''--radiomics_from_model'' ''radiomics_from_model_filename'',
      opt ''--batch_from_model'' ''batch_from_model_filename'',
      opt ''--ref_batch'' ''ref_batch'',
      opt ''-M'' ''mode'',
      opt ''--covars'' ''covars'',
      sw ''-v'' ''verbose'',
      sw ''--new_log'' ''new_log_file'']"

definition stage_F_HARMONIZE :: "env \<Rightarrow> mstate \<Rightarrow> res" where
  "stage_F_HARMONIZE env =
     seq (resolve_F_HARMONIZE env @ [show_params env,
       launch env ''src/feature_harmonization.py'' flags_F_HARMONIZE (running_msg ''feature_harmonization.py'')])"

subsection \<open>\<open>PREDICT\<close>\<close>

definition resolve_PREDICT :: "env \<Rightarrow> (mstate \<Rightarrow> res) list" where
  "resolve_PREDICT env =
     [dflt ''timer'' (VBool False),
      dflt ''verbose'' (VBool False),
      dflt ''new_log_file'' (VBool False),
      dflt ''log'' (VStr []),
      require ''inputFolder'' (red no_input_msg) 0,
      dot env,
      prev ''inputFolder'',
      dflt ''outputFolder'' (VStr []),
      dflt ''modelFolder'' (VStr []),
      dflt ''radiomics_filename'' (VStr ''radiomics.xlsx''),
      dflt ''predict_filename'' (VStr ''predict.xlsx''),
      dflt ''model_filename'' (VStr ''model.pkl'')]"

definition flags_PREDICT :: flag where
  "flags_PREDICT = flags
     [opt ''-i'' ''inputFolder'',
      opt ''--log'' ''log'',
      opt ''-o'' ''outputFolder'',
      opt ''-m'' ''modelFolder'',
      opt ''-r'' ''radiomics_filename'',
      opt ''-p'' ''predict_filename'',
      opt ''-M'' ''model_filename'',
      sw ''-v'' ''verbose'',
      sw ''--new_log'' ''new_log_file'']"

definition stage_PREDICT :: "env \<Rightarrow> mstate \<Rightarrow> res" where
  "stage_PREDICT env =
     seq (resolve_PREDICT env @ [show_params env,
       launch env ''src/predict.py'' flags_PREDICT (running_msg ''predict.py'')])"

subsection \<open>\<open>COPY\<close>\<close>

definition resolve_COPY :: "env \<Rightarrow> (mstate \<Rightarrow> res) list" where
  "resolve_COPY env =
     [dflt ''timer'' (VBool False),
      dflt ''verbose'' (VBool False),
      dflt ''log'' (VStr []),
      require ''inputFolder'' (red no_input_msg) 0,
      dot env,
      prev ''inputFolder'',
      dflt ''targetFolder'' (VStr [])]"

definition flags_COPY :: flag where
  "flags_COPY = flags
     [opt ''-i'' ''inputFolder'',
      opt ''--log'' ''log'',
      opt ''-o'' ''targetFolder'',
      sw ''-v'' ''verbose'']"

definition stage_COPY :: "env \<Rightarrow> mstate \<Rightarrow> res" where
  "stage_COPY env =
     seq (resolve_COPY env @ [show_params env,
       launch env ''src/copy_folder_contents.py'' flags_COPY (running_msg ''predict.py'')])"

section \<open>The loop of \<open>main\<close>\<close>

text \<open>The chain \<open>if cfg["function"] == ... elif ...\<close>: a name outside it runs nothing.\<close>

definition stage :: "env \<Rightarrow> string \<Rightarrow> mstate \<Rightarrow> res" where
  "stage env fn =
     (if fn = ''CHECK_FOLDER'' then stage_CHECK_FOLDER env
      else if fn = ''REORGANIZE'' then stage_REORGANIZE env
      else if fn = ''DCM2NII'' then stage_DCM2NII env
      else if fn = ''SPATIAL_RESAMPLING'' then stage_SPATIAL_RESAMPLING env
      else if fn = ''INTENSITY_RESAMPLING'' then stage_INTENSITY_RESAMPLING env
      else if fn = ''MERGE_MASKS'' then stage_MERGE_MASKS env
      else if fn = ''MASK_THRESHOLDING'' then stage_MASK_THRESHOLDING env
      else if fn = ''I-WINDOWING'' then stage_I_WINDOWING env
      else if fn = ''I-HARMONIZE'' then stage_I_HARMONIZE env
      else if fn = ''N4-BIAS-FIELD-CORRECTION'' then stage_N4_BIAS_FIELD_CORRECTION env
      else if fn = ''RADIOMICS'' then stage_RADIOMICS env
      else if fn = ''DELETE'' then stage_DELETE env
      else if fn = ''SEGMENTATION'' then stage_SEGMENTATION env
      else if fn = ''F-NORMALIZE'' then stage_F_NORMALIZE env
      else if fn = ''F-HARMONIZE'' then stage_F_HARMONIZE env
      else if fn = ''PREDICT'' then stage_PREDICT env
      else if fn = ''COPY'' then stage_COPY env
      else Cont)"


text \<open>\<open>if 'outputFolder' in params.keys(): if params['outputFolder'] != '': ...\<close>, the last
  statement of the loop body.\<close>

definition update_previous :: "mstate \<Rightarrow> mstate" where
  "update_previous s = (case params s ''outputFolder'' of
       None \<Rightarrow> s
     | Some v \<Rightarrow> if v \<noteq> VStr [] then s\<lparr>previous_outFolder := v\<rparr> else s)"

subsection \<open>Stage records\<close>

text \<open>
  A stage record is a pandas \<open>Series\<close> of raw strings, built by \<open>pd.concat\<close>: its index
  keeps the order of the lines and may hold a label twice. \<open>cfg[k]\<close> is the string under
  \<open>k\<close> when the label occurs once; when it occurs several times \<open>cfg[k]\<close> is itself a
  \<open>Series\<close>, and both uses the source makes of it (\<open>if cfg[k] == ...\<close> and
  \<open>parse(cfg[k])\<close>, whose first test is \<open>i in ['True','true']\<close>) ask for the truth value
  of a \<open>Series\<close>, which raises \<open>ValueError\<close>.
\<close>

type_synonym series = "(string \<times> string) list"

definition series_get :: "series \<Rightarrow> string \<Rightarrow> exc + string" where
  "series_get cfg k = (case filter (\<lambda>kv. fst kv = k) cfg of
       [] \<Rightarrow> Inl (KeyError k)
     | [kv] \<Rightarrow> Inr (snd kv)
     | _ \<Rightarrow> Inl ValueError)"

text \<open>\<open>for i in ks: p[i] = parse(cfg[i])\<close>\<close>

fun fill :: "(string \<Rightarrow> pyval option) \<Rightarrow> series \<Rightarrow> string list \<Rightarrow> (string \<rightharpoonup> pyval)
    \<Rightarrow> exc + (string \<rightharpoonup> pyval)" where
  "fill ev cfg [] p = Inr p"
| "fill ev cfg (k # ks) p = (case series_get cfg k of
       Inl e \<Rightarrow> Inl e
     | Inr raw \<Rightarrow> (case parse ev raw of Inl e \<Rightarrow> Inl e | Inr v \<Rightarrow> fill ev cfg ks (p(k \<mapsto> v))))"

subsection \<open>One iteration of the run loop\<close>

definition run_cfg :: "env \<Rightarrow> mstate \<Rightarrow> series \<Rightarrow> res" where
  "run_cfg env s cfg = (case series_get cfg ''function'' of
       Inl e \<Rightarrow> Stop (Uncaught e) s
     | Inr fn \<Rightarrow>
        (case (if fn \<noteq> ''GLOBAL_PARAMETERS'' then
                 (case fill (py_eval env) cfg (map fst cfg) (gparams s) of
                    Inl e \<Rightarrow> Stop (Uncaught e) s
                  | Inr p \<Rightarrow> stage env fn (s\<lparr>params := p\<rparr>))
               else Cont s) of
           Stop st s' \<Rightarrow> Stop st s'
         | Cont s' \<Rightarrow> Cont (update_previous s')))"

fun run_loop :: "env \<Rightarrow> series list \<Rightarrow> mstate \<Rightarrow> res" where
  "run_loop env [] s = Cont s"
| "run_loop env (cfg # rest) s = (case run_cfg env s cfg of
       Stop st s' \<Rightarrow> Stop st s'
     | Cont s' \<Rightarrow> run_loop env rest s')"

subsection \<open>The loop over the \<open>GLOBAL_PARAMETERS\<close> blocks\<close>

definition globals_shown :: "env \<Rightarrow> mstate \<Rightarrow> mstate" where
  "globals_shown env s =
     (if verbose env
      then emit PrintParams (emit (Print (bold (CHR 0x0A # ''GLOBAL_PARAMETERS: ''))) s)
      else s)"

fun globals_loop :: "env \<Rightarrow> series list \<Rightarrow> mstate \<Rightarrow> res" where
  "globals_loop env [] s = Cont s"
| "globals_loop env (cfg # rest) s = (case series_get cfg ''function'' of
       Inl e \<Rightarrow> Stop (Uncaught e) s
     | Inr fn \<Rightarrow>
         if fn = ''GLOBAL_PARAMETERS'' then
           (case fill (py_eval env) cfg (filter (\<lambda>i. i \<noteq> ''function'') (map fst cfg)) (gparams s) of
              Inl e \<Rightarrow> Stop (Uncaught e) s
            | Inr g \<Rightarrow> globals_loop env rest (globals_shown env (s\<lparr>gparams := g\<rparr>)))
         else globals_loop env rest s)"

section \<open>Reading the pipeline file: \<open>read_config_file\<close>\<close>

definition module_names :: "string list" where
  "module_names =
     [''GLOBAL_PARAMETERS'', ''CHECK_FOLDER'', ''REORGANIZE'', ''DCM2NII'',
      ''SPATIAL_RESAMPLING'', ''INTENSITY_RESAMPLING'', ''MERGE_MASKS'', ''MASK_THRESHOLDING'',
      ''I-WINDOWING'', ''I-HARMONIZE'', ''N4-BIAS-FIELD-CORRECTION'', ''RADIOMICS'', ''DELETE'',
      ''SEGMENTATION'', ''F-NORMALIZE'', ''F-HARMONIZE'', ''PREDICT'', ''COPY'']"

text \<open>\<open>s.split(c)[0]\<close>\<close>

definition field0 :: "char \<Rightarrow> string \<Rightarrow> string" where
  "field0 c s = (case split c s of [] \<Rightarrow> [] | x # xs \<Rightarrow> x)"

definition cyan :: "string \<Rightarrow> string" where
  "cyan m = CHR 0x1B # ''[36m'' @ m @ CHR 0x1B # ''[0m''"

definition no_module_msg :: "string \<Rightarrow> string" where
  "no_module_msg m = red ''ERROR!'' @ '' The module '' @ cyan m @
     '' does not exist. Check the configuration file and documentation for more information on using PIPELINE files.''"

definition found_msg :: "string \<Rightarrow> string" where
  "found_msg file = CHR 0x1B # ''[1mThe following instruction was found in'' @ '' '' @ file @
     '' '' @ CHR 0x1B # ''[0m''"

record rstate =
  begin_param_list :: bool
  config :: series
  configs :: "series list"
  printed :: "event list"

text \<open>
  The body of \<open>for raw_line in infile\<close>. \<open>Inl\<close> is \<open>sys.exit\<close>, with its code and all that
  was printed. A parameter line is recorded as \<open>line.split('#')[0].split(':')[1]\<close> under
  the label \<open>line.split(':')[0]\<close>; the \<open>except\<close> around it catches the \<open>IndexError\<close> of a
  line without a colon. \<open>pd.concat\<close> appends the pair whatever the labels already there.
\<close>

definition read_line :: "env \<Rightarrow> rstate \<Rightarrow> string \<Rightarrow> (nat \<times> event list) + rstate" where
  "read_line env r raw_line =
     (let line = strip py_isspace raw_line in
      case line of
        [] \<Rightarrow> Inr r
      | c # cs \<Rightarrow>
          if c = CHR ''#'' then Inr r
          else if ''function'' \<in> set (map fst (config r)) then
            (if c = CHR ''{'' then Inr (r\<lparr>begin_param_list := True\<rparr>)
             else if begin_param_list r then
               (if c = CHR ''}'' then
                  Inr (r\<lparr>begin_param_list := False, config := [],
                         configs := configs r @ [config r],
                         printed := printed r @
                           (if verbose env then [Print (found_msg (configFile env)), PrintParams]
                            else [])\<rparr>)
                else
                  (let l = remove_char (CHR 0x09) (remove_char CHR '' '' line) in
                   case split CHR '':'' (field0 CHR ''#'' l) of
                     a # b # rest \<Rightarrow>
                       Inr (r\<lparr>config := config r @ [(field0 CHR '':'' l, b)]\<rparr>)
                   | _ \<Rightarrow>
                       Inl (1, printed r @
                         [EPrint (red (''ERROR in the PIPELINE file ('' @ l @ '')'')),
                          Print (red ''ERROR in the PIPELINE file'' @ '' ('' @ cyan l @ '')'')])))
             else Inr r)
          else
            (case find (\<lambda>m. contains m (field0 CHR ''#'' line)) module_names of
               Some m \<Rightarrow> Inr (r\<lparr>config := config r @ [(''function'', m)]\<rparr>)
             | None \<Rightarrow> Inl (0, printed r @ [Print (no_module_msg (field0 CHR ''#'' line))])))"

fun read_lines :: "env \<Rightarrow> rstate \<Rightarrow> string list \<Rightarrow> (nat \<times> event list) + rstate" where
  "read_lines env r [] = Inr r"
| "read_lines env r (l # ls) = (case read_line env r l of
       Inl x \<Rightarrow> Inl x
     | Inr r' \<Rightarrow> read_lines env r' ls)"

definition read_config_file :: "env \<Rightarrow> string list \<Rightarrow> (nat \<times> event list) + rstate" where
  "read_config_file env ls =
     read_lines env \<lparr>begin_param_list = False, config = [], configs = [], printed = []\<rparr> ls"

section \<open>\<open>main\<close>\<close>

text \<open>
  \<open>main\<close> from the call of \<open>read_config_file\<close> on: the lines of the pipeline file are
  read, the \<open>GLOBAL_PARAMETERS\<close> blocks are collected, then every record is run in file
  order. The result is how the run ended and the state it ended in.
\<close>

definition init_state :: "event list \<Rightarrow> mstate" where
  "init_state evs =
     \<lparr>gparams = Map.empty, params = Map.empty, previous_outFolder = VStr [], out = evs\<rparr>"

definition main :: "env \<Rightarrow> string list \<Rightarrow> status \<times> mstate" where
  "main env ls = (case read_config_file env ls of
       Inl (c, evs) \<Rightarrow> (SysExit c, init_state evs)
     | Inr r \<Rightarrow>
        (case globals_loop env (configs r) (init_state (printed r)) of
           Stop st s \<Rightarrow> (st, s)
         | Cont s \<Rightarrow>
            (case run_loop env (configs r) s of
               Stop st s' \<Rightarrow> (st, s')
             | Cont s' \<Rightarrow> (Finished, s'))))"

text \<open>The collaborators invoked, in order, and the value that follows a flag in an
  invocation.\<close>

fun calls :: "event list \<Rightarrow> string list list" where
  "calls [] = []"
| "calls (Call prog # es) = prog # calls es"
| "calls (e # es) = calls es"

fun flag_value :: "string \<Rightarrow> string list \<Rightarrow> string option" where
  "flag_value f [] = None"
| "flag_value f [a] = None"
| "flag_value f (a # b # r) = (if a = f then Some b else flag_value f (b # r))"

section \<open>An environment for examples\<close>

text \<open>
  A run without \<open>-i\<close> and \<open>-v\<close> in which every collaborator returns normally and prints
  \<open>txt\<close>, and \<open>eval\<close> always raises.
\<close>

definition answering :: "string \<Rightarrow> env" where
  "answering txt =
     \<lparr>configFile = ''pipeline.txt'', inputPath = [], verbose = False,
      py_eval = (\<lambda>i. None), subprocess = (\<lambda>h p. Some txt),
      float_eq = (\<lambda>l n. False), float_gt = (\<lambda>l n. False), str_other = (\<lambda>v. [])\<rparr>"

text \<open>The spellings of \<open>true\<close> and \<open>false\<close> in other cases than the four that \<open>parse\<close>
  lists.\<close>

definition true_variants :: "string list" where
  "true_variants =
    [''truE'', ''trUe'', ''trUE'', ''tRue'', ''tRuE'', ''tRUe'', ''tRUE'', ''TruE'',
     ''TrUe'', ''TrUE'', ''TRue'', ''TRuE'', ''TRUe'', ''TRUE'']"

definition false_variants :: "string list" where
  "false_variants =
    [''falsE'', ''falSe'', ''falSE'', ''faLse'', ''faLsE'', ''faLSe'', ''faLSE'',
     ''fAlse'', ''fAlsE'', ''fAlSe'', ''fAlSE'', ''fALse'', ''fALsE'', ''fALSe'',
     ''fALSE'', ''FalsE'', ''FalSe'', ''FalSE'', ''FaLse'', ''FaLsE'', ''FaLSe'',
     ''FaLSE'', ''FAlse'', ''FAlsE'', ''FAlSe'', ''FAlSE'', ''FALse'', ''FALsE'',
     ''FALSe'', ''FALSE'']"

section \<open>Value coercion\<close>

lemmas parse_eval = parse.simps py_int_def py_float_def unsign_def strip_def rstrip_def
  c_isspace_def code_def is_digit_def lower_def lower_char_def is_floatnumber_def
  is_number_def is_exponent_def digits_value_def list_items_def Let_def

lemma lower_char_cases:
  assumes "lower_char c = d" and "97 \<le> code d" and "code d \<le> 122"
  shows "c = d \<or> code c = code d - 32"
proof (cases "65 \<le> code c \<and> code c \<le> 90")
  case True
  with assms(1) have "char_of (code c + 32) = d" by (simp add: lower_char_def)
  then have "code d = (code c + 32) mod 256" unfolding code_def by (metis of_char_of)
  with True have "code d - 32 = code c" by simp
  then show ?thesis by simp
next
  case False
  with assms(1) show ?thesis by (simp add: lower_char_def)
qed

lemma lower_char_letter:
  assumes "lower_char c = d" and "97 \<le> code d" and "code d \<le> 122" and "code u = code d - 32"
  shows "c = d \<or> c = u"
proof -
  from lower_char_cases [OF assms(1-3)] have "c = d \<or> code c = code u" using assms(4) by simp
  then show ?thesis by (auto simp: code_def)
qed

lemma lower_true:
  assumes "lower s = ''true''"
  shows "s = ''true'' \<or> s = ''True'' \<or> s \<in> set true_variants"
proof -
  from assms obtain a b c d where s: "s = [a, b, c, d]"
    and l: "lower_char a = CHR ''t''" "lower_char b = CHR ''r''"
           "lower_char c = CHR ''u''" "lower_char d = CHR ''e''"
    unfolding lower_def by (auto simp: map_eq_Cons_conv)
  have "a = CHR ''t'' \<or> a = CHR ''T''"
    by (rule lower_char_letter [OF l(1)]) (simp_all add: code_def)
  moreover have "b = CHR ''r'' \<or> b = CHR ''R''"
    by (rule lower_char_letter [OF l(2)]) (simp_all add: code_def)
  moreover have "c = CHR ''u'' \<or> c = CHR ''U''"
    by (rule lower_char_letter [OF l(3)]) (simp_all add: code_def)
  moreover have "d = CHR ''e'' \<or> d = CHR ''E''"
    by (rule lower_char_letter [OF l(4)]) (simp_all add: code_def)
  ultimately show ?thesis unfolding s true_variants_def by (elim disjE) simp_all
qed

lemma lower_false:
  assumes "lower s = ''false''"
  shows "s = ''false'' \<or> s = ''False'' \<or> s \<in> set false_variants"
proof -
  from assms obtain a b c d e where s: "s = [a, b, c, d, e]"
    and l: "lower_char a = CHR ''f''" "lower_char b = CHR ''a''"
           "lower_char c = CHR ''l''" "lower_char d = CHR ''s''" "lower_char e = CHR ''e''"
    unfolding lower_def by (auto simp: map_eq_Cons_conv)
  have "a = CHR ''f'' \<or> a = CHR ''F''"
    by (rule lower_char_letter [OF l(1)]) (simp_all add: code_def)
  moreover have "b = CHR ''a'' \<or> b = CHR ''A''"
    by (rule lower_char_letter [OF l(2)]) (simp_all add: code_def)
  moreover have "c = CHR ''l'' \<or> c = CHR ''L''"
    by (rule lower_char_letter [OF l(3)]) (simp_all add: code_def)
  moreover have "d = CHR ''s'' \<or> d = CHR ''S''"
    by (rule lower_char_letter [OF l(4)]) (simp_all add: code_def)
  moreover have "e = CHR ''e'' \<or> e = CHR ''E''"
    by (rule lower_char_letter [OF l(5)]) (simp_all add: code_def)
  ultimately show ?thesis unfolding s false_variants_def by (elim disjE) simp_all
qed

lemma parse_true_variants: "s \<in> set true_variants \<Longrightarrow> parse ev s = Inr (VStr s)"
  unfolding true_variants_def
  apply (simp only: list.set insert_iff empty_iff)
  apply (elim disjE FalseE)
  apply (simp_all add: parse_eval)
  done

lemma parse_false_variants: "s \<in> set false_variants \<Longrightarrow> parse ev s = Inr (VStr s)"
  unfolding false_variants_def
  apply (simp only: list.set insert_iff empty_iff)
  apply (elim disjE FalseE)
  apply (simp_all add: parse_eval)
  done

text \<open>
  C2. \<open>parse\<close> is not total: on the empty string neither \<open>int\<close> nor \<open>float\<close> accepts it,
  it does not contain \<open>pi\<close>, and the test \<open>i[0] == '['\<close>, which no \<open>try\<close> encloses, raises
  \<open>IndexError\<close>. A parameter line \<open>inputFolder:\<close> hands \<open>parse\<close> the empty string, and
  the run ends with that exception.
\<close>

theorem parse_empty_raises:
  "parse ev [] = Inl IndexError \<and>
   fst (main (answering []) [''COPY'', ''{'', ''inputFolder:'', ''}'']) = Uncaught IndexError"
proof
  show "parse ev [] = Inl IndexError" by (simp add: parse_eval)
  show "fst (main (answering []) [''COPY'', ''{'', ''inputFolder:'', ''}'']) = Uncaught IndexError"
    by code_simp
qed

text \<open>
  C7, as the code has it. \<open>parse\<close> maps exactly the four spellings \<open>True\<close>, \<open>true\<close>,
  \<open>False\<close>, \<open>false\<close> to booleans, before any other interpretation is tried; every
  other case variant of \<open>true\<close> or \<open>false\<close> comes back as the string it is.
\<close>

theorem parse_booleans:
  "parse ev ''True'' = Inr (VBool True) \<and> parse ev ''true'' = Inr (VBool True) \<and>
   parse ev ''False'' = Inr (VBool False) \<and> parse ev ''false'' = Inr (VBool False) \<and>
   (\<forall>s. (lower s = ''true'' \<or> lower s = ''false'') \<and>
        s \<notin> {''True'', ''true'', ''False'', ''false''} \<longrightarrow> parse ev s = Inr (VStr s))"
proof (intro conjI allI impI)
  show "parse ev ''True'' = Inr (VBool True)" by (simp add: parse.simps)
  show "parse ev ''true'' = Inr (VBool True)" by (simp add: parse.simps)
  show "parse ev ''False'' = Inr (VBool False)" by (simp add: parse.simps)
  show "parse ev ''false'' = Inr (VBool False)" by (simp add: parse.simps)
next
  fix s
  assume a: "(lower s = ''true'' \<or> lower s = ''false'') \<and>
    s \<notin> {''True'', ''true'', ''False'', ''false''}"
  then have "s \<in> set true_variants \<or> s \<in> set false_variants"
    using lower_true [of s] lower_false [of s] by blast
  then show "parse ev s = Inr (VStr s)"
    using parse_true_variants parse_false_variants by blast
qed

theorem parse_booleans_witness:
  "(lower ''TRUE'' = ''true'' \<or> lower ''TRUE'' = ''false'') \<and>
   ''TRUE'' \<notin> {''True'', ''true'', ''False'', ''false''} \<and>
   parse (py_eval (answering [])) ''TRUE'' = Inr (VStr ''TRUE'')"
proof -
  have "lower ''TRUE'' = ''true''" by code_simp
  then have h: "(lower ''TRUE'' = ''true'' \<or> lower ''TRUE'' = ''false'') \<and>
    ''TRUE'' \<notin> {''True'', ''true'', ''False'', ''false''}"
    by simp
  note variants = conjunct2 [OF conjunct2 [OF conjunct2 [OF conjunct2
    [OF parse_booleans [of "py_eval (answering [])"]]]]]
  have "parse (py_eval (answering [])) ''TRUE'' = Inr (VStr ''TRUE'')"
    by (rule mp [OF spec [OF variants] h])
  with h show ?thesis by (intro conjI) (elim conjE, assumption)+
qed

theorem parse_TRUE_counterexample:
  "parse (py_eval (answering [])) ''TRUE'' \<noteq> Inr (VBool True) \<and>
   parse (py_eval (answering [])) ''FALSE'' \<noteq> Inr (VBool False)"
  by (simp add: parse_eval)

section \<open>Reasoning about a stage\<close>

text \<open>
  A stage is a sequence of small statements. The properties below are proved once for
  each kind of statement and then carried along any sequence of them.
\<close>

lemma calls_append: "calls (a @ b) = calls a @ calls b"
  by (induction a rule: calls.induct) simp_all

lemma seq_append:
  "seq (fs @ gs) s = (case seq fs s of Stop st s' \<Rightarrow> Stop st s' | Cont s' \<Rightarrow> seq gs s')"
  by (induction fs arbitrary: s) (simp_all split: res.splits)

definition quiet :: "(mstate \<Rightarrow> res) \<Rightarrow> bool" where
  "quiet f \<longleftrightarrow>
     (\<forall>s s'. f s = Cont s' \<longrightarrow>
        gparams s' = gparams s \<and> previous_outFolder s' = previous_outFolder s \<and>
        dom (params s) \<subseteq> dom (params s') \<and> (\<exists>evs. out s' = out s @ evs \<and> calls evs = [])) \<and>
     (\<forall>s st s'. f s = Stop st s' \<longrightarrow> (\<exists>evs. out s' = out s @ evs \<and> calls evs = []))"

lemma quiet_seq: "list_all quiet fs \<Longrightarrow> quiet (seq fs)"
proof (induction fs)
  case Nil
  show ?case by (simp add: quiet_def)
next
  case (Cons f fs)
  then have qf: "quiet f" and qs: "quiet (seq fs)" by simp_all
  show ?case unfolding quiet_def
  proof (intro conjI allI impI)
    fix s s' assume a: "seq (f # fs) s = Cont s'"
    then obtain s1 where f1: "f s = Cont s1" and f2: "seq fs s1 = Cont s'"
      by (auto split: res.splits)
    from qf f1 obtain e1 where 1: "gparams s1 = gparams s" "previous_outFolder s1 = previous_outFolder s"
      "dom (params s) \<subseteq> dom (params s1)" "out s1 = out s @ e1" "calls e1 = []"
      unfolding quiet_def by blast
    from qs f2 obtain e2 where 2: "gparams s' = gparams s1" "previous_outFolder s' = previous_outFolder s1"
      "dom (params s1) \<subseteq> dom (params s')" "out s' = out s1 @ e2" "calls e2 = []"
      unfolding quiet_def by blast
    show "gparams s' = gparams s" using 1 2 by simp
    show "previous_outFolder s' = previous_outFolder s" using 1 2 by simp
    show "dom (params s) \<subseteq> dom (params s')" using 1 2 by blast
    have "out s' = out s @ (e1 @ e2) \<and> calls (e1 @ e2) = []" using 1 2 by (simp add: calls_append)
    then show "\<exists>evs. out s' = out s @ evs \<and> calls evs = []" by blast
  next
    fix s st s' assume a: "seq (f # fs) s = Stop st s'"
    show "\<exists>evs. out s' = out s @ evs \<and> calls evs = []"
    proof (cases "f s")
      case (Stop st1 s1)
      with a have "st1 = st" "s1 = s'" by simp_all
      with qf Stop show ?thesis unfolding quiet_def by blast
    next
      case (Cont s1)
      with a have f2: "seq fs s1 = Stop st s'" by simp
      from qf Cont obtain e1 where 1: "out s1 = out s @ e1" "calls e1 = []"
        unfolding quiet_def by blast
      from qs f2 obtain e2 where 2: "out s' = out s1 @ e2" "calls e2 = []"
        unfolding quiet_def by blast
      have "out s' = out s @ (e1 @ e2) \<and> calls (e1 @ e2) = []" using 1 2 by (simp add: calls_append)
      then show ?thesis by blast
    qed
  qed
qed

lemma quiet_dflt [simp]: "quiet (dflt k v)"
  by (auto simp: quiet_def dflt_def)

lemma quiet_fatal [simp]: "quiet (fatal m c)"
  by (auto simp: quiet_def fatal_def emit_def)

lemma quiet_assign [simp]: "quiet (assign k v)"
  by (auto simp: quiet_def assign_def setp_def)

lemma quiet_require [simp]: "quiet (require k m c)"
  by (auto simp: quiet_def require_def fatal_def emit_def split: option.splits)

lemma quiet_dot [simp]: "quiet (dot env)"
  by (auto simp: quiet_def dot_def setp_def emit_def split: option.splits if_splits)

lemma quiet_prev [simp]: "quiet (prev k)"
  by (auto simp: quiet_def prev_def setp_def split: option.splits if_splits)

lemma quiet_derive_out [simp]: "quiet f \<Longrightarrow> quiet (derive_out env f)"
  unfolding quiet_def derive_out_def
  by (auto simp: setp_def split: option.splits pyval.splits)

lemma quiet_reg_xor_add [simp]: "quiet reg_xor_add"
  by (auto simp: quiet_def reg_xor_add_def fatal_def emit_def split: if_splits)

lemma quiet_sub_for_add [simp]: "quiet sub_for_add"
  by (auto simp: quiet_def sub_for_add_def setp_def split: if_splits)

lemma quiet_configs_given [simp]: "quiet configs_given"
  by (auto simp: quiet_def configs_given_def fatal_def emit_def dflt_def split: if_splits)

lemma quiet_save_check [simp]: "quiet (save_at_the_end_check env)"
  by (auto simp: quiet_def save_at_the_end_check_def setp_def emit_def
      split: option.splits if_splits sum.splits)

lemma quiet_image_filename [simp]: "quiet image_filename_for_type"
  by (auto simp: quiet_def image_filename_for_type_def setp_def split: option.splits if_splits)

lemma quiet_show_params [simp]: "quiet (show_params env)"
  by (auto simp: quiet_def show_params_def emit_def split: option.splits if_splits)

definition inv :: "(mstate \<Rightarrow> bool) \<Rightarrow> (mstate \<Rightarrow> res) \<Rightarrow> bool" where
  "inv I f \<longleftrightarrow> (\<forall>s s'. I s \<longrightarrow> f s = Cont s' \<longrightarrow> I s')"

lemma inv_seq: "list_all (inv I) fs \<Longrightarrow> inv I (seq fs)"
proof (induction fs)
  case Nil
  show ?case by (simp add: inv_def)
next
  case (Cons f fs)
  then have a: "inv I f" and b: "inv I (seq fs)" by simp_all
  show ?case unfolding inv_def
  proof (intro allI impI)
    fix s s' assume i: "I s" and r: "seq (f # fs) s = Cont s'"
    from r obtain s1 where f1: "f s = Cont s1" and f2: "seq fs s1 = Cont s'"
      by (auto split: res.splits)
    from a i f1 have "I s1" unfolding inv_def by blast
    with b f2 show "I s'" unfolding inv_def by blast
  qed
qed

definition has :: "string \<Rightarrow> pyval \<Rightarrow> mstate \<Rightarrow> bool" where
  "has x v s \<longleftrightarrow> params s x = Some v"

definition unset :: "string \<Rightarrow> mstate \<Rightarrow> bool" where
  "unset x s \<longleftrightarrow> params s x = None"

definition no_output :: "mstate \<Rightarrow> bool" where
  "no_output s \<longleftrightarrow>
     (params s ''outputFolder'' = None \<or> params s ''outputFolder'' = Some (VStr [])) \<and>
     params s ''outputFolderSuffix'' = None"

definition prev_is :: "pyval \<Rightarrow> mstate \<Rightarrow> bool" where
  "prev_is q s \<longleftrightarrow> previous_outFolder s = q"

definition both :: "(mstate \<Rightarrow> bool) \<Rightarrow> (mstate \<Rightarrow> bool) \<Rightarrow> mstate \<Rightarrow> bool" where
  "both A B s \<longleftrightarrow> A s \<and> B s"

lemma inv_both [simp]: "inv A f \<Longrightarrow> inv B f \<Longrightarrow> inv (both A B) f"
  unfolding inv_def both_def by blast

lemma inv_prev_is [simp]: "quiet f \<Longrightarrow> inv (prev_is q) f"
  unfolding inv_def prev_is_def quiet_def by metis

subsection \<open>has\<close>

lemma has_dflt [simp]: "inv (has x v) (dflt k d)"
  by (auto simp: inv_def has_def dflt_def)

lemma has_require [simp]: "inv (has x v) (require k m c)"
  by (auto simp: inv_def has_def require_def fatal_def split: option.splits)

lemma has_dot [simp]:
  "x \<noteq> ''inputFolder'' \<or> v \<noteq> VStr ''.'' \<or> inputPath env = [] \<Longrightarrow> inv (has x v) (dot env)"
  by (auto simp: inv_def has_def dot_def setp_def emit_def split: option.splits if_splits)

lemma has_prev [simp]: "x \<noteq> k \<or> v \<noteq> VStr PREVIOUS \<Longrightarrow> inv (has x v) (prev k)"
  by (auto simp: inv_def has_def prev_def setp_def split: option.splits if_splits)

lemma has_derive_assign [simp]: "inv (has x v) (derive_out env (assign ''outputFolder'' d))"
  by (auto simp: inv_def has_def derive_out_def assign_def setp_def
      split: option.splits pyval.splits if_splits)

lemma has_derive_fatal [simp]: "inv (has x v) (derive_out env (fatal m c))"
  by (auto simp: inv_def has_def derive_out_def fatal_def setp_def
      split: option.splits pyval.splits if_splits)

lemma has_reg_xor_add [simp]: "inv (has x v) reg_xor_add"
  by (auto simp: inv_def has_def reg_xor_add_def fatal_def split: if_splits)

lemma has_sub_for_add [simp]: "inv (has x v) sub_for_add"
  by (auto simp: inv_def has_def sub_for_add_def setp_def split: if_splits)

lemma has_configs_given [simp]: "inv (has x v) configs_given"
  by (auto simp: inv_def has_def configs_given_def fatal_def dflt_def split: if_splits)

lemma has_save_check [simp]:
  "x \<noteq> ''save_at_the_end'' \<Longrightarrow> inv (has x v) (save_at_the_end_check env)"
  by (auto simp: inv_def has_def save_at_the_end_check_def setp_def emit_def
      split: option.splits if_splits sum.splits)

lemma has_image_filename [simp]: "inv (has x v) image_filename_for_type"
  by (auto simp: inv_def has_def image_filename_for_type_def setp_def
      split: option.splits if_splits)

lemma has_show_params [simp]: "inv (has x v) (show_params env)"
  by (auto simp: inv_def has_def show_params_def emit_def split: option.splits if_splits)

subsection \<open>unset\<close>

lemma unset_dflt [simp]: "x \<noteq> k \<Longrightarrow> inv (unset x) (dflt k d)"
  by (auto simp: inv_def unset_def dflt_def)

lemma unset_require [simp]: "inv (unset x) (require k m c)"
  by (auto simp: inv_def unset_def require_def fatal_def split: option.splits)

lemma unset_dot [simp]: "inv (unset x) (dot env)"
  by (auto simp: inv_def unset_def dot_def setp_def emit_def split: option.splits if_splits)

lemma unset_prev [simp]: "inv (unset x) (prev k)"
  by (auto simp: inv_def unset_def prev_def setp_def split: option.splits if_splits)

lemma unset_derive_assign [simp]:
  "x \<noteq> ''outputFolder'' \<Longrightarrow> inv (unset x) (derive_out env (assign ''outputFolder'' d))"
  by (auto simp: inv_def unset_def derive_out_def assign_def setp_def
      split: option.splits pyval.splits if_splits)

lemma unset_derive_fatal [simp]:
  "x \<noteq> ''outputFolder'' \<Longrightarrow> inv (unset x) (derive_out env (fatal m c))"
  by (auto simp: inv_def unset_def derive_out_def fatal_def setp_def
      split: option.splits pyval.splits if_splits)

lemma unset_reg_xor_add [simp]: "inv (unset x) reg_xor_add"
  by (auto simp: inv_def unset_def reg_xor_add_def fatal_def split: if_splits)

lemma unset_sub_for_add [simp]: "x \<noteq> ''sub'' \<Longrightarrow> inv (unset x) sub_for_add"
  by (auto simp: inv_def unset_def sub_for_add_def setp_def split: if_splits)

lemma unset_configs_given [simp]:
  "x \<noteq> ''configs'' \<Longrightarrow> x \<noteq> ''pyradiomics_config'' \<Longrightarrow> inv (unset x) configs_given"
  by (auto simp: inv_def unset_def configs_given_def fatal_def dflt_def split: if_splits)

lemma unset_save_check [simp]: "inv (unset x) (save_at_the_end_check env)"
  by (auto simp: inv_def unset_def save_at_the_end_check_def setp_def emit_def
      split: option.splits if_splits sum.splits)

lemma unset_image_filename [simp]:
  "x \<noteq> ''image_filename'' \<Longrightarrow> inv (unset x) image_filename_for_type"
  by (auto simp: inv_def unset_def image_filename_for_type_def setp_def
      split: option.splits if_splits)

lemma unset_show_params [simp]: "inv (unset x) (show_params env)"
  by (auto simp: inv_def unset_def show_params_def emit_def split: option.splits if_splits)

subsection \<open>no_output\<close>

lemma no_output_dflt [simp]:
  "k \<noteq> ''outputFolderSuffix'' \<Longrightarrow> k \<noteq> ''outputFolder'' \<or> d = VStr [] \<Longrightarrow>
   inv no_output (dflt k d)"
  by (auto simp: inv_def no_output_def dflt_def)

lemma no_output_require [simp]: "inv no_output (require k m c)"
  by (auto simp: inv_def no_output_def require_def fatal_def split: option.splits)

lemma no_output_dot [simp]: "inv no_output (dot env)"
  by (auto simp: inv_def no_output_def dot_def setp_def emit_def split: option.splits if_splits)

lemma no_output_prev [simp]:
  "k \<noteq> ''outputFolderSuffix'' \<Longrightarrow> k \<noteq> ''outputFolder'' \<Longrightarrow> inv no_output (prev k)"
  by (auto simp: inv_def no_output_def prev_def setp_def split: option.splits if_splits)

lemma no_output_derive_assign [simp]:
  "inv no_output (derive_out env (assign ''outputFolder'' (VStr [])))"
  by (auto simp: inv_def no_output_def derive_out_def assign_def setp_def
      split: option.splits pyval.splits if_splits)

lemma no_output_reg_xor_add [simp]: "inv no_output reg_xor_add"
  by (auto simp: inv_def no_output_def reg_xor_add_def fatal_def split: if_splits)

lemma no_output_sub_for_add [simp]: "inv no_output sub_for_add"
  by (auto simp: inv_def no_output_def sub_for_add_def setp_def split: if_splits)

lemma no_output_image_filename [simp]: "inv no_output image_filename_for_type"
  by (auto simp: inv_def no_output_def image_filename_for_type_def setp_def
      split: option.splits if_splits)

lemma no_output_show_params [simp]: "inv no_output (show_params env)"
  by (auto simp: inv_def no_output_def show_params_def emit_def split: option.splits if_splits)

definition stage_names :: "string list" where
  "stage_names =
     [''CHECK_FOLDER'',
      ''REORGANIZE'',
      ''DCM2NII'',
      ''SPATIAL_RESAMPLING'',
      ''INTENSITY_RESAMPLING'',
      ''MERGE_MASKS'',
      ''MASK_THRESHOLDING'',
      ''I-WINDOWING'',
      ''I-HARMONIZE'',
      ''N4-BIAS-FIELD-CORRECTION'',
      ''RADIOMICS'',
      ''DELETE'',
      ''SEGMENTATION'',
      ''F-NORMALIZE'',
      ''F-HARMONIZE'',
      ''PREDICT'',
      ''COPY'']"

definition resolver :: "env \<Rightarrow> string \<Rightarrow> (mstate \<Rightarrow> res) list" where
  "resolver env fn =
     (if fn = ''CHECK_FOLDER'' then resolve_CHECK_FOLDER env
      else if fn = ''REORGANIZE'' then resolve_REORGANIZE env
      else if fn = ''DCM2NII'' then resolve_DCM2NII env
      else if fn = ''SPATIAL_RESAMPLING'' then resolve_SPATIAL_RESAMPLING env
      else if fn = ''INTENSITY_RESAMPLING'' then resolve_INTENSITY_RESAMPLING env
      else if fn = ''MERGE_MASKS'' then resolve_MERGE_MASKS env
      else if fn = ''MASK_THRESHOLDING'' then resolve_MASK_THRESHOLDING env
      else if fn = ''I-WINDOWING'' then resolve_I_WINDOWING env
      else if fn = ''I-HARMONIZE'' then resolve_I_HARMONIZE env
      else if fn = ''N4-BIAS-FIELD-CORRECTION'' then resolve_N4_BIAS_FIELD_CORRECTION env
      else if fn = ''RADIOMICS'' then resolve_RADIOMICS env
      else if fn = ''DELETE'' then resolve_DELETE env
      else if fn = ''SEGMENTATION'' then resolve_SEGMENTATION env
      else if fn = ''F-NORMALIZE'' then resolve_F_NORMALIZE env
      else if fn = ''F-HARMONIZE'' then resolve_F_HARMONIZE env
      else if fn = ''PREDICT'' then resolve_PREDICT env
      else if fn = ''COPY'' then resolve_COPY env
      else [])"

definition dispatcher :: "env \<Rightarrow> string \<Rightarrow> mstate \<Rightarrow> res" where
  "dispatcher env fn =
     (if fn = ''CHECK_FOLDER'' then check_folder_launch env
      else if fn = ''REORGANIZE'' then reorganize_dispatch env
      else if fn = ''DCM2NII'' then launch env ''src/dcm2nii_multiprocessing.py'' flags_DCM2NII (running_msg ''dcm2nii_multiprocessing.py'')
      else if fn = ''SPATIAL_RESAMPLING'' then launch env ''src/NiftiSpatialResampling_multiprocessing.py'' flags_SPATIAL_RESAMPLING (running_msg ''NiftiSpatialResampling_multiprocessing.py'')
      else if fn = ''INTENSITY_RESAMPLING'' then launch env ''src/NiftiIntensityResampling_multiprocessing.py'' flags_INTENSITY_RESAMPLING (running_msg ''NiftiSpatialResampling_multiprocessing.py'')
      else if fn = ''MERGE_MASKS'' then launch env ''src/NiftiMergeVolumes_multiprocessing.py'' flags_MERGE_MASKS (running_msg ''NiftiResampling_multiprocessing.py'')
      else if fn = ''MASK_THRESHOLDING'' then launch env ''src/NiftiMaskThresholding_multiprocessing.py'' flags_MASK_THRESHOLDING (running_msg ''NiftiMaskThresholding_multiprocessing.py'')
      else if fn = ''I-WINDOWING'' then launch env ''src/NiftiWindowing_multiprocessing.py'' flags_I_WINDOWING (running_msg ''NiftiWindowing_multiprocessing.py'')
      else if fn = ''I-HARMONIZE'' then launch env ''src/NiftiImageHarmonization_multiprocessing.py'' flags_I_HARMONIZE (running_msg ''NiftiImageHarmonization_multiprocessing.py'')
      else if fn = ''N4-BIAS-FIELD-CORRECTION'' then launch env ''src/NiftiN4BiasFieldCorrection_multiprocessing.py'' flags_N4_BIAS_FIELD_CORRECTION (running_msg ''NiftiN4BiasFieldCorrection_multiprocessing.py'')
      else if fn = ''RADIOMICS'' then launch env ''src/radiomics_multiprocessing.py'' flags_RADIOMICS (running_msg ''radiomics_multiprocessing.py'')
      else if fn = ''DELETE'' then launch env ''src/delete_folder.py'' flags_DELETE (running_msg ''delete_folder.py'')
      else if fn = ''SEGMENTATION'' then segmentation_launch env
      else if fn = ''F-NORMALIZE'' then launch env ''src/feature_normalization.py'' flags_F_NORMALIZE (running_msg ''feature_normalization.py'')
      else if fn = ''F-HARMONIZE'' then launch env ''src/feature_harmonization.py'' flags_F_HARMONIZE (running_msg ''feature_harmonization.py'')
      else if fn = ''PREDICT'' then launch env ''src/predict.py'' flags_PREDICT (running_msg ''predict.py'')
      else if fn = ''COPY'' then launch env ''src/copy_folder_contents.py'' flags_COPY (running_msg ''predict.py'')
      else Cont)"

lemmas stage_defs =
  stage_CHECK_FOLDER_def
  stage_REORGANIZE_def
  stage_DCM2NII_def
  stage_SPATIAL_RESAMPLING_def
  stage_INTENSITY_RESAMPLING_def
  stage_MERGE_MASKS_def
  stage_MASK_THRESHOLDING_def
  stage_I_WINDOWING_def
  stage_I_HARMONIZE_def
  stage_N4_BIAS_FIELD_CORRECTION_def
  stage_RADIOMICS_def
  stage_DELETE_def
  stage_SEGMENTATION_def
  stage_F_NORMALIZE_def
  stage_F_HARMONIZE_def
  stage_PREDICT_def
  stage_COPY_def

lemmas resolve_defs =
  resolve_CHECK_FOLDER_def
  resolve_REORGANIZE_def
  resolve_DCM2NII_def
  resolve_SPATIAL_RESAMPLING_def
  resolve_INTENSITY_RESAMPLING_def
  resolve_MERGE_MASKS_def
  resolve_MASK_THRESHOLDING_def
  resolve_I_WINDOWING_def
  resolve_I_HARMONIZE_def
  resolve_N4_BIAS_FIELD_CORRECTION_def
  resolve_RADIOMICS_def
  resolve_DELETE_def
  resolve_SEGMENTATION_def
  resolve_F_NORMALIZE_def
  resolve_F_HARMONIZE_def
  resolve_PREDICT_def
  resolve_COPY_def

lemmas flags_defs =
  flags_CHECK_FOLDER_def
  flags_REORGANIZE_def
  flags_DCM2NII_def
  flags_SPATIAL_RESAMPLING_def
  flags_INTENSITY_RESAMPLING_def
  flags_MERGE_MASKS_def
  flags_MASK_THRESHOLDING_def
  flags_I_WINDOWING_def
  flags_I_HARMONIZE_def
  flags_N4_BIAS_FIELD_CORRECTION_def
  flags_RADIOMICS_def
  flags_DELETE_def
  flags_SEGMENTATION_def
  flags_F_NORMALIZE_def
  flags_F_HARMONIZE_def
  flags_PREDICT_def
  flags_COPY_def flags_no_reorganize_def


lemma stage_names_cases:
  "fn \<in> set stage_names \<Longrightarrow>
   (fn = ''CHECK_FOLDER'' \<or>
    fn = ''REORGANIZE'' \<or>
    fn = ''DCM2NII'' \<or>
    fn = ''SPATIAL_RESAMPLING'' \<or>
    fn = ''INTENSITY_RESAMPLING'' \<or>
    fn = ''MERGE_MASKS'' \<or>
    fn = ''MASK_THRESHOLDING'' \<or>
    fn = ''I-WINDOWING'' \<or>
    fn = ''I-HARMONIZE'' \<or>
    fn = ''N4-BIAS-FIELD-CORRECTION'' \<or>
    fn = ''RADIOMICS'' \<or>
    fn = ''DELETE'' \<or>
    fn = ''SEGMENTATION'' \<or>
    fn = ''F-NORMALIZE'' \<or>
    fn = ''F-HARMONIZE'' \<or>
    fn = ''PREDICT'' \<or>
    fn = ''COPY'')"
  by (simp add: stage_names_def)

lemma stage_decompose:
  "fn \<in> set stage_names \<Longrightarrow>
   stage env fn = seq (resolver env fn @ [show_params env, dispatcher env fn])"
  by (drule stage_names_cases, elim disjE)
     (simp_all add: stage_def resolver_def dispatcher_def stage_defs)

lemma stage_other: "fn \<notin> set stage_names \<Longrightarrow> stage env fn = Cont"
  by (simp add: stage_names_def stage_def)

lemma resolver_quiet: "list_all quiet (resolver env fn)"
  by (simp add: resolver_def resolve_defs)

lemma resolver_has_output: "list_all (inv (has ''outputFolder'' v)) (resolver env fn)"
  by (simp add: resolver_def resolve_defs)

definition provides :: "string \<Rightarrow> (mstate \<Rightarrow> res) \<Rightarrow> bool" where
  "provides k f \<longleftrightarrow> (\<forall>s s'. f s = Cont s' \<longrightarrow> k \<in> dom (params s'))"

lemma provides_dflt [simp]: "provides k (dflt k d)"
  by (auto simp: provides_def dflt_def)

lemma provides_require [simp]: "provides k (require k m c)"
  by (auto simp: provides_def require_def fatal_def split: option.splits)

lemma provides_derive_assign [simp]:
  "provides ''outputFolder'' (derive_out env (assign ''outputFolder'' d))"
  by (auto simp: provides_def derive_out_def assign_def setp_def split: option.splits pyval.splits)

lemma provides_derive_fatal [simp]:
  "provides ''outputFolder'' (derive_out env (fatal m c))"
  by (auto simp: provides_def derive_out_def fatal_def setp_def split: option.splits pyval.splits)

lemma seq_provides:
  assumes "list_ex (provides k) fs" and "list_all quiet fs" and "seq fs s = Cont s'"
  shows "k \<in> dom (params s')"
  using assms
proof (induction fs arbitrary: s)
  case Nil
  then show ?case by simp
next
  case (Cons f fs)
  from Cons.prems(3) obtain s1 where f1: "f s = Cont s1" and f2: "seq fs s1 = Cont s'"
    by (auto split: res.splits)
  from Cons.prems(2) have qs: "list_all quiet fs" by simp
  show ?case
  proof (cases "provides k f")
    case True
    with f1 have "k \<in> dom (params s1)" unfolding provides_def by blast
    moreover from quiet_seq [OF qs] f2 have "dom (params s1) \<subseteq> dom (params s')"
      unfolding quiet_def by blast
    ultimately show ?thesis by blast
  next
    case False
    with Cons.prems(1) have "list_ex (provides k) fs" by simp
    from Cons.IH [OF this qs f2] show ?thesis .
  qed
qed

subsection \<open>Flags\<close>

lemma flags_Nil: "flags [] env p = Inr []"
  by (simp add: flags_def)

lemma flags_Cons:
  "flags (f # fs) env p = (case f env p of
      Inl e \<Rightarrow> Inl e
    | Inr a \<Rightarrow> (case flags fs env p of Inl e \<Rightarrow> Inl e | Inr b \<Rightarrow> Inr (a @ b)))"
  by (cases "f env p") (auto simp: flags_def split: sum.splits)

definition needs :: "string set \<Rightarrow> flag \<Rightarrow> bool" where
  "needs K f \<longleftrightarrow> (\<forall>env p. K \<subseteq> dom p \<longrightarrow> (\<exists>a. f env p = Inr a))"

lemma needs_opt [simp]: "k \<in> K \<Longrightarrow> needs K (opt f k)"
  by (auto simp: needs_def opt_def split: option.splits)

lemma needs_sw [simp]: "k \<in> K \<Longrightarrow> needs K (sw f k)"
  by (auto simp: needs_def sw_def split: option.splits)

lemma needs_sw_not [simp]: "k \<in> K \<Longrightarrow> needs K (sw_not f k)"
  by (auto simp: needs_def sw_not_def split: option.splits)

lemma needs_sw_and [simp]: "k1 \<in> K \<Longrightarrow> k2 \<in> K \<Longrightarrow> needs K (sw_and f k1 k2)"
  by (auto simp: needs_def sw_and_def split: option.splits)

lemma needs_opt_given [simp]: "k \<in> K \<Longrightarrow> needs K (opt_given f k)"
  by (auto simp: needs_def opt_given_def split: option.splits)

lemma needs_flags [simp]: "list_all (needs K) fs \<Longrightarrow> needs K (flags fs)"
proof (induction fs)
  case Nil
  show ?case by (simp add: needs_def flags_Nil)
next
  case (Cons f fs)
  then have a: "needs K f" and b: "needs K (flags fs)" by simp_all
  show ?case unfolding needs_def
  proof (intro allI impI)
    fix env :: env and p :: "string \<rightharpoonup> pyval"
    assume k: "K \<subseteq> dom p"
    from a k obtain x where x: "f env p = Inr x" unfolding needs_def by blast
    from b k obtain y where y: "flags fs env p = Inr y" unfolding needs_def by blast
    show "\<exists>a. flags (f # fs) env p = Inr a" by (simp add: flags_Cons x y)
  qed
qed

lemma flags_head:
  assumes "flags (opt f k # rest) env p = Inr a" and "p k = Some v"
  shows "\<exists>a'. a = f # py_str env v # a'"
  using assms by (auto simp: flags_Cons opt_def split: sum.splits)

subsection \<open>Dispatch\<close>

lemma try_run_effect:
  "params (try_run env m prog s) = params s \<and> gparams (try_run env m prog s) = gparams s \<and>
   previous_outFolder (try_run env m prog s) = previous_outFolder s \<and>
   (\<exists>evs. out (try_run env m prog s) = out s @ evs \<and>
      calls evs = (if ''timer'' \<in> dom (params s) then [prog] else []))"
  by (auto simp: try_run_def timed_def emit_def split: option.splits)

lemma launch_Cont:
  assumes "launch env script fl m s = Cont s'"
  shows "\<exists>a evs. fl env (params s) = Inr a \<and> params s' = params s \<and> gparams s' = gparams s \<and>
     previous_outFolder s' = previous_outFolder s \<and> out s' = out s @ evs \<and>
     calls evs = (if ''timer'' \<in> dom (params s) then [''python'' # script # a] else [])"
proof -
  from assms obtain a where a: "fl env (params s) = Inr a"
    and s': "s' = try_run env m (''python'' # script # a) s"
    by (auto simp: launch_def split: sum.splits)
  from try_run_effect [of env m "''python'' # script # a" s] a s' show ?thesis by blast
qed


lemma check_folder_try_effect:
  "params (check_folder_try env prog s) = params s \<and>
   previous_outFolder (check_folder_try env prog s) = previous_outFolder s \<and>
   (\<exists>evs. out (check_folder_try env prog s) = out s @ evs \<and>
      calls evs = (if ''timer'' \<in> dom (params s) then [prog] else []))"
  by (auto simp: check_folder_try_def structure_shown_def setg_def timed_def emit_def Let_def
      split: option.splits)

lemma check_folder_launch_Cont:
  assumes "check_folder_launch env s = Cont s'"
  shows "\<exists>a evs. flags_CHECK_FOLDER env (params s) = Inr a \<and> params s' = params s \<and>
     previous_outFolder s' = previous_outFolder s \<and> out s' = out s @ evs \<and>
     calls evs = (if ''timer'' \<in> dom (params s)
                  then [''python'' # ''src/StructFolderCheck.py'' # a] else [])"
proof -
  from assms obtain a where a: "flags_CHECK_FOLDER env (params s) = Inr a"
    and s': "s' = check_folder_try env (''python'' # ''src/StructFolderCheck.py'' # a) s"
    by (auto simp: check_folder_launch_def split: sum.splits)
  from check_folder_try_effect [of env "''python'' # ''src/StructFolderCheck.py'' # a" s] a s'
  show ?thesis by blast
qed


lemma segmentation_try_effect:
  "params (segmentation_try env prog s) = params s \<and>
   previous_outFolder (segmentation_try env prog s) = previous_outFolder s \<and>
   (\<exists>evs. out (segmentation_try env prog s) = out s @ evs \<and>
      calls evs = (if ''timer'' \<in> dom (params s) then [prog] else []))"
  by (auto simp: segmentation_try_def setg_def timed_def emit_def Let_def split: option.splits)

lemma segmentation_launch_Cont:
  assumes "segmentation_launch env s = Cont s'"
  shows "\<exists>a evs. flags_SEGMENTATION env (params s) = Inr a \<and> params s' = params s \<and>
     previous_outFolder s' = previous_outFolder s \<and> out s' = out s @ evs \<and>
     calls evs = (if ''timer'' \<in> dom (params s)
                  then [''python'' # ''src/segmentation_multiprocessing.py'' # a] else [])"
proof -
  from assms obtain a where a: "flags_SEGMENTATION env (params s) = Inr a"
    and s': "s' = segmentation_try env (''python'' # ''src/segmentation_multiprocessing.py'' # a) s"
    by (auto simp: segmentation_launch_def split: sum.splits)
  from segmentation_try_effect [of env "''python'' # ''src/segmentation_multiprocessing.py'' # a" s]
    a s'
  show ?thesis by blast
qed


section \<open>\<open>CHECK_FOLDER\<close> on a folder of unknown structure\<close>

definition present :: "string \<Rightarrow> mstate \<Rightarrow> bool" where
  "present k s \<longleftrightarrow> k \<in> dom (params s)"

lemma inv_present [simp]: "quiet f \<Longrightarrow> inv (present k) f"
  unfolding inv_def present_def quiet_def by blast

definition total_on :: "(mstate \<Rightarrow> bool) \<Rightarrow> (mstate \<Rightarrow> res) \<Rightarrow> bool" where
  "total_on I f \<longleftrightarrow> (\<forall>s. I s \<longrightarrow> (\<exists>s'. f s = Cont s'))"

lemma total_dflt [simp]: "total_on I (dflt k d)"
  by (simp add: total_on_def dflt_def)

lemma total_require [simp]: "total_on (present k) (require k m c)"
  by (auto simp: total_on_def present_def require_def split: option.splits)

lemma total_dot [simp]: "total_on (present ''inputFolder'') (dot env)"
  by (auto simp: total_on_def present_def dot_def split: option.splits)

lemma total_prev [simp]: "total_on (present k) (prev k)"
  by (auto simp: total_on_def present_def prev_def split: option.splits)


lemma series_get_key: "series_get cfg k = Inr v \<Longrightarrow> k \<in> set (map fst cfg)"
proof -
  assume a: "series_get cfg k = Inr v"
  then have "filter (\<lambda>kv. fst kv = k) cfg \<noteq> []"
    by (auto simp: series_get_def)
  then obtain kv where "kv \<in> set cfg" "fst kv = k"
    by (metis (mono_tags, lifting) filter_empty_conv)
  then show ?thesis by force
qed



lemma update_previous_frame:
  "gparams (update_previous s) = gparams s \<and> out (update_previous s) = out s \<and>
   params (update_previous s) = params s"
  by (simp add: update_previous_def split: option.splits)



section \<open>The three-way branch of \<open>REORGANIZE\<close>\<close>

lemma seq_snoc:
  "seq (fs @ [g]) s = (case seq fs s of Stop st s' \<Rightarrow> Stop st s' | Cont s' \<Rightarrow> g s')"
  by (simp add: seq_append split: res.splits)

lemma seq_tail:
  assumes "seq (fs @ [g]) s = Cont s1"
  shows "seq (fs @ [g, h]) s = h s1"
proof -
  have "seq (fs @ [g, h]) s = seq ((fs @ [g]) @ [h]) s" by simp
  also have "\<dots> = h s1" unfolding seq_snoc [of "fs @ [g]"] assms by simp
  finally show ?thesis .
qed

lemma calls_emit_Print [simp]: "calls (out (emit (Print m) s)) = calls (out s)"
  by (simp add: emit_def calls_append)

definition reorganize_keys :: "string set" where
  "reorganize_keys = {''inputFolder'', ''outputFolder'', ''log'', ''verbose'', ''new_log_file'',
     ''with-segmentation'', ''all-data-with-segmentation'', ''inplace'', ''skip'', ''include'',
     ''multiprocessing'', ''mv''}"

lemma reorganize_resolved:
  assumes "seq (resolve_REORGANIZE env @ [show_params env]) s = Cont s1"
  shows "reorganize_keys \<subseteq> dom (params s1) \<and> ''timer'' \<in> dom (params s1) \<and>
     gparams s1 = gparams s \<and> calls (out s1) = calls (out s)"
proof -
  have q: "list_all quiet (resolve_REORGANIZE env @ [show_params env])"
    by (simp add: resolve_REORGANIZE_def)
  from quiet_seq [OF q] assms obtain evs where
    "gparams s1 = gparams s" "out s1 = out s @ evs" "calls evs = []"
    unfolding quiet_def by blast
  then have "gparams s1 = gparams s \<and> calls (out s1) = calls (out s)"
    by (simp add: calls_append)
  moreover have "reorganize_keys \<subseteq> dom (params s1)" and "''timer'' \<in> dom (params s1)"
    using seq_provides [OF _ q assms]
    by (simp_all add: reorganize_keys_def resolve_REORGANIZE_def)
  ultimately show ?thesis by blast
qed

lemma needs_no_reorganize: "needs reorganize_keys flags_no_reorganize"
  by (simp add: flags_no_reorganize_def reorganize_keys_def)

lemma needs_reorganize: "needs reorganize_keys flags_REORGANIZE"
  by (simp add: flags_REORGANIZE_def reorganize_keys_def)

lemma launch_runs:
  assumes "fl env (params s) = Inr a" and "''timer'' \<in> dom (params s)"
  shows "\<exists>s'. launch env script fl m s = Cont s' \<and>
     calls (out s') = calls (out s) @ [''python'' # script # a]"
proof -
  have l: "launch env script fl m s = Cont (try_run env m (''python'' # script # a) s)"
    by (simp add: launch_def assms(1))
  from try_run_effect [of env m "''python'' # script # a" s] assms(2)
  obtain evs where "out (try_run env m (''python'' # script # a) s) = out s @ evs"
    "calls evs = [''python'' # script # a]" by auto
  then have "calls (out (try_run env m (''python'' # script # a) s)) =
     calls (out s) @ [''python'' # script # a]" by (simp add: calls_append)
  with l show ?thesis by simp
qed

text \<open>
  The three branches, with the test \<open>params['inplace'] == False\<close> of the \<open>Ready\<close>
  branch as \<open>eq_bool\<close>.
\<close>

lemma reorganize_branches:
  assumes "seq (resolve_REORGANIZE env @ [show_params env]) s = Cont s1"
  shows "(gparams s ''Structure'' = Some (VStr ''Invalid'') \<longrightarrow>
           (\<exists>s'. stage_REORGANIZE env s = Stop (SysExit 0) s' \<and> calls (out s') = calls (out s))) \<and>
         (gparams s ''Structure'' = Some (VStr ''Ready'') \<longrightarrow>
           (\<exists>s' ip a. stage_REORGANIZE env s = Cont s' \<and> params s1 ''inplace'' = Some ip \<and>
              flags_no_reorganize env (params s1) = Inr a \<and>
              calls (out s') = calls (out s) @
                (if eq_bool env ip False then [''python'' # ''src/no_reorganize.py'' # a] else []))) \<and>
         (gparams s ''Structure'' \<noteq> Some (VStr ''Invalid'') \<and>
          gparams s ''Structure'' \<noteq> Some (VStr ''Ready'') \<longrightarrow>
           (\<exists>s' a. stage_REORGANIZE env s = Cont s' \<and> flags_REORGANIZE env (params s1) = Inr a \<and>
              calls (out s') = calls (out s) @ [''python'' # ''src/reorganize_multiprocessing.py'' # a]))"
proof -
  from reorganize_resolved [OF assms]
  have keys: "reorganize_keys \<subseteq> dom (params s1)" and timer: "''timer'' \<in> dom (params s1)"
    and g: "gparams s1 = gparams s" and c: "calls (out s1) = calls (out s)" by blast+
  have st: "stage_REORGANIZE env s = reorganize_dispatch env s1"
    unfolding stage_REORGANIZE_def by (rule seq_tail [OF assms])
  from keys needs_no_reorganize obtain a1 where a1: "flags_no_reorganize env (params s1) = Inr a1"
    unfolding needs_def by blast
  from keys needs_reorganize obtain a2 where a2: "flags_REORGANIZE env (params s1) = Inr a2"
    unfolding needs_def by blast
  from keys obtain ip where ip: "params s1 ''inplace'' = Some ip"
    by (auto simp: reorganize_keys_def)
  show ?thesis
  proof (intro conjI impI)
    assume "gparams s ''Structure'' = Some (VStr ''Invalid'')"
    with g have "reorganize_dispatch env s1 = Stop (SysExit 0)
       (emit (Print ''ERROR! Current folder cannot be reorganize'')
         (emit (Print (structure_msg @ '' '' @ py_str env (VStr ''Invalid''))) s1))"
      by (simp add: reorganize_dispatch_def structure_default_def reorganize_branch_def fatal_def)
    with st c show "\<exists>s'. stage_REORGANIZE env s = Stop (SysExit 0) s' \<and>
        calls (out s') = calls (out s)" by simp
  next
    assume r: "gparams s ''Structure'' = Some (VStr ''Ready'')"
    define s2 where "s2 = emit (Print ''Current folder is already ready for processing'')
         (emit (Print (structure_msg @ '' '' @ py_str env (VStr ''Ready''))) s1)"
    have p2: "params s2 = params s1" and c2: "calls (out s2) = calls (out s)"
      using c by (simp_all add: s2_def emit_def calls_append)
    have d: "reorganize_dispatch env s1 =
       (if eq_bool env ip False
        then launch env ''src/no_reorganize.py'' flags_no_reorganize (running_msg ''no_reorganize.py'') s2
        else Cont s2)"
      using r g ip
      by (simp add: reorganize_dispatch_def structure_default_def reorganize_branch_def s2_def
          emit_def Let_def)
    show "\<exists>s' ip a. stage_REORGANIZE env s = Cont s' \<and> params s1 ''inplace'' = Some ip \<and>
              flags_no_reorganize env (params s1) = Inr a \<and>
              calls (out s') = calls (out s) @
                (if eq_bool env ip False then [''python'' # ''src/no_reorganize.py'' # a] else [])"
    proof (cases "eq_bool env ip False")
      case True
      from launch_runs [of flags_no_reorganize env s2 a1 "''src/no_reorganize.py''"
          "running_msg ''no_reorganize.py''"] a1 timer p2
      obtain s' where "launch env ''src/no_reorganize.py'' flags_no_reorganize
          (running_msg ''no_reorganize.py'') s2 = Cont s'"
        "calls (out s') = calls (out s2) @ [''python'' # ''src/no_reorganize.py'' # a1]"
        by auto
      with True st d ip a1 c2 show ?thesis by auto
    next
      case False
      with st d ip a1 c2 show ?thesis by auto
    qed
  next
    assume n: "gparams s ''Structure'' \<noteq> Some (VStr ''Invalid'') \<and>
          gparams s ''Structure'' \<noteq> Some (VStr ''Ready'')"
    obtain stv where stv: "gparams (structure_default s1) ''Structure'' = Some stv"
      "stv \<noteq> VStr ''Invalid''" "stv \<noteq> VStr ''Ready''"
      using n g by (cases "gparams s1 ''Structure''") (auto simp: structure_default_def setg_def)
    define s2 where "s2 = emit (Print (structure_msg @ '' '' @ py_str env stv)) (structure_default s1)"
    have p2: "params s2 = params s1" and c2: "calls (out s2) = calls (out s)"
      using c by (simp_all add: s2_def emit_def calls_append structure_default_def setg_def
          split: option.splits)
    have d: "reorganize_dispatch env s1 =
       launch env ''src/reorganize_multiprocessing.py'' flags_REORGANIZE (running_msg ''reorganize.py'') s2"
      using stv by (simp add: reorganize_dispatch_def reorganize_branch_def s2_def Let_def)
    from launch_runs [of flags_REORGANIZE env s2 a2 "''src/reorganize_multiprocessing.py''"
          "running_msg ''reorganize.py''"] a2 timer p2
    obtain s' where "launch env ''src/reorganize_multiprocessing.py'' flags_REORGANIZE
          (running_msg ''reorganize.py'') s2 = Cont s'"
      "calls (out s') = calls (out s2) @ [''python'' # ''src/reorganize_multiprocessing.py'' # a2]"
      by auto
    with st d a2 c2 show "\<exists>s' a. stage_REORGANIZE env s = Cont s' \<and>
        flags_REORGANIZE env (params s1) = Inr a \<and>
        calls (out s') = calls (out s) @ [''python'' # ''src/reorganize_multiprocessing.py'' # a]"
      by auto
  qed
qed

lemma eq_bool_False:
  "(if eq_bool env ip False then xs else []) =
     (case ip of
        VBool b \<Rightarrow> if b then [] else xs
      | VInt n \<Rightarrow> if n = 0 then xs else []
      | VFloat l \<Rightarrow> if float_eq env l 0 then xs else []
      | _ \<Rightarrow> [])"
  by (cases ip) (simp_all add: eq_bool_def)

text \<open>
  C4, as the code has it. A \<open>REORGANIZE\<close> stage whose parameters pass validation (\<open>s1\<close>
  is the state with the resolved parameters) branches on \<open>global_params['Structure']\<close>.
  On \<open>Invalid\<close> the run exits and the stage has invoked no collaborator. On \<open>Ready\<close> the
  stage returns and never invokes the full reorganization; it invokes \<open>no_reorganize.py\<close>
  exactly when \<open>params['inplace'] == False\<close> holds in Python, that is when \<open>inplace\<close> is
  the boolean \<open>False\<close> (the default) or a number equal to zero, and it invokes nothing
  for every other value: the boolean \<open>True\<close>, a non-zero number, any string (also
  \<open>FALSE\<close> or \<open>no\<close>), a list or \<open>None\<close>. On any other value of \<open>Structure\<close>, or none,
  the stage invokes \<open>reorganize_multiprocessing.py\<close>.
\<close>

theorem reorganize_three_way:
  assumes "seq (resolve_REORGANIZE env @ [show_params env]) s = Cont s1"
  shows "(gparams s ''Structure'' = Some (VStr ''Invalid'') \<longrightarrow>
           (\<exists>s'. stage_REORGANIZE env s = Stop (SysExit 0) s' \<and> calls (out s') = calls (out s))) \<and>
         (gparams s ''Structure'' = Some (VStr ''Ready'') \<longrightarrow>
           (\<exists>s' ip a. stage_REORGANIZE env s = Cont s' \<and> params s1 ''inplace'' = Some ip \<and>
              flags_no_reorganize env (params s1) = Inr a \<and>
              calls (out s') = calls (out s) @
                (case ip of
                   VBool b \<Rightarrow> if b then [] else [''python'' # ''src/no_reorganize.py'' # a]
                 | VInt n \<Rightarrow> if n = 0 then [''python'' # ''src/no_reorganize.py'' # a] else []
                 | VFloat l \<Rightarrow>
                     if float_eq env l 0 then [''python'' # ''src/no_reorganize.py'' # a] else []
                 | _ \<Rightarrow> []))) \<and>
         (gparams s ''Structure'' \<noteq> Some (VStr ''Invalid'') \<and>
          gparams s ''Structure'' \<noteq> Some (VStr ''Ready'') \<longrightarrow>
           (\<exists>s' a. stage_REORGANIZE env s = Cont s' \<and> flags_REORGANIZE env (params s1) = Inr a \<and>
              calls (out s') = calls (out s) @ [''python'' # ''src/reorganize_multiprocessing.py'' # a]))"
  using reorganize_branches [OF assms] unfolding eq_bool_False .

section \<open>\<open>MERGE_MASKS\<close> reads a parameter that is never defaulted\<close>

text \<open>
  C9. A \<open>MERGE_MASKS\<close> stage that passes validation (which includes the test that
  exactly one of \<open>reg\<close> and \<open>add\<close> is given) and has no parameter \<open>mask_name\<close> ends
  the run with an uncaught \<open>KeyError\<close> for \<open>mask_name\<close>, raised while the flags are
  built: no collaborator has been invoked by the stage.
\<close>

theorem merge_masks_mask_name:
  assumes "seq (resolve_MERGE_MASKS env @ [show_params env]) s = Cont s1"
    and "''mask_name'' \<notin> dom (params s)"
  shows "stage_MERGE_MASKS env s = Stop (Uncaught (KeyError ''mask_name'')) s1 \<and>
     calls (out s1) = calls (out s)"
proof -
  have q: "list_all quiet (resolve_MERGE_MASKS env @ [show_params env])"
    by (simp add: resolve_MERGE_MASKS_def)
  from quiet_seq [OF q] assms(1) obtain evs where "out s1 = out s @ evs" "calls evs = []"
    unfolding quiet_def by blast
  then have c: "calls (out s1) = calls (out s)" by (simp add: calls_append)
  have "list_all (inv (unset ''mask_name'')) (resolve_MERGE_MASKS env @ [show_params env])"
    by (simp add: resolve_MERGE_MASKS_def)
  from inv_seq [OF this] assms have m: "params s1 ''mask_name'' = None"
    unfolding inv_def unset_def by blast
  have "''inputFolder'' \<in> dom (params s1)" "''outputFolder'' \<in> dom (params s1)"
    "''log'' \<in> dom (params s1)" "''multiprocessing'' \<in> dom (params s1)"
    using seq_provides [OF _ q assms(1)] by (simp_all add: resolve_MERGE_MASKS_def)
  then obtain v1 v2 v3 v4 where v: "params s1 ''inputFolder'' = Some v1"
    "params s1 ''outputFolder'' = Some v2" "params s1 ''log'' = Some v3"
    "params s1 ''multiprocessing'' = Some v4" by blast
  have f: "flags_MERGE_MASKS env (params s1) = Inl (KeyError ''mask_name'')"
    by (simp add: flags_MERGE_MASKS_def flags_Cons opt_def v m)
  have "stage_MERGE_MASKS env s =
     launch env ''src/NiftiMergeVolumes_multiprocessing.py'' flags_MERGE_MASKS
       (running_msg ''NiftiResampling_multiprocessing.py'') s1"
    unfolding stage_MERGE_MASKS_def by (rule seq_tail [OF assms(1)])
  with f c show ?thesis by (simp add: launch_def)
qed

section \<open>The output folder of the previous stage\<close>

subsection \<open>What does not depend on the collaborators\<close>

lemma py_str_sub [simp]: "py_str (env\<lparr>subprocess := sub\<rparr>) v = py_str env v"
  by (simp add: py_str_def split: pyval.splits)

lemma py_truthy_sub [simp]: "py_truthy (env\<lparr>subprocess := sub\<rparr>) v = py_truthy env v"
  by (simp add: py_truthy_def split: pyval.splits)

lemma eq_bool_sub [simp]: "eq_bool (env\<lparr>subprocess := sub\<rparr>) v b = eq_bool env v b"
  by (simp add: eq_bool_def split: pyval.splits)

lemma gt_one_sub [simp]: "gt_one (env\<lparr>subprocess := sub\<rparr>) v = gt_one env v"
  by (simp add: gt_one_def split: pyval.splits)

lemma opt_sub [simp]: "opt f k (env\<lparr>subprocess := sub\<rparr>) p = opt f k env p"
  by (simp add: opt_def split: option.splits)

lemma sw_sub [simp]: "sw f k (env\<lparr>subprocess := sub\<rparr>) p = sw f k env p"
  by (simp add: sw_def split: option.splits)

lemma sw_not_sub [simp]: "sw_not f k (env\<lparr>subprocess := sub\<rparr>) p = sw_not f k env p"
  by (simp add: sw_not_def split: option.splits)

lemma sw_and_sub [simp]: "sw_and f k1 k2 (env\<lparr>subprocess := sub\<rparr>) p = sw_and f k1 k2 env p"
  by (simp add: sw_and_def split: option.splits)

lemma opt_given_sub [simp]: "opt_given f k (env\<lparr>subprocess := sub\<rparr>) p = opt_given f k env p"
  by (simp add: opt_given_def split: option.splits)

lemma flags_sub: "flags_of (env\<lparr>subprocess := sub\<rparr>) p = flags_of env p"
  if "flags_of \<in> set [flags_CHECK_FOLDER, flags_REORGANIZE, flags_no_reorganize, flags_DCM2NII,
     flags_SPATIAL_RESAMPLING, flags_INTENSITY_RESAMPLING, flags_MERGE_MASKS,
     flags_MASK_THRESHOLDING, flags_I_WINDOWING, flags_I_HARMONIZE,
     flags_N4_BIAS_FIELD_CORRECTION, flags_RADIOMICS, flags_DELETE, flags_SEGMENTATION,
     flags_F_NORMALIZE, flags_F_HARMONIZE, flags_PREDICT, flags_COPY]"
  using that by (auto simp: flags_defs flags_def if_key_def)

lemma dot_sub [simp]: "dot (env\<lparr>subprocess := sub\<rparr>) = dot env"
  by (simp add: dot_def fun_eq_iff split: option.splits)

lemma derive_out_sub [simp]: "derive_out (env\<lparr>subprocess := sub\<rparr>) f = derive_out env f"
  by (simp add: derive_out_def fun_eq_iff split: option.splits pyval.splits)

lemma save_check_sub [simp]:
  "save_at_the_end_check (env\<lparr>subprocess := sub\<rparr>) = save_at_the_end_check env"
  by (simp add: save_at_the_end_check_def fun_eq_iff split: option.splits sum.splits)

lemma show_params_sub [simp]: "show_params (env\<lparr>subprocess := sub\<rparr>) = show_params env"
  by (simp add: show_params_def fun_eq_iff split: option.splits)

lemma resolver_sub: "resolver (env\<lparr>subprocess := sub\<rparr>) fn = resolver env fn"
  by (simp add: resolver_def resolve_defs)

lemma seq_snoc_Cont:
  "seq (fs @ [g]) s = Cont s' \<longleftrightarrow> (\<exists>s1. seq fs s = Cont s1 \<and> g s1 = Cont s')"
  by (cases "seq fs s") (simp_all add: seq_snoc)

lemma seq_snoc2_Cont:
  "seq (fs @ [g, h]) s = Cont s' \<longleftrightarrow> (\<exists>s1. seq (fs @ [g]) s = Cont s1 \<and> h s1 = Cont s')"
proof -
  have "seq (fs @ [g, h]) s = seq ((fs @ [g]) @ [h]) s" by simp
  then show ?thesis by (simp only: seq_snoc_Cont)
qed

lemma reorganize_dispatch_frame:
  assumes "reorganize_dispatch env s = Cont s'"
  shows "params s' = params s \<and> previous_outFolder s' = previous_outFolder s"
proof -
  define s1 where "s1 = structure_default s"
  have f1: "params s1 = params s \<and> previous_outFolder s1 = previous_outFolder s"
    by (simp add: s1_def structure_default_def setg_def split: option.splits)
  from assms obtain st where st: "gparams s1 ''Structure'' = Some st"
    and b: "reorganize_branch env st (emit (Print (structure_msg @ '' '' @ py_str env st)) s1) = Cont s'"
    by (auto simp: reorganize_dispatch_def s1_def Let_def split: option.splits)
  define s2 where "s2 = emit (Print (structure_msg @ '' '' @ py_str env st)) s1"
  have f2: "params s2 = params s \<and> previous_outFolder s2 = previous_outFolder s"
    using f1 by (simp add: s2_def emit_def)
  from b have "reorganize_branch env st s2 = Cont s'" by (simp add: s2_def)
  then have "params s' = params s2 \<and> previous_outFolder s' = previous_outFolder s2"
    by (auto simp: reorganize_branch_def fatal_def emit_def Let_def
        split: if_splits option.splits dest!: launch_Cont)
  with f2 show ?thesis by simp
qed

lemma dispatcher_frame:
  assumes "dispatcher env fn s = Cont s'"
  shows "params s' = params s \<and> previous_outFolder s' = previous_outFolder s"
  using assms
  by (auto simp: dispatcher_def split: if_splits
      dest: launch_Cont check_folder_launch_Cont segmentation_launch_Cont
        reorganize_dispatch_frame)

lemma launch_sub:
  assumes "fl (env\<lparr>subprocess := sub\<rparr>) (params s) = fl env (params s)"
    and "launch env script fl m s = Cont s'"
  shows "\<exists>s''. launch (env\<lparr>subprocess := sub\<rparr>) script fl m s = Cont s''"
  using assms by (auto simp: launch_def split: sum.splits)

lemma reorganize_dispatch_sub:
  assumes "reorganize_dispatch env s = Cont s'"
  shows "\<exists>s''. reorganize_dispatch (env\<lparr>subprocess := sub\<rparr>) s = Cont s''"
  using assms
  by (auto simp: reorganize_dispatch_def reorganize_branch_def fatal_def launch_def Let_def
      flags_sub emit_def split: option.splits if_splits sum.splits)

lemma dispatcher_sub:
  assumes "dispatcher env fn s = Cont s'"
  shows "\<exists>s''. dispatcher (env\<lparr>subprocess := sub\<rparr>) fn s = Cont s''"
  using assms
  by (auto simp: dispatcher_def launch_def check_folder_launch_def segmentation_launch_def
      flags_sub reorganize_dispatch_sub split: if_splits sum.splits)

lemma stage_frame:
  assumes "stage env fn s = Cont s'"
  shows "previous_outFolder s' = previous_outFolder s"
proof (cases "fn \<in> set stage_names")
  case True
  with assms obtain s1 s2 where 1: "seq (resolver env fn) s = Cont s1"
    and 2: "show_params env s1 = Cont s2" and 3: "dispatcher env fn s2 = Cont s'"
    by (auto simp: stage_decompose seq_snoc2_Cont seq_snoc_Cont)
  from quiet_seq [OF resolver_quiet] 1 have "previous_outFolder s1 = previous_outFolder s"
    unfolding quiet_def by blast
  moreover from quiet_show_params 2 have "previous_outFolder s2 = previous_outFolder s1"
    unfolding quiet_def by blast
  moreover from dispatcher_frame [OF 3] have "previous_outFolder s' = previous_outFolder s2" by simp
  ultimately show ?thesis by simp
next
  case False
  with assms show ?thesis by (simp add: stage_other)
qed

lemma stage_sub:
  assumes "stage env fn s = Cont s'"
  shows "\<exists>s''. stage (env\<lparr>subprocess := sub\<rparr>) fn s = Cont s'' \<and> params s'' = params s'"
proof (cases "fn \<in> set stage_names")
  case True
  with assms obtain s1 s2 where 1: "seq (resolver env fn) s = Cont s1"
    and 2: "show_params env s1 = Cont s2" and 3: "dispatcher env fn s2 = Cont s'"
    by (auto simp: stage_decompose seq_snoc2_Cont seq_snoc_Cont)
  from dispatcher_sub [OF 3] obtain s'' where
    4: "dispatcher (env\<lparr>subprocess := sub\<rparr>) fn s2 = Cont s''" ..
  from dispatcher_frame [OF 3] dispatcher_frame [OF 4] have "params s'' = params s'" by simp
  moreover have "stage (env\<lparr>subprocess := sub\<rparr>) fn s = Cont s''"
    using True 1 2 4 by (auto simp: stage_decompose seq_snoc2_Cont seq_snoc_Cont resolver_sub)
  ultimately show ?thesis by blast
next
  case False
  with assms show ?thesis by (simp add: stage_other)
qed

text \<open>
  C8. After an iteration of the run loop that returns, \<open>previous_outFolder\<close> is the
  \<open>outputFolder\<close> of the resolved parameters when there is one and it is not the empty
  string, and is unchanged otherwise. The collaborators have no say in it: with any
  other behaviour of the collaborators the iteration returns as well, with the same
  resolved parameters and the same \<open>previous_outFolder\<close>.
\<close>

theorem previous_outFolder_update:
  assumes "run_cfg env s cfg = Cont s'"
  shows "previous_outFolder s' =
           (case params s' ''outputFolder'' of
              None \<Rightarrow> previous_outFolder s
            | Some v \<Rightarrow> if v = VStr [] then previous_outFolder s else v) \<and>
         (\<forall>sub. \<exists>s''. run_cfg (env\<lparr>subprocess := sub\<rparr>) s cfg = Cont s'' \<and>
            params s'' = params s' \<and> previous_outFolder s'' = previous_outFolder s')"
proof -
  from assms obtain fn where fn: "series_get cfg ''function'' = Inr fn"
    by (auto simp: run_cfg_def split: sum.splits)
  have upd: "\<And>t. previous_outFolder (update_previous t) =
      (case params (update_previous t) ''outputFolder'' of
         None \<Rightarrow> previous_outFolder t
       | Some v \<Rightarrow> if v = VStr [] then previous_outFolder t else v) \<and>
      params (update_previous t) = params t"
    by (simp add: update_previous_def split: option.splits)
  have same: "\<And>t u. params t = params u \<Longrightarrow> previous_outFolder t = previous_outFolder u \<Longrightarrow>
      previous_outFolder (update_previous t) = previous_outFolder (update_previous u)"
    by (simp add: update_previous_def split: option.splits)
  show ?thesis
  proof (cases "fn = ''GLOBAL_PARAMETERS''")
    case True
    with assms fn have s': "s' = update_previous s" by (simp add: run_cfg_def)
    have "\<And>sub. run_cfg (env\<lparr>subprocess := sub\<rparr>) s cfg = Cont s'"
      using True fn s' by (simp add: run_cfg_def)
    with upd [of s] s' show ?thesis by auto
  next
    case False
    with assms fn obtain p s1 where p: "fill (py_eval env) cfg (map fst cfg) (gparams s) = Inr p"
      and s1: "stage env fn (s\<lparr>params := p\<rparr>) = Cont s1" and s': "s' = update_previous s1"
      by (auto simp: run_cfg_def split: sum.splits res.splits)
    from stage_frame [OF s1] have pr: "previous_outFolder s1 = previous_outFolder s" by simp
    have a: "previous_outFolder s' =
           (case params s' ''outputFolder'' of
              None \<Rightarrow> previous_outFolder s
            | Some v \<Rightarrow> if v = VStr [] then previous_outFolder s else v)"
      using upd [of s1] s' pr by (simp split: option.splits)
    have b: "\<exists>s''. run_cfg (env\<lparr>subprocess := sub\<rparr>) s cfg = Cont s'' \<and>
            params s'' = params s' \<and> previous_outFolder s'' = previous_outFolder s'" for sub
    proof -
      from stage_sub [OF s1, of sub] obtain s2 where
        s2: "stage (env\<lparr>subprocess := sub\<rparr>) fn (s\<lparr>params := p\<rparr>) = Cont s2"
        and ps: "params s2 = params s1" by blast
      from stage_frame [OF s2] pr have "previous_outFolder s2 = previous_outFolder s1" by simp
      from same [OF ps this] upd [of s2] upd [of s1] ps s'
      have "params (update_previous s2) = params s' \<and>
         previous_outFolder (update_previous s2) = previous_outFolder s'" by simp
      moreover have "run_cfg (env\<lparr>subprocess := sub\<rparr>) s cfg = Cont (update_previous s2)"
        using False fn p s2 by (simp add: run_cfg_def)
      ultimately show ?thesis by blast
    qed
    from a b show ?thesis by blast
  qed
qed

section \<open>Examples\<close>

definition example_state :: "(string \<rightharpoonup> pyval) \<Rightarrow> (string \<rightharpoonup> pyval) \<Rightarrow> mstate" where
  "example_state g p = \<lparr>gparams = g, params = p, previous_outFolder = VStr [], out = []\<rparr>"

lemmas step_eval = dflt_def require_def fatal_def assign_def dot_def prev_def derive_out_def
  show_params_def setp_def emit_def reg_xor_add_def sub_for_add_def configs_given_def
  save_at_the_end_check_def image_filename_for_type_def rstrip_def py_str_def PREVIOUS_def


lemma reorganize_example_resolves:
  "\<exists>s1. seq (resolve_REORGANIZE (answering []) @ [show_params (answering [])])
      (example_state g [''inputFolder'' \<mapsto> VStr ''/data'']) = Cont s1 \<and>
     params s1 ''inplace'' = Some (VBool False)"
  by (simp add: resolve_REORGANIZE_def step_eval example_state_def answering_def)

lemma reorganize_inplace_resolves:
  "\<exists>s1. seq (resolve_REORGANIZE (answering []) @ [show_params (answering [])])
      (example_state g [''inputFolder'' \<mapsto> VStr ''/data'', ''inplace'' \<mapsto> v]) = Cont s1 \<and>
     params s1 ''inplace'' = Some v"
  by (simp add: resolve_REORGANIZE_def step_eval example_state_def answering_def)

theorem reorganize_three_way_witness:
  "(\<exists>s'. stage_REORGANIZE (answering [])
       (example_state [''Structure'' \<mapsto> VStr ''Invalid''] [''inputFolder'' \<mapsto> VStr ''/data'']) =
       Stop (SysExit 0) s' \<and> calls (out s') = []) \<and>
   (\<exists>s' a. stage_REORGANIZE (answering [])
       (example_state [''Structure'' \<mapsto> VStr ''Ready''] [''inputFolder'' \<mapsto> VStr ''/data'']) =
       Cont s' \<and> calls (out s') = [''python'' # ''src/no_reorganize.py'' # a]) \<and>
   (\<exists>s'. stage_REORGANIZE (answering [])
       (example_state [''Structure'' \<mapsto> VStr ''Ready'']
          [''inputFolder'' \<mapsto> VStr ''/data'', ''inplace'' \<mapsto> VBool True]) =
       Cont s' \<and> calls (out s') = []) \<and>
   (\<exists>s'. stage_REORGANIZE (answering [])
       (example_state [''Structure'' \<mapsto> VStr ''Ready'']
          [''inputFolder'' \<mapsto> VStr ''/data'', ''inplace'' \<mapsto> VStr ''FALSE'']) =
       Cont s' \<and> calls (out s') = []) \<and>
   (\<exists>s' a. stage_REORGANIZE (answering [])
       (example_state [''Structure'' \<mapsto> VStr ''Ready_to_reorganize'']
          [''inputFolder'' \<mapsto> VStr ''/data'']) =
       Cont s' \<and> calls (out s') = [''python'' # ''src/reorganize_multiprocessing.py'' # a])"
proof (intro conjI)
  let ?p = "[''inputFolder'' \<mapsto> VStr ''/data'']"
  let ?e = "answering []"
  {
    let ?s = "example_state [''Structure'' \<mapsto> VStr ''Invalid''] ?p"
    from reorganize_example_resolves obtain s1 where
      r: "seq (resolve_REORGANIZE ?e @ [show_params ?e]) ?s = Cont s1" by blast
    have g: "gparams ?s ''Structure'' = Some (VStr ''Invalid'')" by (simp add: example_state_def)
    from mp [OF conjunct1 [OF reorganize_three_way [OF r]] g]
    have "\<exists>s'. stage_REORGANIZE ?e ?s = Stop (SysExit 0) s' \<and> calls (out s') = calls (out ?s)" .
    then show "\<exists>s'. stage_REORGANIZE ?e ?s = Stop (SysExit 0) s' \<and> calls (out s') = []"
      by (simp add: example_state_def)
  }
  {
    let ?s = "example_state [''Structure'' \<mapsto> VStr ''Ready''] ?p"
    from reorganize_example_resolves obtain s1 where
      r: "seq (resolve_REORGANIZE ?e @ [show_params ?e]) ?s = Cont s1"
      and i: "params s1 ''inplace'' = Some (VBool False)" by blast
    have g: "gparams ?s ''Structure'' = Some (VStr ''Ready'')" by (simp add: example_state_def)
    from mp [OF conjunct1 [OF conjunct2 [OF reorganize_three_way [OF r]]] g]
    obtain s' ip a where "stage_REORGANIZE ?e ?s = Cont s'" "params s1 ''inplace'' = Some ip"
      "calls (out s') = calls (out ?s) @
         (case ip of
            VBool b \<Rightarrow> if b then [] else [''python'' # ''src/no_reorganize.py'' # a]
          | VInt n \<Rightarrow> if n = 0 then [''python'' # ''src/no_reorganize.py'' # a] else []
          | VFloat l \<Rightarrow>
              if float_eq ?e l 0 then [''python'' # ''src/no_reorganize.py'' # a] else []
          | _ \<Rightarrow> [])"
      by (elim exE conjE)
    with i have "stage_REORGANIZE ?e ?s = Cont s' \<and>
        calls (out s') = [''python'' # ''src/no_reorganize.py'' # a]"
      by (simp add: example_state_def)
    then show "\<exists>s' a. stage_REORGANIZE ?e ?s = Cont s' \<and>
        calls (out s') = [''python'' # ''src/no_reorganize.py'' # a]" by (intro exI)
  }
  {
    let ?s = "example_state [''Structure'' \<mapsto> VStr ''Ready'']
          [''inputFolder'' \<mapsto> VStr ''/data'', ''inplace'' \<mapsto> VBool True]"
    from reorganize_inplace_resolves obtain s1 where
      r: "seq (resolve_REORGANIZE ?e @ [show_params ?e]) ?s = Cont s1"
      and i: "params s1 ''inplace'' = Some (VBool True)" by blast
    have g: "gparams ?s ''Structure'' = Some (VStr ''Ready'')" by (simp add: example_state_def)
    from mp [OF conjunct1 [OF conjunct2 [OF reorganize_three_way [OF r]]] g]
    obtain s' ip a where "stage_REORGANIZE ?e ?s = Cont s'" "params s1 ''inplace'' = Some ip"
      "calls (out s') = calls (out ?s) @
         (case ip of
            VBool b \<Rightarrow> if b then [] else [''python'' # ''src/no_reorganize.py'' # a]
          | VInt n \<Rightarrow> if n = 0 then [''python'' # ''src/no_reorganize.py'' # a] else []
          | VFloat l \<Rightarrow>
              if float_eq ?e l 0 then [''python'' # ''src/no_reorganize.py'' # a] else []
          | _ \<Rightarrow> [])"
      by (elim exE conjE)
    with i have "stage_REORGANIZE ?e ?s = Cont s' \<and> calls (out s') = []"
      by (simp add: example_state_def)
    then show "\<exists>s'. stage_REORGANIZE ?e ?s = Cont s' \<and> calls (out s') = []" by (intro exI)
  }
  {
    let ?s = "example_state [''Structure'' \<mapsto> VStr ''Ready'']
          [''inputFolder'' \<mapsto> VStr ''/data'', ''inplace'' \<mapsto> VStr ''FALSE'']"
    from reorganize_inplace_resolves obtain s1 where
      r: "seq (resolve_REORGANIZE ?e @ [show_params ?e]) ?s = Cont s1"
      and i: "params s1 ''inplace'' = Some (VStr ''FALSE'')" by blast
    have g: "gparams ?s ''Structure'' = Some (VStr ''Ready'')" by (simp add: example_state_def)
    from mp [OF conjunct1 [OF conjunct2 [OF reorganize_three_way [OF r]]] g]
    obtain s' ip a where "stage_REORGANIZE ?e ?s = Cont s'" "params s1 ''inplace'' = Some ip"
      "calls (out s') = calls (out ?s) @
         (case ip of
            VBool b \<Rightarrow> if b then [] else [''python'' # ''src/no_reorganize.py'' # a]
          | VInt n \<Rightarrow> if n = 0 then [''python'' # ''src/no_reorganize.py'' # a] else []
          | VFloat l \<Rightarrow>
              if float_eq ?e l 0 then [''python'' # ''src/no_reorganize.py'' # a] else []
          | _ \<Rightarrow> [])"
      by (elim exE conjE)
    with i have "stage_REORGANIZE ?e ?s = Cont s' \<and> calls (out s') = []"
      by (simp add: example_state_def)
    then show "\<exists>s'. stage_REORGANIZE ?e ?s = Cont s' \<and> calls (out s') = []" by (intro exI)
  }
  {
    let ?s = "example_state [''Structure'' \<mapsto> VStr ''Ready_to_reorganize''] ?p"
    from reorganize_example_resolves obtain s1 where
      r: "seq (resolve_REORGANIZE ?e @ [show_params ?e]) ?s = Cont s1" by blast
    have g: "gparams ?s ''Structure'' \<noteq> Some (VStr ''Invalid'') \<and>
        gparams ?s ''Structure'' \<noteq> Some (VStr ''Ready'')" by (simp add: example_state_def)
    from mp [OF conjunct2 [OF conjunct2 [OF reorganize_three_way [OF r]]] g]
    obtain s' a where "stage_REORGANIZE ?e ?s = Cont s'"
      "calls (out s') = calls (out ?s) @ [''python'' # ''src/reorganize_multiprocessing.py'' # a]"
      by (elim exE conjE)
    then have "stage_REORGANIZE ?e ?s = Cont s' \<and>
        calls (out s') = [''python'' # ''src/reorganize_multiprocessing.py'' # a]"
      by (simp add: example_state_def)
    then show "\<exists>s' a. stage_REORGANIZE ?e ?s = Cont s' \<and>
        calls (out s') = [''python'' # ''src/reorganize_multiprocessing.py'' # a]" by (intro exI)
  }
qed

lemmas run_eval = run_cfg_def series_get_def init_state_def stage_def launch_def try_run_def
  timed_def flags_def opt_def sw_def sw_not_def sw_and_def opt_given_def if_key_def
  py_truthy_def update_previous_def

lemma merge_example_resolves:
  "\<exists>s1. seq (resolve_MERGE_MASKS (answering []) @ [show_params (answering [])])
      (example_state Map.empty [''inputFolder'' \<mapsto> VStr ''/data'', ''reg'' \<mapsto> VStr ''m'']) = Cont s1"
  by (simp add: resolve_MERGE_MASKS_def step_eval example_state_def answering_def)

theorem merge_masks_mask_name_witness:
  "\<exists>s1. stage_MERGE_MASKS (answering [])
      (example_state Map.empty [''inputFolder'' \<mapsto> VStr ''/data'', ''reg'' \<mapsto> VStr ''m'']) =
     Stop (Uncaught (KeyError ''mask_name'')) s1 \<and> calls (out s1) = []"
proof -
  let ?s = "example_state Map.empty [''inputFolder'' \<mapsto> VStr ''/data'', ''reg'' \<mapsto> VStr ''m'']"
  from merge_example_resolves obtain s1 where
    r: "seq (resolve_MERGE_MASKS (answering []) @ [show_params (answering [])]) ?s = Cont s1" ..
  have m: "''mask_name'' \<notin> dom (params ?s)" by (simp add: example_state_def)
  have "stage_MERGE_MASKS (answering []) ?s = Stop (Uncaught (KeyError ''mask_name'')) s1 \<and>
     calls (out s1) = calls (out ?s)"
    by (rule merge_masks_mask_name [OF r m])
  then have "stage_MERGE_MASKS (answering []) ?s = Stop (Uncaught (KeyError ''mask_name'')) s1 \<and>
     calls (out s1) = []" by (simp add: example_state_def)
  then show ?thesis ..
qed

definition copy_record :: series where
  "copy_record = [(''function'', ''COPY''), (''inputFolder'', ''/in''), (''outputFolder'', ''/a'')]"

lemma copy_example_runs:
  "\<exists>s'. run_cfg (answering []) (init_state []) copy_record = Cont s' \<and>
     params s' ''outputFolder'' = Some (VStr ''/a'')"
  by (simp add: copy_record_def parse_eval answering_def stage_COPY_def resolve_COPY_def
      step_eval flags_COPY_def run_eval)

theorem previous_outFolder_update_witness:
  "\<exists>s'. run_cfg (answering []) (init_state []) copy_record = Cont s' \<and>
     previous_outFolder s' = VStr ''/a''"
proof -
  from copy_example_runs obtain s' where
    r: "run_cfg (answering []) (init_state []) copy_record = Cont s'"
    and o: "params s' ''outputFolder'' = Some (VStr ''/a'')" by (elim exE conjE)
  note u = conjunct1 [OF previous_outFolder_update [OF r]]
  have "previous_outFolder s' = VStr ''/a''" unfolding u o by simp
  with r show ?thesis by (intro exI conjI)
qed

section \<open>Duplicate keys\<close>

lemma strip_id:
  assumes "s \<noteq> []" and "\<not> P (hd s)" and "\<not> P (last s)"
  shows "strip P s = s"
proof -
  from assms(1,2) have 1: "dropWhile P s = s" by (cases s) simp_all
  from assms(1,3) have 2: "dropWhile P (rev s) = rev s"
    by (cases "rev s") (simp_all add: hd_rev [symmetric])
  show ?thesis by (simp add: strip_def rstrip_def 1 2)
qed

lemma split_none: "c \<notin> set s \<Longrightarrow> split c s = [s]"
  by (induction s) auto

lemma split_at: "c \<notin> set k \<Longrightarrow> split c (k @ c # v) = k # split c v"
  by (induction k) auto

lemma remove_char_none: "c \<notin> set s \<Longrightarrow> remove_char c s = s"
  by (auto simp: remove_char_def filter_id_conv)

lemma series_get_duplicate:
  assumes "\<not> distinct (map fst cfg)"
  shows "\<exists>k \<in> set (map fst cfg). series_get cfg k = Inl ValueError"
proof -
  from assms obtain xs ys zs k where d: "map fst cfg = xs @ [k] @ ys @ [k] @ zs"
    using not_distinct_decomp by blast
  have "length (filter (\<lambda>kv. fst kv = k) cfg) = length (filter (\<lambda>x. x = k) (map fst cfg))"
    by (simp add: filter_map comp_def)
  also have "\<dots> \<ge> 2" unfolding d by simp
  finally have "2 \<le> length (filter (\<lambda>kv. fst kv = k) cfg)" .
  then obtain a b r where "filter (\<lambda>kv. fst kv = k) cfg = a # b # r"
    by (cases "filter (\<lambda>kv. fst kv = k) cfg" rule: list.exhaust)
       (auto simp: Suc_le_eq neq_Nil_conv)
  then have "series_get cfg k = Inl ValueError" by (simp add: series_get_def)
  moreover have "k \<in> set (map fst cfg)" unfolding d by simp
  ultimately show ?thesis by blast
qed

lemma parse_raises: "parse ev i = Inl e \<Longrightarrow> e = IndexError"
  by (subst (asm) parse.simps) (auto split: if_splits option.splits sum.splits)

lemma series_get_raises:
  "k \<in> set (map fst cfg) \<Longrightarrow> series_get cfg k = Inl e \<Longrightarrow> e = ValueError"
proof -
  assume k: "k \<in> set (map fst cfg)" and e: "series_get cfg k = Inl e"
  from k have "filter (\<lambda>kv. fst kv = k) cfg \<noteq> []"
    by (auto simp: filter_empty_conv)
  with e show ?thesis
    by (cases "filter (\<lambda>kv. fst kv = k) cfg" rule: list.exhaust)
       (auto simp: series_get_def split: list.splits)
qed

lemma fill_raises:
  assumes "k \<in> set ks" and "series_get cfg k = Inl e0" and "set ks \<subseteq> set (map fst cfg)"
  shows "\<exists>e. fill ev cfg ks p = Inl e \<and> (e = ValueError \<or> e = IndexError)"
  using assms
proof (induction ks arbitrary: p)
  case Nil
  then show ?case by simp
next
  case (Cons a ks)
  show ?case
  proof (cases "series_get cfg a")
    case (Inl e)
    with Cons.prems(3) series_get_raises [of a cfg e] show ?thesis by simp
  next
    case (Inr raw)
    with Cons.prems have k: "k \<in> set ks" by auto
    show ?thesis
    proof (cases "parse ev raw")
      case (Inl e)
      with Inr parse_raises [OF Inl] show ?thesis by simp
    next
      case (Inr v)
      from Cons.IH [OF k Cons.prems(2)] Cons.prems(3)
      have "\<exists>e. fill ev cfg ks (p(a \<mapsto> v)) = Inl e \<and> (e = ValueError \<or> e = IndexError)"
        by simp
      with Inr \<open>series_get cfg a = Inr raw\<close> show ?thesis by simp
    qed
  qed
qed

lemma read_line_param:
  assumes "strip py_isspace raw = c # cs" and "c \<noteq> CHR ''#''" and "c \<noteq> CHR ''{''"
    and "c \<noteq> CHR ''}''" and "''function'' \<in> set (map fst (config r))"
    and "begin_param_list r"
    and "remove_char (CHR 0x09) (remove_char CHR '' '' (c # cs)) = l"
    and "split CHR '':'' (field0 CHR ''#'' l) = a # b # rest"
  shows "read_line env r raw = Inr (r\<lparr>config := config r @ [(field0 CHR '':'' l, b)]\<rparr>)"
  using assms by (simp add: read_line_def Let_def del: set_map)

text \<open>
  A parameter line \<open>k:v\<close> read inside a block is appended to the record also when the
  label \<open>k\<close> is already there. A record with a duplicated label raises as soon as one
  of the two loops of \<open>main\<close> reaches it: the loop over the \<open>GLOBAL_PARAMETERS\<close> blocks
  for such a block, the run loop for a stage.
\<close>

lemma duplicate_label_raises:
  "(''function'' \<in> set (map fst (config r)) \<and> begin_param_list r \<and> k \<noteq> [] \<and>
    hd k \<noteq> CHR ''{'' \<and> hd k \<noteq> CHR ''}'' \<and>
    (\<forall>c \<in> set (k @ v). \<not> py_isspace c \<and> c \<noteq> CHR ''#'' \<and> c \<noteq> CHR '':'') \<longrightarrow>
      read_line env r (k @ CHR '':'' # v) = Inr (r\<lparr>config := config r @ [(k, v)]\<rparr>)) \<and>
   (series_get cfg ''function'' = Inr fn \<and> \<not> distinct (map fst cfg) \<longrightarrow>
      (\<exists>e. (e = ValueError \<or> e = IndexError) \<and>
         (if fn = ''GLOBAL_PARAMETERS''
          then globals_loop env (cfg # rest) s = Stop (Uncaught e) s
          else run_loop env (cfg # rest) s = Stop (Uncaught e) s)))"
proof (intro conjI impI)
  assume a: "''function'' \<in> set (map fst (config r)) \<and> begin_param_list r \<and> k \<noteq> [] \<and>
    hd k \<noteq> CHR ''{'' \<and> hd k \<noteq> CHR ''}'' \<and>
    (\<forall>c \<in> set (k @ v). \<not> py_isspace c \<and> c \<noteq> CHR ''#'' \<and> c \<noteq> CHR '':'')"
  define line where "line = k @ CHR '':'' # v"
  from a obtain c cs where k: "k = c # cs" by (cases k) auto
  have ne: "line \<noteq> []" by (simp add: line_def)
  have h: "hd line = c" by (simp add: line_def k)
  have colon: "\<not> py_isspace CHR '':''" by (simp add: py_isspace_def code_def)
  have chars: "\<And>x. x \<in> set line \<Longrightarrow> \<not> py_isspace x \<and> x \<noteq> CHR ''#''"
    using a colon by (auto simp: line_def)
  have "last line \<in> set line" using ne by simp
  with chars have "\<not> py_isspace (last line)" by blast
  moreover have "\<not> py_isspace (hd line)" using chars ne by (simp add: hd_in_set)
  ultimately have s: "strip py_isspace line = line" using ne by (simp add: strip_id)
  have "py_isspace CHR '' ''" "py_isspace (CHR 0x09)"
    by (simp_all add: py_isspace_def code_def)
  with chars have "CHR '' '' \<notin> set line" "CHR 0x09 \<notin> set line" by blast+
  then have rm: "remove_char (CHR 0x09) (remove_char CHR '' '' line) = line"
    by (simp add: remove_char_none)
  have "CHR ''#'' \<notin> set line" using chars by blast
  then have f0: "field0 CHR ''#'' line = line" by (simp add: field0_def split_none)
  have nk: "CHR '':'' \<notin> set k" and nv: "CHR '':'' \<notin> set v" using a by auto
  have sp: "split CHR '':'' line = [k, v]"
    unfolding line_def by (simp add: split_at [OF nk] split_none [OF nv])
  have f1: "field0 CHR '':'' line = k" by (simp add: field0_def sp)
  have c: "c \<noteq> CHR ''#''" "c \<noteq> CHR ''{''" "c \<noteq> CHR ''}''" using a k by auto
  have lc: "line = c # (cs @ CHR '':'' # v)" by (simp add: line_def k)
  have "read_line env r line = Inr (r\<lparr>config := config r @ [(field0 CHR '':'' line, v)]\<rparr>)"
  proof (rule read_line_param)
    show "strip py_isspace line = c # (cs @ CHR '':'' # v)" using s lc by simp
    show "c \<noteq> CHR ''#''" "c \<noteq> CHR ''{''" "c \<noteq> CHR ''}''" by (rule c)+
    show "''function'' \<in> set (map fst (config r))" "begin_param_list r" using a by blast+
    show "remove_char (CHR 0x09) (remove_char CHR '' '' (c # (cs @ CHR '':'' # v))) = line"
      using rm lc by simp
    show "split CHR '':'' (field0 CHR ''#'' line) = k # v # []" by (simp add: f0 sp)
  qed
  then have "read_line env r line = Inr (r\<lparr>config := config r @ [(k, v)]\<rparr>)"
    by (simp add: f1)
  then show "read_line env r (k @ CHR '':'' # v) = Inr (r\<lparr>config := config r @ [(k, v)]\<rparr>)"
    by (simp add: line_def)
next
  assume a: "series_get cfg ''function'' = Inr fn \<and> \<not> distinct (map fst cfg)"
  then have fn: "series_get cfg ''function'' = Inr fn" and d: "\<not> distinct (map fst cfg)"
    by simp_all
  from series_get_duplicate [OF d] obtain k where k: "k \<in> set (map fst cfg)"
    and v: "series_get cfg k = Inl ValueError" by blast
  show "\<exists>e. (e = ValueError \<or> e = IndexError) \<and>
         (if fn = ''GLOBAL_PARAMETERS''
          then globals_loop env (cfg # rest) s = Stop (Uncaught e) s
          else run_loop env (cfg # rest) s = Stop (Uncaught e) s)"
  proof (cases "fn = ''GLOBAL_PARAMETERS''")
    case True
    from fn v have "k \<noteq> ''function''" by auto
    with k have "k \<in> set (filter (\<lambda>i. i \<noteq> ''function'') (map fst cfg))" by simp
    from fill_raises [OF this v, of "py_eval env" "gparams s"]
    obtain e where "fill (py_eval env) cfg (filter (\<lambda>i. i \<noteq> ''function'') (map fst cfg))
        (gparams s) = Inl e" "e = ValueError \<or> e = IndexError" by auto
    with True fn show ?thesis by auto
  next
    case False
    from fill_raises [OF k v, of "py_eval env" "gparams s"]
    obtain e where "fill (py_eval env) cfg (map fst cfg) (gparams s) = Inl e"
      "e = ValueError \<or> e = IndexError" by auto
    with False fn show ?thesis by (auto simp: run_cfg_def)
  qed
qed

section \<open>The input folder \<open>.\<close> without \<open>-i\<close>\<close>

definition input_stage_names :: "string list" where
  "input_stage_names =
     [''CHECK_FOLDER'', ''REORGANIZE'', ''DCM2NII'', ''SPATIAL_RESAMPLING'',
      ''INTENSITY_RESAMPLING'', ''MERGE_MASKS'', ''MASK_THRESHOLDING'', ''I-WINDOWING'',
      ''I-HARMONIZE'', ''N4-BIAS-FIELD-CORRECTION'', ''RADIOMICS'', ''SEGMENTATION'',
      ''F-NORMALIZE'', ''F-HARMONIZE'', ''PREDICT'', ''COPY'']"

lemma input_stage_names_cases:
  "fn \<in> set input_stage_names \<Longrightarrow>
   (fn = ''CHECK_FOLDER'' \<or> fn = ''REORGANIZE'' \<or> fn = ''DCM2NII'' \<or>
    fn = ''SPATIAL_RESAMPLING'' \<or> fn = ''INTENSITY_RESAMPLING'' \<or> fn = ''MERGE_MASKS'' \<or>
    fn = ''MASK_THRESHOLDING'' \<or> fn = ''I-WINDOWING'' \<or> fn = ''I-HARMONIZE'' \<or>
    fn = ''N4-BIAS-FIELD-CORRECTION'' \<or> fn = ''RADIOMICS'' \<or> fn = ''SEGMENTATION'' \<or>
    fn = ''F-NORMALIZE'' \<or> fn = ''F-HARMONIZE'' \<or> fn = ''PREDICT'' \<or> fn = ''COPY'')"
  by (simp add: input_stage_names_def)


lemma resolver_has_dot:
  "fn \<in> set input_stage_names \<Longrightarrow> dot env \<in> set (resolver env fn)"
  by (drule input_stage_names_cases, elim disjE) (simp_all add: resolver_def resolve_defs)


lemma dot_prints:
  assumes "inputPath env = []" and "params s ''inputFolder'' = Some (VStr ''.'')"
  shows "dot env s = Cont (emit (Print dot_msg) s)"
  using assms by (simp add: dot_def)

lemma seq_dot_message:
  assumes "dot env \<in> set fs" and "list_all quiet fs"
    and "list_all (inv (has ''inputFolder'' (VStr ''.''))) fs" and "inputPath env = []"
    and "has ''inputFolder'' (VStr ''.'') s" and "seq fs s = Cont s'"
  shows "\<exists>evs. out s' = out s @ evs \<and> Print dot_msg \<in> set evs \<and> calls evs = []"
  using assms
proof (induction fs arbitrary: s)
  case Nil
  then show ?case by simp
next
  case (Cons f fs)
  from Cons.prems(6) obtain s1 where f1: "f s = Cont s1" and f2: "seq fs s1 = Cont s'"
    by (auto split: res.splits)
  from Cons.prems(2) have qf: "quiet f" and qs: "list_all quiet fs" by simp_all
  from Cons.prems(3) have hf: "inv (has ''inputFolder'' (VStr ''.'')) f"
    and hs: "list_all (inv (has ''inputFolder'' (VStr ''.''))) fs" by simp_all
  from hf Cons.prems(5) f1 have h1: "has ''inputFolder'' (VStr ''.'') s1"
    unfolding inv_def by blast
  from qf f1 obtain e1 where e1: "out s1 = out s @ e1" "calls e1 = []"
    unfolding quiet_def by blast
  show ?case
  proof (cases "f = dot env")
    case True
    with f1 Cons.prems(4,5) have "s1 = emit (Print dot_msg) s"
      by (simp add: dot_prints has_def)
    then have o1: "out s1 = out s @ [Print dot_msg]" by (simp add: emit_def)
    from quiet_seq [OF qs] f2 obtain e2 where "out s' = out s1 @ e2" "calls e2 = []"
      unfolding quiet_def by blast
    with o1 have "out s' = out s @ (Print dot_msg # e2) \<and> Print dot_msg \<in> set (Print dot_msg # e2)
       \<and> calls (Print dot_msg # e2) = []" by simp
    then show ?thesis by blast
  next
    case False
    with Cons.prems(1) have "dot env \<in> set fs" by simp
    from Cons.IH [OF this qs hs Cons.prems(4) h1 f2] obtain e2 where
      "out s' = out s1 @ e2" "Print dot_msg \<in> set e2" "calls e2 = []" by blast
    with e1 have "out s' = out s @ (e1 @ e2) \<and> Print dot_msg \<in> set (e1 @ e2) \<and>
       calls (e1 @ e2) = []" by (simp add: calls_append)
    then show ?thesis by blast
  qed
qed

definition feeds_input :: "env \<Rightarrow> (mstate \<Rightarrow> res) \<Rightarrow> bool" where
  "feeds_input env d \<longleftrightarrow>
     (\<forall>s s' v. d s = Cont s' \<longrightarrow> params s ''inputFolder'' = Some v \<longrightarrow>
        params s' = params s \<and>
        (\<exists>evs. out s' = out s @ evs \<and>
           (\<forall>c \<in> set (calls evs). flag_value ''-i'' c = Some (py_str env v))))"

lemma flag_value_first:
  "script \<noteq> ''-i'' \<Longrightarrow> flag_value ''-i'' (''python'' # script # ''-i'' # x # a) = Some x"
  by simp

lemma feeds_launch [simp]:
  assumes "script \<noteq> ''-i''"
  shows "feeds_input env (launch env script (flags (opt ''-i'' ''inputFolder'' # rest)) m)"
  unfolding feeds_input_def
proof (intro allI impI)
  fix s s' v
  assume l: "launch env script (flags (opt ''-i'' ''inputFolder'' # rest)) m s = Cont s'"
    and v: "params s ''inputFolder'' = Some v"
  from launch_Cont [OF l] obtain a evs where
    a: "flags (opt ''-i'' ''inputFolder'' # rest) env (params s) = Inr a"
    and p: "params s' = params s" and o: "out s' = out s @ evs"
    and c: "calls evs = (if ''timer'' \<in> dom (params s) then [''python'' # script # a] else [])"
    by blast
  from flags_head [OF a v] obtain a' where "a = ''-i'' # py_str env v # a'" ..
  with c assms have "\<forall>c \<in> set (calls evs). flag_value ''-i'' c = Some (py_str env v)"
    by (simp add: flag_value_first)
  with p o show "params s' = params s \<and>
        (\<exists>evs. out s' = out s @ evs \<and>
           (\<forall>c \<in> set (calls evs). flag_value ''-i'' c = Some (py_str env v)))" by blast
qed

lemma feeds_check_folder [simp]: "feeds_input env (check_folder_launch env)"
  unfolding feeds_input_def
proof (intro allI impI)
  fix s s' v
  assume l: "check_folder_launch env s = Cont s'" and v: "params s ''inputFolder'' = Some v"
  from check_folder_launch_Cont [OF l] obtain a evs where
    a: "flags_CHECK_FOLDER env (params s) = Inr a"
    and p: "params s' = params s" and o: "out s' = out s @ evs"
    and c: "calls evs = (if ''timer'' \<in> dom (params s)
                  then [''python'' # ''src/StructFolderCheck.py'' # a] else [])"
    by blast
  from flags_head [OF a [unfolded flags_CHECK_FOLDER_def] v]
  obtain a' where "a = ''-i'' # py_str env v # a'" ..
  with c have "\<forall>c \<in> set (calls evs). flag_value ''-i'' c = Some (py_str env v)"
    by (simp add: flag_value_first)
  with p o show "params s' = params s \<and>
        (\<exists>evs. out s' = out s @ evs \<and>
           (\<forall>c \<in> set (calls evs). flag_value ''-i'' c = Some (py_str env v)))" by blast
qed

lemma feeds_segmentation [simp]: "feeds_input env (segmentation_launch env)"
  unfolding feeds_input_def
proof (intro allI impI)
  fix s s' v
  assume l: "segmentation_launch env s = Cont s'" and v: "params s ''inputFolder'' = Some v"
  from segmentation_launch_Cont [OF l] obtain a evs where
    a: "flags_SEGMENTATION env (params s) = Inr a"
    and p: "params s' = params s" and o: "out s' = out s @ evs"
    and c: "calls evs = (if ''timer'' \<in> dom (params s)
                  then [''python'' # ''src/segmentation_multiprocessing.py'' # a] else [])"
    by blast
  from flags_head [OF a [unfolded flags_SEGMENTATION_def] v]
  obtain a' where "a = ''-i'' # py_str env v # a'" ..
  with c have "\<forall>c \<in> set (calls evs). flag_value ''-i'' c = Some (py_str env v)"
    by (simp add: flag_value_first)
  with p o show "params s' = params s \<and>
        (\<exists>evs. out s' = out s @ evs \<and>
           (\<forall>c \<in> set (calls evs). flag_value ''-i'' c = Some (py_str env v)))" by blast
qed

lemma feeds_after_prints:
  assumes "feeds_input env d" and "params t = params s" and "out t = out s @ pre"
    and "calls pre = []" and "d t = Cont s'" and "params s ''inputFolder'' = Some v"
  shows "params s' = params s \<and>
        (\<exists>evs. out s' = out s @ evs \<and>
           (\<forall>c \<in> set (calls evs). flag_value ''-i'' c = Some (py_str env v)))"
proof -
  from assms(1,2,5,6) obtain evs where p: "params s' = params t" and o: "out s' = out t @ evs"
    and c: "\<forall>c \<in> set (calls evs). flag_value ''-i'' c = Some (py_str env v)"
    unfolding feeds_input_def by metis
  from o assms(3) have "out s' = out s @ (pre @ evs)" by simp
  moreover from c assms(4) have "\<forall>c \<in> set (calls (pre @ evs)).
     flag_value ''-i'' c = Some (py_str env v)" by (simp add: calls_append)
  ultimately show ?thesis using p assms(2) by metis
qed

lemma feeds_reorganize [simp]: "feeds_input env (reorganize_dispatch env)"
  unfolding feeds_input_def
proof (intro allI impI)
  fix s s' v
  assume d: "reorganize_dispatch env s = Cont s'" and v: "params s ''inputFolder'' = Some v"
  define s1 where "s1 = structure_default s"
  from d obtain st where st: "gparams s1 ''Structure'' = Some st"
    and b: "reorganize_branch env st (emit (Print (structure_msg @ '' '' @ py_str env st)) s1) = Cont s'"
    by (auto simp: reorganize_dispatch_def s1_def Let_def split: option.splits)
  define s2 where "s2 = emit (Print (structure_msg @ '' '' @ py_str env st)) s1"
  define s3 where "s3 = emit (Print ''Current folder is already ready for processing'') s2"
  have p2: "params s2 = params s" and o2: "out s2 = out s @ [Print (structure_msg @ '' '' @ py_str env st)]"
    by (simp_all add: s2_def s1_def emit_def structure_default_def setg_def split: option.splits)
  have p3: "params s3 = params s" and o3: "out s3 = out s @
      [Print (structure_msg @ '' '' @ py_str env st),
       Print ''Current folder is already ready for processing'']"
    using p2 o2 by (simp_all add: s3_def emit_def)
  from b have b2: "reorganize_branch env st s2 = Cont s'" by (simp add: s2_def)
  show "params s' = params s \<and>
        (\<exists>evs. out s' = out s @ evs \<and>
           (\<forall>c \<in> set (calls evs). flag_value ''-i'' c = Some (py_str env v)))"
  proof (cases "st = VStr ''Ready''")
    case True
    show ?thesis
    proof (cases "\<exists>ip. params s3 ''inplace'' = Some ip \<and> eq_bool env ip False")
      case True
      with b2 \<open>st = VStr ''Ready''\<close>
      have l: "launch env ''src/no_reorganize.py'' flags_no_reorganize
                    (running_msg ''no_reorganize.py'') s3 = Cont s'"
        by (auto simp: reorganize_branch_def s3_def Let_def)
      have "feeds_input env (launch env ''src/no_reorganize.py'' flags_no_reorganize
                    (running_msg ''no_reorganize.py''))"
        by (simp add: flags_no_reorganize_def)
      from feeds_after_prints [OF this p3 o3 _ l v] show ?thesis by simp
    next
      case False
      with b2 \<open>st = VStr ''Ready''\<close> have "s' = s3"
        by (auto simp: reorganize_branch_def s3_def Let_def split: option.splits if_splits)
      with p3 o3 have "params s' = params s \<and> out s' = out s @
         [Print (structure_msg @ '' '' @ py_str env st),
          Print ''Current folder is already ready for processing''] \<and>
         (\<forall>c \<in> set (calls [Print (structure_msg @ '' '' @ py_str env st),
          Print ''Current folder is already ready for processing'']).
            flag_value ''-i'' c = Some (py_str env v))" by simp
      then show ?thesis by blast
    qed
  next
    case False
    with b2 have l: "launch env ''src/reorganize_multiprocessing.py'' flags_REORGANIZE
             (running_msg ''reorganize.py'') s2 = Cont s'"
      by (auto simp: reorganize_branch_def fatal_def split: if_splits)
    have "feeds_input env (launch env ''src/reorganize_multiprocessing.py'' flags_REORGANIZE
             (running_msg ''reorganize.py''))"
      by (simp add: flags_REORGANIZE_def)
    from feeds_after_prints [OF this p2 o2 _ l v] show ?thesis by simp
  qed
qed


text \<open>The state in which a stage ends, whether it returns or stops.\<close>

fun outcome :: "res \<Rightarrow> mstate" where
  "outcome (Cont s) = s"
| "outcome (Stop st s) = s"

text \<open>
  \<open>announces env fs\<close>: started with \<open>inputFolder = .\<close>, the statements \<open>fs\<close> print the
  message of the \<open>.\<close> handling, however they end, and invoke nothing.
\<close>

definition announces :: "env \<Rightarrow> (mstate \<Rightarrow> res) list \<Rightarrow> bool" where
  "announces env fs \<longleftrightarrow>
     (\<forall>s. params s ''inputFolder'' = Some (VStr ''.'') \<longrightarrow>
        (\<exists>evs. out (outcome (seq fs s)) = out s @ evs \<and> Print dot_msg \<in> set evs \<and>
           calls evs = []))"

lemma announces_dflt [simp]: "announces env fs \<Longrightarrow> announces env (dflt k v # fs)"
  unfolding announces_def
proof (intro allI impI)
  fix s :: mstate
  assume a: "\<forall>s. params s ''inputFolder'' = Some (VStr ''.'') \<longrightarrow>
        (\<exists>evs. out (outcome (seq fs s)) = out s @ evs \<and> Print dot_msg \<in> set evs \<and>
           calls evs = [])"
    and p: "params s ''inputFolder'' = Some (VStr ''.'')"
  define s1 where "s1 = s\<lparr>params := (params s)(k \<mapsto> (case params s k of None \<Rightarrow> v | Some w \<Rightarrow> w))\<rparr>"
  have d: "dflt k v s = Cont s1" by (simp add: dflt_def s1_def)
  have p1: "params s1 ''inputFolder'' = Some (VStr ''.'')" and o1: "out s1 = out s"
    using p by (auto simp: s1_def)
  from a p1 obtain evs where "out (outcome (seq fs s1)) = out s1 @ evs"
    "Print dot_msg \<in> set evs" "calls evs = []" by blast
  with d o1 show "\<exists>evs. out (outcome (seq (dflt k v # fs) s)) = out s @ evs \<and>
     Print dot_msg \<in> set evs \<and> calls evs = []" by simp
qed

lemma announces_require [simp]:
  "announces env fs \<Longrightarrow> announces env (require ''inputFolder'' m c # fs)"
  unfolding announces_def by (simp add: require_def)

lemma announces_dot [simp]:
  assumes "inputPath env = []" and "list_all quiet fs"
  shows "announces env (dot env # fs)"
  unfolding announces_def
proof (intro allI impI)
  fix s :: mstate
  assume p: "params s ''inputFolder'' = Some (VStr ''.'')"
  define s1 where "s1 = emit (Print dot_msg) s"
  have d: "dot env s = Cont s1" using assms(1) p by (simp add: dot_def s1_def)
  have o1: "out s1 = out s @ [Print dot_msg]" by (simp add: s1_def emit_def)
  have "\<exists>e. out (outcome (seq fs s1)) = out s1 @ e \<and> calls e = []"
  proof (cases "seq fs s1")
    case (Cont s')
    with quiet_seq [OF assms(2)] show ?thesis unfolding quiet_def by auto
  next
    case (Stop st s')
    with quiet_seq [OF assms(2)] show ?thesis unfolding quiet_def by auto
  qed
  then obtain e where "out (outcome (seq fs s1)) = out s1 @ e" "calls e = []" by blast
  with o1 d have "out (outcome (seq (dot env # fs) s)) = out s @ (Print dot_msg # e) \<and>
     Print dot_msg \<in> set (Print dot_msg # e) \<and> calls (Print dot_msg # e) = []" by simp
  then show "\<exists>evs. out (outcome (seq (dot env # fs) s)) = out s @ evs \<and>
     Print dot_msg \<in> set evs \<and> calls evs = []" by blast
qed










section \<open>The three-stage example\<close>

definition end_to_end_file :: "string list" where
  "end_to_end_file =
     [''CHECK_FOLDER'', ''{'', ''    inputFolder: /data'', ''}'',
      ''REORGANIZE'', ''{'', ''    inputFolder: PREVIOUS_BLOCK_OUTPUT_FOLDER'',
      ''    outputFolderSuffix: ready'', ''}'',
      ''RADIOMICS'', ''{'', ''    inputFolder: PREVIOUS_BLOCK_OUTPUT_FOLDER'',
      ''    configs: /cfg.txt'', ''}'']"

lemmas read_eval = read_config_file_def read_line_def strip_def rstrip_def py_isspace_def
  code_def module_names_def field0_def remove_char_def Let_def

lemma end_to_end_read:
  "\<exists>r. read_config_file env end_to_end_file = Inr r \<and> calls (printed r) = [] \<and>
     configs r =
       [[(''function'', ''CHECK_FOLDER''), (''inputFolder'', ''/data'')],
        [(''function'', ''REORGANIZE''), (''inputFolder'', ''PREVIOUS_BLOCK_OUTPUT_FOLDER''),
         (''outputFolderSuffix'', ''ready'')],
        [(''function'', ''RADIOMICS''), (''inputFolder'', ''PREVIOUS_BLOCK_OUTPUT_FOLDER''),
         (''configs'', ''/cfg.txt'')]]"
  by (cases "verbose env") (simp_all add: end_to_end_file_def read_eval)


lemmas stage_eval = run_eval parse_eval step_eval eq_bool_def gt_one_def setg_def
  check_folder_launch_def check_folder_try_def structure_shown_def
  reorganize_dispatch_def reorganize_branch_def structure_default_def

lemma end_to_end_stage1:
  assumes "\<forall>h a. subprocess env h (''python'' # ''src/StructFolderCheck.py'' # a) = Some result"
    and "contains structure_reorganize_marker result"
    and "\<not> contains structure_ready_marker result"
  shows "\<exists>s1. run_cfg env (init_state evs)
        [(''function'', ''CHECK_FOLDER''), (''inputFolder'', ''/data'')] = Cont s1 \<and>
     gparams s1 = [''Structure'' \<mapsto> VStr ''Ready_to_reorganize''] \<and>
     previous_outFolder s1 = VStr [] \<and>
     calls (out s1) = calls evs @
       [[''python'', ''src/StructFolderCheck.py'', ''-i'', ''/data'', ''--log'', []]]"
  using assms
  by (cases "verbose env")
     (simp_all add: stage_eval stage_CHECK_FOLDER_def resolve_CHECK_FOLDER_def
        flags_CHECK_FOLDER_def calls_append)


lemma try_run_fields [simp]:
  "params (try_run env m prog s) = params s"
  "gparams (try_run env m prog s) = gparams s"
  "previous_outFolder (try_run env m prog s) = previous_outFolder s"
  using try_run_effect [of env m prog s] by simp_all

lemma try_run_calls [simp]:
  "''timer'' \<in> dom (params s) \<Longrightarrow> calls (out (try_run env m prog s)) = calls (out s) @ [prog]"
  using try_run_effect [of env m prog s] by (auto simp: calls_append)

lemma update_previous_fields [simp]:
  "params (update_previous s) = params s"
  "gparams (update_previous s) = gparams s"
  "out (update_previous s) = out s"
  by (simp_all add: update_previous_def split: option.splits)

lemmas pure_eval = run_cfg_def series_get_def init_state_def stage_def launch_def
  flags_def opt_def sw_def sw_not_def sw_and_def opt_given_def if_key_def py_truthy_def
  parse_eval step_eval eq_bool_def gt_one_def setg_def
  reorganize_dispatch_def reorganize_branch_def structure_default_def

lemma end_to_end_stage3:
  assumes "previous_outFolder s2 = VStr x"
    and "gparams s2 = [''Structure'' \<mapsto> VStr ''Ready_to_reorganize'']"
  shows "\<exists>s3 c. run_cfg env s2
        [(''function'', ''RADIOMICS''), (''inputFolder'', ''PREVIOUS_BLOCK_OUTPUT_FOLDER''),
         (''configs'', ''/cfg.txt'')] = Cont s3 \<and>
     calls (out s3) = calls (out s2) @ [c] \<and>
     take 2 c = [''python'', ''src/radiomics_multiprocessing.py''] \<and>
     flag_value ''-i'' c = Some x"
  using assms
  by (cases "verbose env")
     (simp_all add: pure_eval stage_RADIOMICS_def resolve_RADIOMICS_def
        flags_RADIOMICS_def calls_append update_previous_def)

lemma end_to_end_reorganize:
  assumes "gparams s1 = [''Structure'' \<mapsto> VStr ''Ready_to_reorganize'']"
    and "previous_outFolder s1 = VStr []"
  shows "\<exists>s2 c. run_cfg env s1
        [(''function'', ''REORGANIZE''), (''inputFolder'', ''PREVIOUS_BLOCK_OUTPUT_FOLDER''),
         (''outputFolderSuffix'', ''ready'')] = Cont s2 \<and>
     gparams s2 = gparams s1 \<and>
     calls (out s2) = calls (out s1) @ [c] \<and>
     take 2 c = [''python'', ''src/reorganize_multiprocessing.py''] \<and>
     flag_value ''-i'' c = Some [] \<and>
     flag_value ''-o'' c = Some ''PREVIOUS_BLOCK_OUTPUT_FOLDER_ready'' \<and>
     previous_outFolder s2 = VStr ''PREVIOUS_BLOCK_OUTPUT_FOLDER_ready''"
  using assms
  by (cases "verbose env")
     (simp_all add: pure_eval stage_REORGANIZE_def resolve_REORGANIZE_def
        flags_REORGANIZE_def calls_append update_previous_def)

lemma end_to_end_run:
  assumes probe: "\<forall>h a. subprocess env h (''python'' # ''src/StructFolderCheck.py'' # a) = Some result"
    and r1: "contains structure_reorganize_marker result"
    and r2: "\<not> contains structure_ready_marker result"
  shows "\<exists>s c2 c3. main env end_to_end_file = (Finished, s) \<and>
     calls (out s) =
       [[''python'', ''src/StructFolderCheck.py'', ''-i'', ''/data'', ''--log'', []], c2, c3] \<and>
     take 2 c2 = [''python'', ''src/reorganize_multiprocessing.py''] \<and>
     flag_value ''-i'' c2 = Some [] \<and>
     flag_value ''-o'' c2 = Some ''PREVIOUS_BLOCK_OUTPUT_FOLDER_ready'' \<and>
     take 2 c3 = [''python'', ''src/radiomics_multiprocessing.py''] \<and>
     flag_value ''-i'' c3 = Some ''PREVIOUS_BLOCK_OUTPUT_FOLDER_ready''"
proof -
  let ?k1 = "[(''function'', ''CHECK_FOLDER''), (''inputFolder'', ''/data'')]"
  let ?k2 = "[(''function'', ''REORGANIZE''), (''inputFolder'', ''PREVIOUS_BLOCK_OUTPUT_FOLDER''),
         (''outputFolderSuffix'', ''ready'')]"
  let ?k3 = "[(''function'', ''RADIOMICS''), (''inputFolder'', ''PREVIOUS_BLOCK_OUTPUT_FOLDER''),
         (''configs'', ''/cfg.txt'')]"
  from end_to_end_read [of env] obtain r where
    rd: "read_config_file env end_to_end_file = Inr r" and pr: "calls (printed r) = []"
    and cf: "configs r = [?k1, ?k2, ?k3]" by (elim exE conjE)
  have gl: "globals_loop env [?k1, ?k2, ?k3] (init_state (printed r)) = Cont (init_state (printed r))"
    by (simp add: series_get_def)
  from end_to_end_stage1 [OF probe r1 r2, of "printed r"] obtain s1 where
    a1: "run_cfg env (init_state (printed r)) ?k1 = Cont s1"
    and g1: "gparams s1 = [''Structure'' \<mapsto> VStr ''Ready_to_reorganize'']"
    and p1: "previous_outFolder s1 = VStr []"
    and c1: "calls (out s1) = calls (printed r) @
       [[''python'', ''src/StructFolderCheck.py'', ''-i'', ''/data'', ''--log'', []]]"
    by (elim exE conjE)
  from end_to_end_reorganize [OF g1 p1, of env] obtain s2 c2 where
    a2: "run_cfg env s1 ?k2 = Cont s2"
    and g2: "gparams s2 = gparams s1"
    and c2: "calls (out s2) = calls (out s1) @ [c2]"
    and t2: "take 2 c2 = [''python'', ''src/reorganize_multiprocessing.py'']"
    and i2: "flag_value ''-i'' c2 = Some []"
    and o2: "flag_value ''-o'' c2 = Some ''PREVIOUS_BLOCK_OUTPUT_FOLDER_ready''"
    and p2: "previous_outFolder s2 = VStr ''PREVIOUS_BLOCK_OUTPUT_FOLDER_ready''"
    by (elim exE conjE)
  from g1 g2 have g2': "gparams s2 = [''Structure'' \<mapsto> VStr ''Ready_to_reorganize'']" by simp
  from end_to_end_stage3 [OF p2 g2', of env] obtain s3 c3 where
    a3: "run_cfg env s2 ?k3 = Cont s3"
    and c3: "calls (out s3) = calls (out s2) @ [c3]"
    and t3: "take 2 c3 = [''python'', ''src/radiomics_multiprocessing.py'']"
    and i3: "flag_value ''-i'' c3 = Some ''PREVIOUS_BLOCK_OUTPUT_FOLDER_ready''"
    by (elim exE conjE)
  have "run_loop env [?k1, ?k2, ?k3] (init_state (printed r)) = Cont s3"
    by (simp add: a1 a2 a3)
  with rd cf gl have m: "main env end_to_end_file = (Finished, s3)"
    by (simp add: main_def)
  from c1 c2 c3 pr have cs: "calls (out s3) =
       [[''python'', ''src/StructFolderCheck.py'', ''-i'', ''/data'', ''--log'', []], c2, c3]"
    by simp
  from m cs t2 i2 o2 t3 i3 show ?thesis by (intro exI conjI)
qed

text \<open>
  C1, as the code has it. The pipeline file is \<open>CHECK_FOLDER {inputFolder: /data}\<close>,
  \<open>REORGANIZE {inputFolder: PREVIOUS_BLOCK_OUTPUT_FOLDER, outputFolderSuffix: ready}\<close>,
  \<open>RADIOMICS {inputFolder: PREVIOUS_BLOCK_OUTPUT_FOLDER, configs: /cfg.txt}\<close>, and the
  folder check answers that the folder is ready to reorganize. Then the run finishes
  after exactly three invocations: the folder check on \<open>/data\<close>, the reorganize script
  and the radiomics script. \<open>CHECK_FOLDER\<close> records no output folder and there is no
  fallback to its input folder, so the reorganize script receives the empty string as
  \<open>-i\<close>. The output folder of \<open>REORGANIZE\<close> is derived with the suffix \<open>_ready\<close>, and
  the radiomics script receives as \<open>-i\<close> what the reorganize script received as \<open>-o\<close>.
\<close>

theorem end_to_end_chaining:
  assumes "\<forall>h a. subprocess env h (''python'' # ''src/StructFolderCheck.py'' # a) = Some result"
    and "contains structure_reorganize_marker result"
    and "\<not> contains structure_ready_marker result"
  shows "\<exists>s c2 c3 x y. main env end_to_end_file = (Finished, s) \<and>
     calls (out s) =
       [[''python'', ''src/StructFolderCheck.py'', ''-i'', ''/data'', ''--log'', []], c2, c3] \<and>
     take 2 c2 = [''python'', ''src/reorganize_multiprocessing.py''] \<and>
     flag_value ''-i'' c2 = Some [] \<and>
     flag_value ''-o'' c2 = Some x \<and> x = y @ ''_ready'' \<and>
     take 2 c3 = [''python'', ''src/radiomics_multiprocessing.py''] \<and>
     flag_value ''-i'' c3 = Some x"
proof -
  from end_to_end_run [OF assms] obtain s c2 c3 where
    "main env end_to_end_file = (Finished, s)"
    "calls (out s) =
       [[''python'', ''src/StructFolderCheck.py'', ''-i'', ''/data'', ''--log'', []], c2, c3]"
    "take 2 c2 = [''python'', ''src/reorganize_multiprocessing.py'']"
    "flag_value ''-i'' c2 = Some []"
    "flag_value ''-o'' c2 = Some ''PREVIOUS_BLOCK_OUTPUT_FOLDER_ready''"
    "take 2 c3 = [''python'', ''src/radiomics_multiprocessing.py'']"
    "flag_value ''-i'' c3 = Some ''PREVIOUS_BLOCK_OUTPUT_FOLDER_ready''"
    by (elim exE conjE)
  moreover have "''PREVIOUS_BLOCK_OUTPUT_FOLDER_ready'' = ''PREVIOUS_BLOCK_OUTPUT_FOLDER'' @ ''_ready''"
    by simp
  ultimately show ?thesis by (intro exI conjI)
qed

lemma reorganize_answer:
  "(\<forall>h a. subprocess (answering structure_reorganize_marker) h
        (''python'' # ''src/StructFolderCheck.py'' # a) = Some structure_reorganize_marker) \<and>
   contains structure_reorganize_marker structure_reorganize_marker \<and>
   \<not> contains structure_ready_marker structure_reorganize_marker"
  by (simp add: answering_def structure_reorganize_marker_def structure_ready_marker_def)

theorem end_to_end_chaining_witness:
  "\<exists>s c2 c3 x y. main (answering structure_reorganize_marker) end_to_end_file = (Finished, s) \<and>
     calls (out s) =
       [[''python'', ''src/StructFolderCheck.py'', ''-i'', ''/data'', ''--log'', []], c2, c3] \<and>
     take 2 c2 = [''python'', ''src/reorganize_multiprocessing.py''] \<and>
     flag_value ''-i'' c2 = Some [] \<and>
     flag_value ''-o'' c2 = Some x \<and> x = y @ ''_ready'' \<and>
     take 2 c3 = [''python'', ''src/radiomics_multiprocessing.py''] \<and>
     flag_value ''-i'' c3 = Some x"
  by (rule end_to_end_chaining [OF conjunct1 [OF reorganize_answer]
        conjunct1 [OF conjunct2 [OF reorganize_answer]]
        conjunct2 [OF conjunct2 [OF reorganize_answer]]])

theorem end_to_end_counterexample:
  "\<exists>s c1 c2 c3. main (answering structure_reorganize_marker) end_to_end_file = (Finished, s) \<and>
     calls (out s) = [c1, c2, c3] \<and>
     flag_value ''-i'' c2 \<noteq> Some ''/data'' \<and>
     flag_value ''-o'' c2 \<noteq> Some ''/data_ready'' \<and>
     flag_value ''-i'' c3 \<noteq> Some ''/data_ready''"
proof -
  from end_to_end_run [OF conjunct1 [OF reorganize_answer]
        conjunct1 [OF conjunct2 [OF reorganize_answer]]
        conjunct2 [OF conjunct2 [OF reorganize_answer]]]
  obtain s c2 c3 where
    m: "main (answering structure_reorganize_marker) end_to_end_file = (Finished, s)"
    and cs: "calls (out s) =
       [[''python'', ''src/StructFolderCheck.py'', ''-i'', ''/data'', ''--log'', []], c2, c3]"
    and i2: "flag_value ''-i'' c2 = Some []"
    and o2: "flag_value ''-o'' c2 = Some ''PREVIOUS_BLOCK_OUTPUT_FOLDER_ready''"
    and i3: "flag_value ''-i'' c3 = Some ''PREVIOUS_BLOCK_OUTPUT_FOLDER_ready''"
    by (elim exE conjE)
  have "flag_value ''-i'' c2 \<noteq> Some ''/data''" "flag_value ''-o'' c2 \<noteq> Some ''/data_ready''"
    "flag_value ''-i'' c3 \<noteq> Some ''/data_ready''"
    by (simp_all add: i2 o2 i3)
  with m cs show ?thesis by (intro exI conjI)
qed

section \<open>Chaining through \<open>PREVIOUS_BLOCK_OUTPUT_FOLDER\<close>\<close>

lemma seq_reach:
  assumes "f \<in> set fs"
    and "list_all (\<lambda>g. g = f \<or> inv I g) fs" and "list_all (inv J) fs"
    and "\<forall>s s'. I s \<longrightarrow> f s = Cont s' \<longrightarrow> J s'"
    and "I s" and "seq fs s = Cont s'"
  shows "J s'"
  using assms
proof (induction fs arbitrary: s)
  case Nil
  then show ?case by simp
next
  case (Cons g gs)
  from Cons.prems(6) obtain s1 where g1: "g s = Cont s1" and g2: "seq gs s1 = Cont s'"
    by (auto split: res.splits)
  from Cons.prems(3) have js: "list_all (inv J) gs" by simp
  show ?case
  proof (cases "g = f")
    case True
    with Cons.prems(4,5) g1 have "J s1" by blast
    with inv_seq [OF js] g2 show ?thesis unfolding inv_def by blast
  next
    case False
    with Cons.prems(1) have m: "f \<in> set gs" by simp
    from False Cons.prems(2) have "inv I g" and gi: "list_all (\<lambda>g. g = f \<or> inv I g) gs"
      by simp_all
    with Cons.prems(5) g1 have "I s1" unfolding inv_def by blast
    from Cons.IH [OF m gi js Cons.prems(4) this g2] show ?thesis .
  qed
qed

definition passing_stage_names :: "string list" where
  "passing_stage_names =
     [''REORGANIZE'', ''INTENSITY_RESAMPLING'', ''MERGE_MASKS'', ''MASK_THRESHOLDING'',
      ''I-WINDOWING'', ''I-HARMONIZE'', ''N4-BIAS-FIELD-CORRECTION'', ''SEGMENTATION'',
      ''F-NORMALIZE'', ''F-HARMONIZE'', ''PREDICT'', ''COPY'']"

definition chaining_stage_names :: "string list" where
  "chaining_stage_names = ''DCM2NII'' # ''SPATIAL_RESAMPLING'' # ''RADIOMICS'' # passing_stage_names"

lemma chaining_stage_names_cases:
  "fn \<in> set chaining_stage_names \<Longrightarrow>
   (fn = ''REORGANIZE'' \<or> fn = ''DCM2NII'' \<or>
    fn = ''SPATIAL_RESAMPLING'' \<or> fn = ''INTENSITY_RESAMPLING'' \<or> fn = ''MERGE_MASKS'' \<or>
    fn = ''MASK_THRESHOLDING'' \<or> fn = ''I-WINDOWING'' \<or> fn = ''I-HARMONIZE'' \<or>
    fn = ''N4-BIAS-FIELD-CORRECTION'' \<or> fn = ''RADIOMICS'' \<or> fn = ''SEGMENTATION'' \<or>
    fn = ''F-NORMALIZE'' \<or> fn = ''F-HARMONIZE'' \<or> fn = ''PREDICT'' \<or> fn = ''COPY'')"
  by (auto simp: chaining_stage_names_def passing_stage_names_def)

lemma passing_is_chaining:
  "fn \<in> set passing_stage_names \<Longrightarrow> fn \<in> set chaining_stage_names"
  by (simp add: chaining_stage_names_def)

lemma chaining_is_stage: "fn \<in> set chaining_stage_names \<Longrightarrow> fn \<in> set stage_names"
  by (drule chaining_stage_names_cases, elim disjE) (simp_all add: stage_names_def)

lemma resolver_has_prev:
  "fn \<in> set chaining_stage_names \<Longrightarrow> prev ''inputFolder'' \<in> set (resolver env fn)"
  by (drule chaining_stage_names_cases, elim disjE) (simp_all add: resolver_def resolve_defs)

lemma resolver_awaiting:
  "fn \<in> set chaining_stage_names \<Longrightarrow>
   list_all (\<lambda>g. g = prev ''inputFolder'' \<or>
       inv (both (has ''inputFolder'' (VStr PREVIOUS)) (prev_is q)) g) (resolver env fn)"
  by (drule chaining_stage_names_cases, elim disjE)
     (simp_all add: resolver_def resolve_defs PREVIOUS_def)

lemma resolver_resolved:
  "fn \<in> set chaining_stage_names \<Longrightarrow>
   list_all (inv (both (has ''inputFolder'' (VStr ''/a'')) (prev_is (VStr ''/a''))))
     (resolver env fn)"
  by (drule chaining_stage_names_cases, elim disjE)
     (simp_all add: resolver_def resolve_defs PREVIOUS_def)

lemma prev_resolves:
  "\<forall>s s'. both (has ''inputFolder'' (VStr PREVIOUS)) (prev_is q) s \<longrightarrow>
      prev ''inputFolder'' s = Cont s' \<longrightarrow> both (has ''inputFolder'' q) (prev_is q) s'"
  by (auto simp: both_def has_def prev_is_def prev_def setp_def)

lemma resolver_no_output:
  "fn \<in> set passing_stage_names \<Longrightarrow> list_all (inv no_output) (resolver env fn)"
  by (simp add: passing_stage_names_def, elim disjE)
     (simp_all add: resolver_def resolve_defs)


lemma stage_steps:
  assumes "fn \<in> set stage_names" and "stage env fn s = Cont s'"
  shows "\<exists>s1 s2. seq (resolver env fn) s = Cont s1 \<and> show_params env s1 = Cont s2 \<and>
           dispatcher env fn s2 = Cont s'"
  using assms by (auto simp: stage_decompose seq_snoc2_Cont seq_snoc_Cont)

lemma stage_resolves_previous:
  assumes fn: "fn \<in> set chaining_stage_names" and run: "stage env fn s = Cont s'"
    and inp: "params s ''inputFolder'' = Some (VStr PREVIOUS)"
    and pr: "previous_outFolder s = VStr ''/a''"
  shows "params s' ''inputFolder'' = Some (VStr ''/a'')"
proof -
  from stage_steps [OF chaining_is_stage [OF fn] run] obtain s1 s2 where
    1: "seq (resolver env fn) s = Cont s1" and 2: "show_params env s1 = Cont s2"
    and 3: "dispatcher env fn s2 = Cont s'" by blast
  from inp pr have "both (has ''inputFolder'' (VStr PREVIOUS)) (prev_is (VStr ''/a'')) s"
    by (simp add: both_def has_def prev_is_def)
  from seq_reach [OF resolver_has_prev [OF fn] resolver_awaiting [OF fn]
      resolver_resolved [OF fn] prev_resolves this 1]
  have "has ''inputFolder'' (VStr ''/a'') s1" by (simp add: both_def)
  with has_show_params [of "''inputFolder''" "VStr ''/a''" env] 2
  have "has ''inputFolder'' (VStr ''/a'') s2" unfolding inv_def by blast
  with dispatcher_frame [OF 3] show ?thesis by (simp add: has_def)
qed

lemma stage_keeps_output:
  assumes run: "stage env fn s = Cont s'" and o: "params s ''outputFolder'' = Some v"
  shows "params s' ''outputFolder'' = Some v"
proof (cases "fn \<in> set stage_names")
  case True
  from stage_steps [OF True run] obtain s1 s2 where
    1: "seq (resolver env fn) s = Cont s1" and 2: "show_params env s1 = Cont s2"
    and 3: "dispatcher env fn s2 = Cont s'" by blast
  from o have "has ''outputFolder'' v s" by (simp add: has_def)
  with inv_seq [OF resolver_has_output [of v env fn]] 1 have "has ''outputFolder'' v s1"
    unfolding inv_def by blast
  with has_show_params [of "''outputFolder''" v env] 2 have "has ''outputFolder'' v s2"
    unfolding inv_def by blast
  with dispatcher_frame [OF 3] show ?thesis by (simp add: has_def)
next
  case False
  with run o show ?thesis by (simp add: stage_other)
qed

lemma stage_keeps_no_output:
  assumes fn: "fn \<in> set passing_stage_names" and run: "stage env fn s = Cont s'"
    and o: "no_output s"
  shows "no_output s'"
proof -
  from stage_steps [OF chaining_is_stage [OF passing_is_chaining [OF fn]] run] obtain s1 s2 where
    1: "seq (resolver env fn) s = Cont s1" and 2: "show_params env s1 = Cont s2"
    and 3: "dispatcher env fn s2 = Cont s'" by blast
  from inv_seq [OF resolver_no_output [OF fn]] 1 o have "no_output s1"
    unfolding inv_def by blast
  with no_output_show_params [of env] 2 have "no_output s2" unfolding inv_def by blast
  with dispatcher_frame [OF 3] show ?thesis by (simp add: no_output_def)
qed

lemma fill_other: "fill ev cfg ks p0 = Inr p \<Longrightarrow> k \<notin> set ks \<Longrightarrow> p k = p0 k"
proof (induction ks arbitrary: p0)
  case Nil
  then show ?case by simp
next
  case (Cons x ks)
  from Cons.prems(1) obtain raw v where "series_get cfg x = Inr raw" "parse ev raw = Inr v"
    and f: "fill ev cfg ks (p0(x \<mapsto> v)) = Inr p"
    by (auto split: sum.splits)
  from Cons.prems(2) have "k \<notin> set ks" and "k \<noteq> x" by simp_all
  with Cons.IH [OF f] show ?case by simp
qed

lemma fill_lookup:
  assumes "fill ev cfg ks p0 = Inr p" and "series_get cfg k = Inr raw"
    and "parse ev raw = Inr v" and "k \<in> set ks \<or> p0 k = Some v"
  shows "p k = Some v"
  using assms
proof (induction ks arbitrary: p0)
  case Nil
  then show ?case by simp
next
  case (Cons x ks)
  from Cons.prems(1) obtain raw' v' where r: "series_get cfg x = Inr raw'"
    and v: "parse ev raw' = Inr v'"
    and f: "fill ev cfg ks (p0(x \<mapsto> v')) = Inr p"
    by (auto split: sum.splits)
  have "k \<in> set ks \<or> (p0(x \<mapsto> v')) k = Some v"
  proof (cases "k = x")
    case True
    with r v Cons.prems(2,3) show ?thesis by simp
  next
    case False
    with Cons.prems(4) show ?thesis by auto
  qed
  from Cons.IH [OF f Cons.prems(2,3) this] show ?case .
qed

lemma run_cfg_Cont:
  assumes "run_cfg env s cfg = Cont s'" and "series_get cfg ''function'' = Inr fn"
    and "fn \<noteq> ''GLOBAL_PARAMETERS''"
  shows "\<exists>p s1. fill (py_eval env) cfg (map fst cfg) (gparams s) = Inr p \<and>
           stage env fn (s\<lparr>params := p\<rparr>) = Cont s1 \<and> s' = update_previous s1"
  using assms by (auto simp: run_cfg_def split: sum.splits res.splits)

lemma parse_PREVIOUS: "parse ev PREVIOUS = Inr (VStr PREVIOUS)"
  by (simp add: parse_eval PREVIOUS_def)

lemma parse_slash_a: "parse ev ''/a'' = Inr (VStr ''/a'')"
  by (simp add: parse_eval)

lemma run_cfg_input:
  assumes run: "run_cfg env s cfg = Cont s'" and fn: "series_get cfg ''function'' = Inr fn"
    and k: "fn \<in> set chaining_stage_names"
    and inp: "series_get cfg ''inputFolder'' = Inr PREVIOUS"
    and pr: "previous_outFolder s = VStr ''/a''"
  shows "params s' ''inputFolder'' = Some (VStr ''/a'')"
proof -
  from k have "fn \<noteq> ''GLOBAL_PARAMETERS''"
    by (auto simp: chaining_stage_names_def passing_stage_names_def)
  from run_cfg_Cont [OF run fn this] obtain p s1 where
    p: "fill (py_eval env) cfg (map fst cfg) (gparams s) = Inr p"
    and s1: "stage env fn (s\<lparr>params := p\<rparr>) = Cont s1" and s': "s' = update_previous s1"
    by blast
  from fill_lookup [OF p inp parse_PREVIOUS] series_get_key [OF inp]
  have "p ''inputFolder'' = Some (VStr PREVIOUS)" by simp
  with stage_resolves_previous [OF k s1] pr
  have "params s1 ''inputFolder'' = Some (VStr ''/a'')" by simp
  with s' update_previous_frame [of s1] show ?thesis by simp
qed


lemma update_previous_output:
  "params s ''outputFolder'' = Some v \<Longrightarrow> v \<noteq> VStr [] \<Longrightarrow>
   previous_outFolder (update_previous s) = v"
  by (simp add: update_previous_def)

lemma update_previous_no_output:
  "no_output s \<Longrightarrow> previous_outFolder (update_previous s) = previous_outFolder s"
  by (auto simp: update_previous_def no_output_def)

lemma run_cfg_output:
  assumes fn: "series_get cfg ''function'' = Inr fn" and ng: "fn \<noteq> ''GLOBAL_PARAMETERS''"
    and o: "series_get cfg ''outputFolder'' = Inr ''/a''"
    and run: "run_cfg env s cfg = Cont s'"
  shows "previous_outFolder s' = VStr ''/a''"
proof -
  from run_cfg_Cont [OF run fn ng] obtain p s1 where
    p: "fill (py_eval env) cfg (map fst cfg) (gparams s) = Inr p"
    and s1: "stage env fn (s\<lparr>params := p\<rparr>) = Cont s1" and s': "s' = update_previous s1"
    by blast
  from fill_lookup [OF p o parse_slash_a] series_get_key [OF o]
  have "p ''outputFolder'' = Some (VStr ''/a'')" by simp
  with stage_keeps_output [OF s1] have "params s1 ''outputFolder'' = Some (VStr ''/a'')" by simp
  from update_previous_output [OF this] s' show ?thesis by simp
qed

lemma run_cfg_passes:
  assumes fn: "series_get cfg ''function'' = Inr fn" and k: "fn \<in> set passing_stage_names"
    and o: "''outputFolder'' \<notin> set (map fst cfg) \<union> dom (gparams s)"
    and x: "''outputFolderSuffix'' \<notin> set (map fst cfg) \<union> dom (gparams s)"
    and run: "run_cfg env s cfg = Cont s'"
  shows "previous_outFolder s' = previous_outFolder s"
proof -
  from k have "fn \<noteq> ''GLOBAL_PARAMETERS''" by (auto simp: passing_stage_names_def)
  from run_cfg_Cont [OF run fn this] obtain p s1 where
    p: "fill (py_eval env) cfg (map fst cfg) (gparams s) = Inr p"
    and s1: "stage env fn (s\<lparr>params := p\<rparr>) = Cont s1" and s': "s' = update_previous s1"
    by blast
  from o x have "''outputFolder'' \<notin> set (map fst cfg)" "''outputFolderSuffix'' \<notin> set (map fst cfg)"
    "gparams s ''outputFolder'' = None" "gparams s ''outputFolderSuffix'' = None"
    by (simp_all add: domIff)
  with fill_other [OF p] have "p ''outputFolder'' = None" "p ''outputFolderSuffix'' = None"
    by simp_all
  then have "no_output (s\<lparr>params := p\<rparr>)" by (simp add: no_output_def)
  from stage_keeps_no_output [OF k s1 this] have "no_output s1" .
  from update_previous_no_output [OF this] s' stage_frame [OF s1] show ?thesis by simp
qed

text \<open>
  C3, as the code has it. Three consecutive stage records are run. The first is any non-global
  stage whose record gives \<open>outputFolder\<close> the value \<open>/a\<close>. The second is a stage of
  a kind that leaves a missing \<open>outputFolder\<close> missing or empty (every stage that
  resolves the token except \<open>DCM2NII\<close>, \<open>SPATIAL_RESAMPLING\<close> and \<open>RADIOMICS\<close>); its
  \<open>inputFolder\<close> is \<open>PREVIOUS_BLOCK_OUTPUT_FOLDER\<close> and neither its record nor the
  global parameters give \<open>outputFolder\<close> or \<open>outputFolderSuffix\<close>. The third is a
  stage of any kind that resolves the token (all but \<open>CHECK_FOLDER\<close> and \<open>DELETE\<close>),
  with \<open>inputFolder\<close> again \<open>PREVIOUS_BLOCK_OUTPUT_FOLDER\<close>. If the three iterations
  return, then \<open>previous_outFolder\<close> is \<open>/a\<close> after the first, the second stage's
  \<open>inputFolder\<close> resolves to \<open>/a\<close>, \<open>previous_outFolder\<close> is unchanged by the second
  iteration, and the third stage's \<open>inputFolder\<close> resolves to \<open>/a\<close> as well.
\<close>

theorem previous_chaining:
  assumes "series_get cfg1 ''function'' = Inr fn1" and "fn1 \<noteq> ''GLOBAL_PARAMETERS''"
    and "series_get cfg1 ''outputFolder'' = Inr ''/a''"
    and "run_cfg env s0 cfg1 = Cont s1"
    and "series_get cfg2 ''function'' = Inr fn2" and "fn2 \<in> set passing_stage_names"
    and "series_get cfg2 ''inputFolder'' = Inr PREVIOUS"
    and "''outputFolder'' \<notin> set (map fst cfg2) \<union> dom (gparams s1)"
    and "''outputFolderSuffix'' \<notin> set (map fst cfg2) \<union> dom (gparams s1)"
    and "run_cfg env s1 cfg2 = Cont s2"
    and "series_get cfg3 ''function'' = Inr fn3" and "fn3 \<in> set chaining_stage_names"
    and "series_get cfg3 ''inputFolder'' = Inr PREVIOUS"
    and "run_cfg env s2 cfg3 = Cont s3"
  shows "previous_outFolder s1 = VStr ''/a'' \<and>
     params s2 ''inputFolder'' = Some (VStr ''/a'') \<and>
     previous_outFolder s2 = previous_outFolder s1 \<and>
     params s3 ''inputFolder'' = Some (VStr ''/a'')"
proof -
  have 1: "previous_outFolder s1 = VStr ''/a''"
    by (rule run_cfg_output [OF assms(1-4)])
  have 2: "params s2 ''inputFolder'' = Some (VStr ''/a'')"
    by (rule run_cfg_input [OF assms(10,5) passing_is_chaining [OF assms(6)] assms(7) 1])
  have 3: "previous_outFolder s2 = previous_outFolder s1"
    by (rule run_cfg_passes [OF assms(5,6,8,9,10)])
  from 1 3 have "previous_outFolder s2 = VStr ''/a''" by simp
  from run_cfg_input [OF assms(14,11,12,13) this]
  have 4: "params s3 ''inputFolder'' = Some (VStr ''/a'')" .
  from 1 2 3 4 show ?thesis by (intro conjI)
qed

definition copy_next :: series where
  "copy_next = [(''function'', ''COPY''), (''inputFolder'', ''PREVIOUS_BLOCK_OUTPUT_FOLDER'')]"

definition radiomics_next :: series where
  "radiomics_next = [(''function'', ''RADIOMICS''),
     (''inputFolder'', ''PREVIOUS_BLOCK_OUTPUT_FOLDER''), (''configs'', ''/cfg.txt'')]"

lemma copy_first_runs:
  "\<exists>s'. run_cfg (answering []) (init_state []) copy_record = Cont s' \<and> gparams s' = Map.empty"
  by (simp add: copy_record_def answering_def stage_COPY_def resolve_COPY_def flags_COPY_def
      pure_eval)

lemma copy_next_runs:
  "gparams s = Map.empty \<Longrightarrow>
   \<exists>s'. run_cfg (answering []) s copy_next = Cont s' \<and> gparams s' = Map.empty"
  by (simp add: copy_next_def answering_def stage_COPY_def resolve_COPY_def flags_COPY_def
      pure_eval)

theorem previous_chaining_witness:
  "\<exists>s1 s2 s3. run_cfg (answering []) (init_state []) copy_record = Cont s1 \<and>
     run_cfg (answering []) s1 copy_next = Cont s2 \<and>
     run_cfg (answering []) s2 copy_next = Cont s3 \<and>
     previous_outFolder s1 = VStr ''/a'' \<and>
     params s2 ''inputFolder'' = Some (VStr ''/a'') \<and>
     previous_outFolder s2 = previous_outFolder s1 \<and>
     params s3 ''inputFolder'' = Some (VStr ''/a'')"
proof -
  from copy_first_runs obtain s1 where
    r1: "run_cfg (answering []) (init_state []) copy_record = Cont s1"
    and g1: "gparams s1 = Map.empty" by (elim exE conjE)
  from copy_next_runs [OF g1] obtain s2 where
    r2: "run_cfg (answering []) s1 copy_next = Cont s2"
    and g2: "gparams s2 = Map.empty" by (elim exE conjE)
  from copy_next_runs [OF g2] obtain s3 where
    r3: "run_cfg (answering []) s2 copy_next = Cont s3" by (elim exE conjE)
  have f1: "series_get copy_record ''function'' = Inr ''COPY''"
    and o1: "series_get copy_record ''outputFolder'' = Inr ''/a''"
    and f2: "series_get copy_next ''function'' = Inr ''COPY''"
    and i2: "series_get copy_next ''inputFolder'' = Inr PREVIOUS"
    by (simp_all add: series_get_def copy_record_def copy_next_def PREVIOUS_def)
  have ng: "''COPY'' \<noteq> ''GLOBAL_PARAMETERS''" by simp
  have k2: "''COPY'' \<in> set passing_stage_names" by (simp add: passing_stage_names_def)
  have k3: "''COPY'' \<in> set chaining_stage_names"
    by (simp add: chaining_stage_names_def passing_stage_names_def)
  have a: "''outputFolder'' \<notin> set (map fst copy_next) \<union> dom (gparams s1)"
    and b: "''outputFolderSuffix'' \<notin> set (map fst copy_next) \<union> dom (gparams s1)"
    by (simp_all add: copy_next_def g1)
  note t = previous_chaining [OF f1 ng o1 r1 f2 k2 i2 a b r2 f2 k3 i2 r3]
  from r1 r2 r3 t have "run_cfg (answering []) (init_state []) copy_record = Cont s1 \<and>
     run_cfg (answering []) s1 copy_next = Cont s2 \<and>
     run_cfg (answering []) s2 copy_next = Cont s3 \<and>
     previous_outFolder s1 = VStr ''/a'' \<and>
     params s2 ''inputFolder'' = Some (VStr ''/a'') \<and>
     previous_outFolder s2 = previous_outFolder s1 \<and>
     params s3 ''inputFolder'' = Some (VStr ''/a'')" by simp
  then show ?thesis by (intro exI)
qed

theorem previous_chaining_counterexample:
  "\<exists>s1 s2 s3. run_cfg (answering []) (init_state []) copy_record = Cont s1 \<and>
     run_cfg (answering []) s1 radiomics_next = Cont s2 \<and>
     run_cfg (answering []) s2 copy_next = Cont s3 \<and>
     previous_outFolder s1 = VStr ''/a'' \<and>
     params s2 ''inputFolder'' = Some (VStr ''/a'') \<and>
     ''outputFolder'' \<notin> set (map fst radiomics_next) \<and>
     previous_outFolder s2 = VStr ''~/'' \<and>
     params s3 ''inputFolder'' = Some (VStr ''~/'')"
  by (simp add: copy_record_def copy_next_def radiomics_next_def answering_def
      stage_COPY_def resolve_COPY_def flags_COPY_def
      stage_RADIOMICS_def resolve_RADIOMICS_def flags_RADIOMICS_def pure_eval
      update_previous_def)

section \<open>Runs on example pipeline files\<close>







definition duplicate_file :: "string list" where
  "duplicate_file =
     [''CHECK_FOLDER'', ''{'', ''    inputFolder: /data'', ''}'',
      ''COPY'', ''{'', ''    inputFolder: /a'', ''    inputFolder: /b'', ''}'']"

definition duplicate_record :: series where
  "duplicate_record =
     [(''function'', ''COPY''), (''inputFolder'', ''/a''), (''inputFolder'', ''/b'')]"

definition duplicate_global_file :: "string list" where
  "duplicate_global_file =
     [''GLOBAL_PARAMETERS'', ''{'', ''    log: /a.log'', ''    log: /b.log'', ''}'',
      ''CHECK_FOLDER'', ''{'', ''    inputFolder: /data'', ''}'']"

text \<open>
  C6. A duplicate key is not detected. Reading the file
  \<open>CHECK_FOLDER {inputFolder: /data}\<close>, \<open>COPY {inputFolder: /a, inputFolder: /b}\<close> succeeds
  and prints nothing; the second \<open>inputFolder\<close> line is appended to the record of the
  block. The run executes the first stage and then ends with the \<open>ValueError\<close> that
  coercing the duplicated entry raises and nothing catches; no message names the
  offending line. With the duplicate in a \<open>GLOBAL_PARAMETERS\<close> block the same exception
  ends the run in the loop over these blocks, before any stage.
\<close>

theorem duplicate_key_not_detected:
  "(\<exists>r. read_config_file (answering []) duplicate_file = Inr r \<and> printed r = [] \<and>
      configs r = [[(''function'', ''CHECK_FOLDER''), (''inputFolder'', ''/data'')],
                   duplicate_record]) \<and>
   (\<exists>s. main (answering []) duplicate_file = (Uncaught ValueError, s) \<and>
      out s = [Call [''python'', ''src/StructFolderCheck.py'', ''-i'', ''/data'', ''--log'', []],
               Print (running_msg ''StructFolderCheck.py'')]) \<and>
   (\<exists>s. main (answering []) duplicate_global_file = (Uncaught ValueError, s) \<and> out s = [])"
proof (intro conjI)
  show "\<exists>r. read_config_file (answering []) duplicate_file = Inr r \<and> printed r = [] \<and>
      configs r = [[(''function'', ''CHECK_FOLDER''), (''inputFolder'', ''/data'')],
                   duplicate_record]"
    by (simp add: duplicate_file_def duplicate_record_def answering_def read_eval)
  show "\<exists>s. main (answering []) duplicate_file = (Uncaught ValueError, s) \<and>
      out s = [Call [''python'', ''src/StructFolderCheck.py'', ''-i'', ''/data'', ''--log'', []],
               Print (running_msg ''StructFolderCheck.py'')]"
    by (simp add: duplicate_file_def duplicate_record_def answering_def main_def read_eval
        stage_CHECK_FOLDER_def resolve_CHECK_FOLDER_def flags_CHECK_FOLDER_def stage_eval
        structure_ready_marker_def structure_reorganize_marker_def)
  show "\<exists>s. main (answering []) duplicate_global_file = (Uncaught ValueError, s) \<and> out s = []"
    by (simp add: duplicate_global_file_def answering_def main_def read_eval series_get_def
        init_state_def)
qed

definition ready_file :: "string list" where
  "ready_file =
     [''CHECK_FOLDER'', ''{'', ''    inputFolder: /data'', ''}'',
      ''REORGANIZE'', ''{'', ''    inputFolder: /data'', ''    inplace: FALSE'', ''}'']"

theorem reorganize_counterexample:
  "parse (py_eval (answering structure_ready_marker)) ''FALSE'' = Inr (VStr ''FALSE'') \<and>
   (\<exists>s. main (answering structure_ready_marker) ready_file = (Finished, s) \<and>
      gparams s ''Structure'' = Some (VStr ''Ready'') \<and>
      params s ''inplace'' = Some (VStr ''FALSE'') \<and>
      calls (out s) = [[''python'', ''src/StructFolderCheck.py'', ''-i'', ''/data'', ''--log'', []]])"
  by (simp add: ready_file_def answering_def main_def read_eval
      stage_CHECK_FOLDER_def resolve_CHECK_FOLDER_def flags_CHECK_FOLDER_def
      stage_REORGANIZE_def resolve_REORGANIZE_def flags_REORGANIZE_def flags_no_reorganize_def
      stage_eval structure_ready_marker_def calls_append)

end
